(* ===== verification/Prelude.thy ===== *)
theory Prelude
  imports Main "HOL-Library.AList" "HOL-Library.Sublist" "HOL-Library.Char_ord" "HOL-Library.List_Lexorder"
begin

text \<open>
  Shared vocabulary of the development: the parts of Go's packages \<^verbatim>\<open>strings\<close>, \<^verbatim>\<open>fmt\<close> and
  \<^verbatim>\<open>sort\<close> that the bridge uses, association lists for Go maps, and the lemma collections
  the component theories add to.

  A Go string is a sequence of bytes, modelled as a list of \<^typ>\<open>char\<close> (a char is a byte);
  \<^verbatim>\<open>len\<close> is \<^const>\<open>length\<close>.  Case folding and white space are those of ASCII: letters and
  spaces of Unicode outside ASCII are left as they are.  A Go map is an association list in the
  order in which one \<^verbatim>\<open>range\<close> over it visits the entries; Go leaves that order open, so
  statements about the result of an iteration quantify over every list with the same entries.
\<close>

named_theorems go_strings \<open>facts about the string functions\<close>
named_theorems alist_simps \<open>lookup, update and delete on association lists\<close>

type_synonym go_error = "string option"
type_synonym 'v go_map = "(string \<times> 'v) list"

section \<open>Characters\<close>

definition is_upper :: "char \<Rightarrow> bool" where
  "is_upper c \<longleftrightarrow> CHR ''A'' \<le> c \<and> c \<le> CHR ''Z''"

definition is_lower :: "char \<Rightarrow> bool" where
  "is_lower c \<longleftrightarrow> CHR ''a'' \<le> c \<and> c \<le> CHR ''z''"

definition is_digit :: "char \<Rightarrow> bool" where
  "is_digit c \<longleftrightarrow> CHR ''0'' \<le> c \<and> c \<le> CHR ''9''"

definition is_alnum :: "char \<Rightarrow> bool" where
  "is_alnum c \<longleftrightarrow> is_lower c \<or> is_upper c \<or> is_digit c"

definition is_space :: "char \<Rightarrow> bool" where
  "is_space c \<longleftrightarrow> c \<in> {CHR '' '', CHR 0x09, CHR 0x0A, CHR 0x0B, CHR 0x0C, CHR 0x0D}"

definition lower_char :: "char \<Rightarrow> char" where
  "lower_char c = (if is_upper c then char_of (of_char c + (32::nat)) else c)"

text \<open>The same on the bits of a character, by which the examples are evaluated.\<close>

lemma is_upper_Char [code]:
  "is_upper (Char b0 b1 b2 b3 b4 b5 b6 b7) \<longleftrightarrow>
     \<not> b7 \<and> b6 \<and> \<not> b5 \<and> (b0 \<or> b1 \<or> b2 \<or> b3 \<or> b4) \<and> \<not> (b4 \<and> b3 \<and> (b2 \<or> b1 \<and> b0))"
  unfolding is_upper_def
  by (cases b0; cases b1; cases b2; cases b3; cases b4; cases b5; cases b6; cases b7) (simp_all add: less_eq_char_simp)

lemma is_lower_Char [code]:
  "is_lower (Char b0 b1 b2 b3 b4 b5 b6 b7) \<longleftrightarrow>
     \<not> b7 \<and> b6 \<and> b5 \<and> (b0 \<or> b1 \<or> b2 \<or> b3 \<or> b4) \<and> \<not> (b4 \<and> b3 \<and> (b2 \<or> b1 \<and> b0))"
  unfolding is_lower_def
  by (cases b0; cases b1; cases b2; cases b3; cases b4; cases b5; cases b6; cases b7) (simp_all add: less_eq_char_simp)

lemma is_digit_Char [code]:
  "is_digit (Char b0 b1 b2 b3 b4 b5 b6 b7) \<longleftrightarrow>
     \<not> b7 \<and> \<not> b6 \<and> b5 \<and> b4 \<and> \<not> (b3 \<and> (b2 \<or> b1))"
  unfolding is_digit_def
  by (cases b0; cases b1; cases b2; cases b3; cases b4; cases b5; cases b6; cases b7) (simp_all add: less_eq_char_simp)

lemma lower_char_Char [code]:
  "lower_char (Char b0 b1 b2 b3 b4 b5 b6 b7) =
     Char b0 b1 b2 b3 b4 (b5 \<or> is_upper (Char b0 b1 b2 b3 b4 b5 b6 b7)) b6 b7"
  unfolding lower_char_def is_upper_Char
  by (cases b0; cases b1; cases b2; cases b3; cases b4; cases b5; cases b6; cases b7) (simp_all add: char_of_def bit_Suc_0_iff)

section \<open>Package strings\<close>

text \<open>\<^verbatim>\<open>strings.ToLower\<close>.\<close>

definition to_lower :: "string \<Rightarrow> string" where
  "to_lower s = map lower_char s"

text \<open>\<^verbatim>\<open>strings.EqualFold\<close>.\<close>

definition equal_fold :: "string \<Rightarrow> string \<Rightarrow> bool" where
  "equal_fold s t \<longleftrightarrow> to_lower s = to_lower t"

text \<open>\<^verbatim>\<open>strings.Split\<close> with a separator of one byte: never empty, one field more than separators.\<close>

fun go_split :: "char \<Rightarrow> string \<Rightarrow> string list" where
  "go_split c [] = [[]]"
| "go_split c (x # xs) =
     (if x = c then [] # go_split c xs
      else (x # hd (go_split c xs)) # tl (go_split c xs))"

text \<open>\<^verbatim>\<open>strings.Join\<close>.\<close>

fun go_join :: "string \<Rightarrow> string list \<Rightarrow> string" where
  "go_join sep [] = []"
| "go_join sep [s] = s"
| "go_join sep (s # t # ts) = s @ sep @ go_join sep (t # ts)"

text \<open>\<^verbatim>\<open>strings.ReplaceAll\<close> and \<^verbatim>\<open>strings.NewReplacer\<close> for one byte to delete or to replace.\<close>

definition remove_char :: "char \<Rightarrow> string \<Rightarrow> string" where
  "remove_char c s = filter (\<lambda>x. x \<noteq> c) s"

definition replace_char :: "char \<Rightarrow> string \<Rightarrow> string \<Rightarrow> string" where
  "replace_char c r s = concat (map (\<lambda>x. if x = c then r else [x]) s)"

text \<open>\<^verbatim>\<open>strings.Trim\<close> and \<^verbatim>\<open>strings.TrimSpace\<close>.\<close>

definition go_trim :: "(char \<Rightarrow> bool) \<Rightarrow> string \<Rightarrow> string" where
  "go_trim p s = rev (dropWhile p (rev (dropWhile p s)))"

definition trim_space :: "string \<Rightarrow> string" where
  "trim_space s = go_trim is_space s"

text \<open>\<^verbatim>\<open>strings.HasPrefix\<close>, \<^verbatim>\<open>strings.HasSuffix\<close> and \<^verbatim>\<open>strings.Contains\<close>.\<close>

definition has_prefix :: "string \<Rightarrow> string \<Rightarrow> bool" where
  "has_prefix s p \<longleftrightarrow> take (length p) s = p"

definition has_suffix :: "string \<Rightarrow> string \<Rightarrow> bool" where
  "has_suffix s p \<longleftrightarrow> has_prefix (rev s) (rev p)"

fun contains :: "string \<Rightarrow> string \<Rightarrow> bool" where
  "contains [] p \<longleftrightarrow> p = []"
| "contains (x # xs) p \<longleftrightarrow> has_prefix (x # xs) p \<or> contains xs p"

text \<open>Decimal printing, as \<^verbatim>\<open>%d\<close> does.\<close>

fun show_nat :: "nat \<Rightarrow> string" where
  "show_nat n =
     (if n < 10 then [char_of (48 + n)] else show_nat (n div 10) @ [char_of (48 + n mod 10)])"

declare show_nat.simps [simp del]

definition show_int :: "int \<Rightarrow> string" where
  "show_int i = (if i < 0 then ''-'' @ show_nat (nat (- i)) else show_nat (nat i))"

section \<open>Facts about strings\<close>

lemma go_split_not_Nil [simp]: "go_split c s \<noteq> []"
  by (induction s) auto

lemma go_split_no_sep [go_strings]: "c \<notin> set s \<Longrightarrow> go_split c s = [s]"
  by (induction s) auto

lemma go_split_append [go_strings]:
  "c \<notin> set s \<Longrightarrow> go_split c (s @ c # t) = s # go_split c t"
  by (induction s) auto

lemma go_split_fields_no_sep: "s \<in> set (go_split c t) \<Longrightarrow> c \<notin> set s"
proof (induction t arbitrary: s)
  case (Cons x t)
  have hd_tl: "set (go_split c t) = insert (hd (go_split c t)) (set (tl (go_split c t)))"
    by (metis go_split_not_Nil list.collapse list.simps(15))
  with Cons show ?case by (auto split: if_splits)
qed simp

lemma go_split_join [go_strings]:
  assumes "ss \<noteq> []" and "\<forall>s \<in> set ss. c \<notin> set s"
  shows "go_split c (go_join [c] ss) = ss"
  using assms
proof (induction "[c]" ss rule: go_join.induct)
  case (3 s t ts)
  then show ?case by (simp add: go_split_append)
qed (auto simp: go_split_no_sep)

lemma go_join_eq_Nil_iff: "c \<noteq> [] \<Longrightarrow> go_join c ss = [] \<longleftrightarrow> ss = [] \<or> ss = [[]]"
  by (induction c ss rule: go_join.induct) auto

lemma remove_char_id [go_strings]: "c \<notin> set s \<Longrightarrow> remove_char c s = s"
  by (auto simp: remove_char_def filter_id_conv)

lemma set_remove_char [simp]: "set (remove_char c s) = set s - {c}"
  by (auto simp: remove_char_def)

lemma remove_char_idem [simp]: "remove_char c (remove_char c s) = remove_char c s"
  by (simp add: remove_char_def)

lemma has_prefix_iff: "has_prefix s p \<longleftrightarrow> (\<exists>t. s = p @ t)"
  by (metis append_eq_conv_conj append_take_drop_id has_prefix_def)

lemma has_prefix_append [simp]: "has_prefix (p @ t) p"
  by (simp add: has_prefix_def)

lemma has_suffix_iff: "has_suffix s p \<longleftrightarrow> (\<exists>t. s = t @ p)"
  by (metis has_prefix_iff has_suffix_def rev_append rev_rev_ident)

lemma contains_iff: "contains s p \<longleftrightarrow> (\<exists>a b. s = a @ p @ b)"
proof (induction s)
  case (Cons x xs)
  have "(\<exists>a b. x # xs = a @ p @ b) \<longleftrightarrow> has_prefix (x # xs) p \<or> (\<exists>a b. xs = a @ p @ b)"
    by (auto simp: has_prefix_iff Cons_eq_append_conv)
  with Cons show ?case by simp
qed auto

lemma set_go_trim: "set (go_trim p s) \<subseteq> set s"
proof -
  have "set (dropWhile p t) \<subseteq> set t" for t :: string
    by (auto dest: set_dropWhileD)
  then show ?thesis by (metis go_trim_def order_trans set_rev)
qed

lemma length_go_trim: "length (go_trim p s) \<le> length s"
  by (metis go_trim_def length_dropWhile_le length_rev order_trans)

lemma go_trim_infix: "\<exists>a b. s = a @ go_trim p s @ b"
proof -
  have "s = takeWhile p s @ dropWhile p s" by simp
  moreover have "dropWhile p s = go_trim p s @ rev (takeWhile p (rev (dropWhile p s)))"
    by (metis go_trim_def rev_append rev_rev_ident takeWhile_dropWhile_id)
  ultimately show ?thesis by metis
qed

lemma dropWhile_hd_id: "(s \<noteq> [] \<Longrightarrow> \<not> p (hd s)) \<Longrightarrow> dropWhile p s = s"
  by (cases s) auto

lemma go_trim_id:
  assumes "s \<noteq> [] \<Longrightarrow> \<not> p (hd s) \<and> \<not> p (last s)"
  shows "go_trim p s = s"
proof -
  have "dropWhile p s = s" using assms by (intro dropWhile_hd_id) auto
  moreover have "dropWhile p (rev s) = rev s"
    using assms by (intro dropWhile_hd_id) (auto simp: hd_rev)
  ultimately show ?thesis by (simp add: go_trim_def)
qed

lemma hd_go_trim: "go_trim p s \<noteq> [] \<Longrightarrow> \<not> p (hd (go_trim p s))"
proof -
  assume ne: "go_trim p s \<noteq> []"
  let ?t = "dropWhile p s"
  have t: "?t = go_trim p s @ rev (takeWhile p (rev ?t))"
    by (metis go_trim_def rev_append rev_rev_ident takeWhile_dropWhile_id)
  from t ne have "hd (go_trim p s) = hd ?t" by (metis hd_append2)
  moreover from t ne have "?t \<noteq> []" by (metis append_is_Nil_conv)
  ultimately show ?thesis using hd_dropWhile by metis
qed

lemma last_go_trim: "go_trim p s \<noteq> [] \<Longrightarrow> \<not> p (last (go_trim p s))"
  by (metis Nil_is_rev_conv go_trim_def hd_dropWhile last_rev)

section \<open>Association lists\<close>

text \<open>
  \<^const>\<open>AList.update\<close> keeps the position of a key that is present and appends a new one;
  \<^const>\<open>AList.delete\<close> drops every entry of a key.  Both keep the keys distinct.
\<close>

lemma map_of_update [simp, alist_simps]: "map_of (AList.update k v m) = (map_of m)(k \<mapsto> v)"
  by (rule update_conv')

lemma map_of_delete [simp, alist_simps]: "map_of (AList.delete k m) = (map_of m)(k := None)"
  by (rule delete_conv')

lemma distinct_update_keys [simp, intro]:
  "distinct (map fst m) \<Longrightarrow> distinct (map fst (AList.update k v m))"
  by (rule distinct_update)

lemma distinct_delete_keys [simp, intro]:
  "distinct (map fst m) \<Longrightarrow> distinct (map fst (AList.delete k m))"
  by (rule distinct_delete)

lemma map_of_eq_None_keys: "map_of m k = None \<longleftrightarrow> k \<notin> set (map fst m)"
  by (simp add: map_of_eq_None_iff)

lemma keys_eq_dom: "set (map fst m) = dom (map_of m)"
  by (simp add: dom_map_of_conv_image_fst)

end
