(* ===== verification/Names.thy ===== *)
theory Names
  imports Prelude
begin

text \<open>
  Names, import keys and URIs: the constants of \<^verbatim>\<open>pkg/types/normalizer.go\<close>,
  \<^verbatim>\<open>pkg/util/constants.go\<close> and \<^verbatim>\<open>pkg/rest/kfmr.go\<close> and the functions of
  \<^verbatim>\<open>pkg/util/utils.go\<close> that all three services share.

  \<open>SanitizeName\<close> makes a Backstage entity name of any text; \<open>BuildImportKeyAndURI\<close> makes the
  storage key and the location URI of a model version; \<open>rekey\<close> is the way back from a key to
  its two segments that the storage and the location service have in common.
\<close>

section \<open>Constants\<close>

type_synonym NormalizerFormat = string

definition CatalogInfoYamlFormat :: NormalizerFormat where
  "CatalogInfoYamlFormat = ''CatalogInfoYamlFormat''"

definition JsonArrayForamt :: NormalizerFormat where
  "JsonArrayForamt = ''JsonArrayFormat''"

definition KServeNormalizer :: string where
  "KServeNormalizer = ''kserve''"

definition KubeflowNormalizer :: string where
  "KubeflowNormalizer = ''kubeflow''"

definition DefaultOwner :: string where
  "DefaultOwner = ''rhdh-rhoai-bridge''"

definition DefaultLifecycle :: string where
  "DefaultLifecycle = ''development''"

definition StorageConfigMapName :: string where
  "StorageConfigMapName = ''bac-import-model''"

definition UpsertURI :: string where "UpsertURI = ''/upsert''"
definition CurrentKeySetURI :: string where "CurrentKeySetURI = ''/currentkeyset''"
definition RemoveURI :: string where "RemoveURI = ''/remove''"
definition ListURI :: string where "ListURI = ''/list''"
definition FetchURI :: string where "FetchURI = ''/fetch''"
definition ModelCardURI :: string where "ModelCardURI = ''/modelcard''"
definition KeyQueryParam :: string where "KeyQueryParam = ''key''"
definition TypeQueryParam :: string where "TypeQueryParam = ''type''"

definition INF_SVC_MV_ID_LABEL :: string where
  "INF_SVC_MV_ID_LABEL = ''modelregistry.opendatahub.io/model-version-id''"

definition INF_SVC_RM_ID_LABEL :: string where
  "INF_SVC_RM_ID_LABEL = ''modelregistry.opendatahub.io/registered-model-id''"

definition INF_SVC_INF_SVC_ID_LABEL :: string where
  "INF_SVC_INF_SVC_ID_LABEL = ''modelregistry.opendatahub.io/inference-service-id''"

lemmas uri_defs = UpsertURI_def CurrentKeySetURI_def RemoveURI_def ListURI_def FetchURI_def
  ModelCardURI_def

section \<open>Sanitised names\<close>

text \<open>The characters outside the class of \<^verbatim>\<open>NameInvalidCharRegexp\<close>.\<close>

definition name_char :: "char \<Rightarrow> bool" where
  "name_char c \<longleftrightarrow> is_alnum c \<or> c = CHR ''-'' \<or> c = CHR ''_''"

text \<open>The class \<^verbatim>\<open>[-_.]\<close>, also the cut set of the final trim.\<close>

definition special_char :: "char \<Rightarrow> bool" where
  "special_char c \<longleftrightarrow> c = CHR ''-'' \<or> c = CHR ''_'' \<or> c = CHR ''.''"

text \<open>
  \<^verbatim>\<open>ReplaceAllString(s, "")\<close> for \<^verbatim>\<open>NameNoDuplicateSpecialCharRegexp\<close>, \<^verbatim>\<open>[-_.]{2,}\<close>: the
  leftmost match is greedy, so each maximal run of two or more special characters goes.
\<close>

function drop_special_runs :: "string \<Rightarrow> string" where
  "drop_special_runs [] = []"
| "drop_special_runs (c # cs) =
     (if special_char c \<and> cs \<noteq> [] \<and> special_char (hd cs)
      then drop_special_runs (dropWhile special_char cs)
      else c # drop_special_runs cs)"
  by pat_completeness auto
termination
  by (relation "measure length") (auto intro: le_imp_less_Suc length_dropWhile_le)

definition SanitizeName :: "string \<Rightarrow> string" where
  "SanitizeName name =
     (let sanitizedName = filter name_char name;
          sanitizedName = drop_special_runs sanitizedName;
          sanitizedName = (if length sanitizedName > 63 then take 63 sanitizedName else sanitizedName)
      in go_trim special_char sanitizedName)"

definition SanitizeModelVersion :: "string \<Rightarrow> string" where
  "SanitizeModelVersion mv =
     (let mv = to_lower mv;
          mv = replace_char (CHR '' '') ''-'' mv
      in to_lower (SanitizeName mv))"

text \<open>What a sanitised name promises.\<close>

definition specials_apart :: "string \<Rightarrow> bool" where
  "specials_apart s \<longleftrightarrow> successively (\<lambda>a b. \<not> (special_char a \<and> special_char b)) s"

definition name_ok :: "string \<Rightarrow> bool" where
  "name_ok s \<longleftrightarrow> length s \<le> 63 \<and> list_all name_char s
     \<and> specials_apart s
     \<and> (s \<noteq> [] \<longrightarrow> is_alnum (hd s) \<and> is_alnum (last s))"

section \<open>Import keys and URIs\<close>

definition BuildImportKeyAndURI :: "string \<Rightarrow> string \<Rightarrow> NormalizerFormat \<Rightarrow> string \<times> string" where
  "BuildImportKeyAndURI seg1 seg2 format =
     (let seg1 = remove_char (CHR '' '') seg1;
          seg2 = remove_char (CHR '' '') seg2;
          fn = (if format = JsonArrayForamt then ''model-catalog.json'' else ''catalog-info.yaml'')
      in (seg1 @ ''_'' @ seg2, ''/'' @ seg1 @ ''/'' @ seg2 @ ''/'' @ fn))"

text \<open>
  The guard and the call both servers make on a key they receive: \<^verbatim>\<open>strings.Split(key, "_")\<close>,
  a bad request if there are fewer than two segments, else the key and URI of the first two.
\<close>

definition rekey :: "NormalizerFormat \<Rightarrow> string \<Rightarrow> (string \<times> string) option" where
  "rekey format key =
     (let segs = go_split (CHR ''_'') key
      in if length segs < 2 then None
         else Some (BuildImportKeyAndURI (segs ! 0) (segs ! 1) format))"

section \<open>Inference services of the model registry\<close>

definition KServeInferenceServiceMapping :: "string \<Rightarrow> string \<Rightarrow> string go_map option \<Rightarrow> bool" where
  "KServeInferenceServiceMapping rId mId isLabels =
     (case isLabels of
        None \<Rightarrow> False
      | Some Labels \<Rightarrow>
          (case map_of Labels INF_SVC_RM_ID_LABEL of
             None \<Rightarrow> False
           | Some rmVal \<Rightarrow>
               if trim_space rId \<noteq> trim_space rmVal then False
               else (case map_of Labels INF_SVC_MV_ID_LABEL of
                       None \<Rightarrow> False
                     | Some mvVal \<Rightarrow> \<not> trim_space mId \<noteq> trim_space mvVal)))"

section \<open>Lemmas on sanitising\<close>

lemma name_char_special: "name_char c \<Longrightarrow> \<not> special_char c \<Longrightarrow> is_alnum c"
  by (auto simp: name_char_def special_char_def)

lemma alnum_not_special [simp]: "is_alnum c \<Longrightarrow> \<not> special_char c"
  by (auto simp: special_char_def is_alnum_def is_lower_def is_upper_def is_digit_def less_eq_char_simp)

lemma set_drop_special_runs: "set (drop_special_runs s) \<subseteq> set s"
proof (induction s rule: drop_special_runs.induct)
  case (2 c cs)
  then show ?case by (auto dest: set_dropWhileD)
qed simp

lemma hd_drop_special_runs:
  "s \<noteq> [] \<Longrightarrow> \<not> special_char (hd s) \<Longrightarrow> drop_special_runs s \<noteq> [] \<and> hd (drop_special_runs s) = hd s"
  by (cases s) auto

lemma specials_apart_simps [simp]:
  "specials_apart []"
  "specials_apart (c # cs) \<longleftrightarrow>
     specials_apart cs \<and> (cs \<noteq> [] \<longrightarrow> \<not> (special_char c \<and> special_char (hd cs)))"
  by (auto simp: specials_apart_def successively_Cons)

lemma specials_apart_infix: "specials_apart (a @ s @ b) \<Longrightarrow> specials_apart s"
  by (auto simp: specials_apart_def successively_append_iff)

lemma specials_apart_take: "specials_apart s \<Longrightarrow> specials_apart (take n s)"
  by (metis append_Nil append_take_drop_id specials_apart_infix)

lemma drop_special_runs_apart:
  "specials_apart (drop_special_runs s)"
proof (induction s rule: drop_special_runs.induct)
  case (2 c cs)
  show ?case
  proof (cases "special_char c \<and> cs \<noteq> [] \<and> special_char (hd cs)")
    case True
    with 2 show ?thesis by simp
  next
    case False
    have "special_char c \<Longrightarrow> cs \<noteq> [] \<Longrightarrow> hd (drop_special_runs cs) = hd cs \<and> \<not> special_char (hd cs)"
      using False hd_drop_special_runs by blast
    moreover have "specials_apart (drop_special_runs cs)"
      using 2 False by simp
    ultimately show ?thesis
      using False by (cases "cs = []") (auto simp: successively_Cons)
  qed
qed simp

lemma drop_special_runs_id:
  "specials_apart s \<Longrightarrow> drop_special_runs s = s"
  by (induction s) auto

lemma SanitizeName_id: "name_ok s \<Longrightarrow> SanitizeName s = s"
proof -
  assume ok: "name_ok s"
  then have "filter name_char s = s"
    by (auto simp: name_ok_def list_all_iff filter_id_conv)
  moreover have "drop_special_runs s = s"
    using ok by (simp add: name_ok_def drop_special_runs_id)
  moreover have "go_trim special_char s = s"
    using ok by (intro go_trim_id) (auto simp: name_ok_def)
  ultimately show ?thesis using ok by (simp add: SanitizeName_def name_ok_def)
qed

lemma SanitizeName_name_ok: "name_ok (SanitizeName name)"
proof -
  define f where "f = filter name_char name"
  define d where "d = drop_special_runs f"
  define t where "t = (if length d > 63 then take 63 d else d)"
  have s: "SanitizeName name = go_trim special_char t"
    by (simp add: SanitizeName_def f_def d_def t_def)
  have "set t \<subseteq> set f"
    using set_drop_special_runs[of f] set_take_subset[of 63 d] by (auto simp: t_def d_def)
  then have chars: "list_all name_char (SanitizeName name)"
    using set_go_trim[of special_char t] by (auto simp: s f_def list_all_iff)
  have "length t \<le> 63" by (simp add: t_def)
  then have len: "length (SanitizeName name) \<le> 63"
    using length_go_trim[of special_char t] by (simp add: s)
  have "specials_apart t"
    by (simp add: t_def d_def drop_special_runs_apart specials_apart_take)
  then have apart: "specials_apart (SanitizeName name)"
    using go_trim_infix[of t special_char] unfolding s by (metis specials_apart_infix)
  have "is_alnum (hd r) \<and> is_alnum (last r)" if "r = SanitizeName name" and "r \<noteq> []" for r
  proof -
    from that chars have "name_char (hd r)" "name_char (last r)" by (simp_all add: list_all_iff)
    moreover have "\<not> special_char (hd r)" "\<not> special_char (last r)"
      using that hd_go_trim[of special_char t] last_go_trim[of special_char t] by (simp_all add: s)
    ultimately show ?thesis by (blast intro: name_char_special)
  qed
  with chars len apart show ?thesis by (simp add: name_ok_def)
qed

text \<open>Nothing is left of a text exactly if it has no letter and no digit.\<close>

lemma filter_alnum_special: "filter is_alnum (dropWhile special_char s) = filter is_alnum s"
  by (induction s) auto

lemma filter_alnum_drop_special_runs: "filter is_alnum (drop_special_runs s) = filter is_alnum s"
proof (induction s rule: drop_special_runs.induct)
  case (2 c cs)
  then show ?case by (auto simp: filter_alnum_special)
qed simp

lemma apart_take_alnum:
  assumes "specials_apart s" and "list_all name_char s" and "filter is_alnum s \<noteq> []" and "2 \<le> n"
  shows "filter is_alnum (take n s) \<noteq> []"
proof (cases s)
  case (Cons c cs)
  obtain m where n: "n = Suc (Suc m)" using assms(4) by (metis add_2_eq_Suc le_Suc_ex)
  show ?thesis
  proof (cases "is_alnum c")
    case True
    with Cons n show ?thesis by simp
  next
    case False
    with Cons assms(2) have "special_char c" by (auto simp: name_char_def special_char_def)
    moreover obtain d ds where "cs = d # ds" using assms(3) Cons False by (cases cs) auto
    ultimately have "is_alnum d"
      using assms(1,2) Cons by (auto simp: name_char_def special_char_def)
    with Cons n \<open>cs = d # ds\<close> show ?thesis by simp
  qed
qed (use assms(3) in simp)

lemma go_trim_Nil_iff: "go_trim p s = [] \<longleftrightarrow> list_all p s"
proof (cases "dropWhile p s")
  case Nil
  then show ?thesis by (auto simp: go_trim_def list_all_iff dest: set_dropWhileD)
next
  case (Cons a r)
  then have "a \<in> set s" "\<not> p a"
    using hd_dropWhile [of p s] set_dropWhileD [of a p s] by auto
  with Cons show ?thesis
    by (auto simp: go_trim_def list_all_iff dest: set_dropWhileD)
qed

lemma SanitizeName_Nil_iff: "SanitizeName name = [] \<longleftrightarrow> filter is_alnum name = []"
proof -
  define d where "d = drop_special_runs (filter name_char name)"
  define t where t: "t = (if length d > 63 then take 63 d else d)"
  have d: "specials_apart d" "list_all name_char d"
    using set_drop_special_runs [of "filter name_char name"]
    by (auto simp: d_def drop_special_runs_apart list_all_iff)
  have "filter is_alnum d = filter is_alnum name"
    by (auto simp: d_def filter_alnum_drop_special_runs name_char_def intro: filter_cong)
  moreover have "filter is_alnum t = [] \<longleftrightarrow> filter is_alnum d = []"
    using apart_take_alnum [OF d, of 63] set_take_subset [of 63 d]
    by (auto simp: t filter_empty_conv dest: subsetD)
  moreover have "list_all special_char t \<longleftrightarrow> filter is_alnum t = []"
  proof -
    have "\<forall>c \<in> set t. name_char c"
      using d(2) set_take_subset [of 63 d] by (auto simp: t list_all_iff)
    then show ?thesis
      using name_char_special by (auto simp: list_all_iff filter_empty_conv)
  qed
  ultimately show ?thesis
    unfolding SanitizeName_def Let_def d_def [symmetric] t [symmetric] go_trim_Nil_iff by simp
qed

lemma lower_char_alnum: "is_alnum c \<Longrightarrow> is_alnum (lower_char c) \<and> \<not> is_upper (lower_char c)"
proof (cases "is_upper c")
  case True
  have "\<forall>c \<in> set (map char_of [65..<91::nat]). is_lower (lower_char c) \<and> \<not> is_upper (lower_char c)"
    by code_simp
  moreover from True have "c \<in> set (map char_of [65..<91::nat])"
  proof -
    have "65 \<le> (of_char c :: nat)" "(of_char c :: nat) \<le> 90"
      using True by (auto simp: is_upper_def less_eq_char_def)
    then have "of_char c \<in> {65..<91::nat}" by simp
    then show ?thesis
      unfolding set_map set_upt by (rule image_eqI[rotated]) simp
  qed
  ultimately show ?thesis by (auto simp: is_alnum_def)
next
  case False
  moreover assume "is_alnum c"
  ultimately show ?thesis by (simp add: lower_char_def)
qed

lemma lower_char_special: "special_char c \<Longrightarrow> lower_char c = c"
  by (auto simp: special_char_def lower_char_def is_upper_def less_eq_char_simp)

lemma name_ok_to_lower: "name_ok s \<Longrightarrow> name_ok (to_lower s) \<and> list_all (\<lambda>c. \<not> is_upper c) (to_lower s)"
proof -
  assume ok: "name_ok s"
  have lc: "name_char c \<Longrightarrow> name_char (lower_char c) \<and> special_char (lower_char c) = special_char c
      \<and> \<not> is_upper (lower_char c)" for c
  proof (cases "is_alnum c")
    case True
    then show ?thesis using lower_char_alnum[OF True] by (simp add: name_char_def)
  next
    case False
    moreover assume "name_char c"
    ultimately have "special_char c" using name_char_special by blast
    then show ?thesis
      using \<open>name_char c\<close> False by (simp add: lower_char_special is_alnum_def)
  qed
  have "specials_apart (map lower_char s)"
    using ok lc unfolding name_ok_def specials_apart_def
    by (auto simp: successively_map list_all_iff elim!: successively_mono)
  then show ?thesis
    using ok lc lower_char_alnum
    by (auto simp: name_ok_def to_lower_def list_all_iff hd_map last_map)
qed

lemma replace_char_absent: "c \<notin> set s \<Longrightarrow> replace_char c r s = s"
  unfolding replace_char_def by (induction s) auto

lemma name_ok_no_space: "name_ok s \<Longrightarrow> CHR '' '' \<notin> set s"
  by (auto simp: name_ok_def list_all_iff name_char_def is_alnum_def is_lower_def is_upper_def
      is_digit_def less_eq_char_simp)

lemma to_lower_id: "list_all (\<lambda>c. \<not> is_upper c) s \<Longrightarrow> to_lower s = s"
  by (induction s) (auto simp: to_lower_def lower_char_def)

section \<open>Lemmas on keys\<close>

lemma fst_BuildImportKeyAndURI:
  "fst (BuildImportKeyAndURI a b fmt) = remove_char (CHR '' '') a @ ''_'' @ remove_char (CHR '' '') b"
  by (simp add: BuildImportKeyAndURI_def Let_def)

lemma Build_remove_spaces [simp]:
  "BuildImportKeyAndURI (remove_char (CHR '' '') a) (remove_char (CHR '' '') b) fmt
     = BuildImportKeyAndURI a b fmt"
  by (simp add: BuildImportKeyAndURI_def)

lemma rekey_two:
  assumes "CHR ''_'' \<notin> set a"
  shows "rekey fmt (a @ CHR ''_'' # t) = Some (BuildImportKeyAndURI a (hd (go_split (CHR ''_'') t)) fmt)"
proof -
  have "go_split (CHR ''_'') (a @ CHR ''_'' # t) = a # go_split (CHR ''_'') t"
    using assms by (rule go_split_append)
  then show ?thesis
    by (cases "go_split (CHR ''_'') t") (auto simp: rekey_def)
qed

lemma rekey_Build:
  "CHR ''_'' \<notin> set a \<Longrightarrow> CHR ''_'' \<notin> set b \<Longrightarrow>
   rekey fmt (fst (BuildImportKeyAndURI a b fmt')) = Some (BuildImportKeyAndURI a b fmt)"
  by (simp add: fst_BuildImportKeyAndURI rekey_two go_split_no_sep)

text \<open>The key a service uses is a fixed point: the other service computes the same from it.\<close>

lemma rekey_rekey: "rekey fmt key = Some (k, uri) \<Longrightarrow> rekey fmt k = Some (k, uri)"
proof -
  assume r: "rekey fmt key = Some (k, uri)"
  let ?segs = "go_split (CHR ''_'') key"
  from r have len: "\<not> length ?segs < 2" and b: "BuildImportKeyAndURI (?segs ! 0) (?segs ! 1) fmt = (k, uri)"
    by (auto simp: rekey_def Let_def split: if_splits)
  have "?segs ! 0 \<in> set ?segs" "?segs ! 1 \<in> set ?segs" using len by (simp_all del: One_nat_def)
  then have "CHR ''_'' \<notin> set (?segs ! 0)" "CHR ''_'' \<notin> set (?segs ! 1)"
    by (blast dest: go_split_fields_no_sep)+
  from rekey_Build [OF this, of fmt fmt] b show ?thesis by simp
qed

lemma rekey_None_iff: "rekey fmt key = None \<longleftrightarrow> CHR ''_'' \<notin> set key"
proof (cases "CHR ''_'' \<in> set key")
  case True
  then obtain a t where "key = a @ CHR ''_'' # t" "CHR ''_'' \<notin> set a"
    by (meson split_list_first)
  then show ?thesis by (simp add: rekey_two)
next
  case False
  then show ?thesis by (simp add: rekey_def go_split_no_sep)
qed

section \<open>Properties\<close>

text \<open>
  C1. \<open>SanitizeName\<close> turns any text into a valid entity name: at most 63 bytes, only letters,
  digits, dashes and underscores, no two special characters side by side, a letter or digit at
  both ends; or into nothing at all, exactly if the text has no letter and no digit.  Sanitising a
  second time changes nothing, and the texts that are left as they are are exactly the valid names
  (and the empty text).
\<close>

theorem SanitizeName_sound:
  "name_ok (SanitizeName name) \<and> SanitizeName (SanitizeName name) = SanitizeName name
   \<and> (SanitizeName name = [] \<longleftrightarrow> filter is_alnum name = [])
   \<and> (SanitizeName name = name \<longleftrightarrow> name_ok name)"
  by (metis SanitizeName_name_ok SanitizeName_id SanitizeName_Nil_iff)

text \<open>
  \<open>SanitizeModelVersion\<close> yields a valid entity name without upper-case letters and is
  idempotent.
\<close>

theorem SanitizeModelVersion_sound:
  "name_ok (SanitizeModelVersion mv)
   \<and> list_all (\<lambda>c. \<not> is_upper c) (SanitizeModelVersion mv)
   \<and> SanitizeModelVersion (SanitizeModelVersion mv) = SanitizeModelVersion mv"
proof -
  let ?s = "SanitizeModelVersion mv"
  have ok: "name_ok ?s \<and> list_all (\<lambda>c. \<not> is_upper c) ?s"
    unfolding SanitizeModelVersion_def Let_def by (rule name_ok_to_lower) (rule SanitizeName_name_ok)
  then have "to_lower ?s = ?s" "replace_char (CHR '' '') ''-'' ?s = ?s" "SanitizeName ?s = ?s"
    by (simp_all add: to_lower_id replace_char_absent name_ok_no_space SanitizeName_id)
  then have "SanitizeModelVersion ?s = ?s"
    by (simp add: SanitizeModelVersion_def [of ?s] Let_def)
  with ok show ?thesis by blast
qed

text \<open>
  C3. For a model and a version whose names have no underscore, the storage and the location
  service recover from the import key the very key and URI the normaliser built it from.
\<close>

theorem rekey_BuildImportKey:
  assumes "CHR ''_'' \<notin> set a" and "CHR ''_'' \<notin> set b"
  shows "rekey fmt (fst (BuildImportKeyAndURI a b fmt')) = Some (BuildImportKeyAndURI a b fmt)"
  using assms by (rule rekey_Build)

theorem rekey_BuildImportKey_witness:
  "rekey JsonArrayForamt (fst (BuildImportKeyAndURI ''mnist'' ''v1'' CatalogInfoYamlFormat))
     = Some (''mnist_v1'', ''/mnist/v1/model-catalog.json'')"
  using rekey_BuildImportKey [of "''mnist''" "''v1''" JsonArrayForamt CatalogInfoYamlFormat]
  by (simp add: BuildImportKeyAndURI_def JsonArrayForamt_def remove_char_def)

text \<open>
  C4. An underscore in a model name, which \<open>SanitizeName\<close> lets through, breaks the key: the
  receiving service cuts the model name at the underscore and forgets the version, so all
  versions of the model share one key and URI, and that key is not the one that was sent.
\<close>

theorem rekey_underscore_collision:
  assumes "CHR ''_'' \<notin> set a" and "CHR ''_'' \<notin> set m"
  shows "rekey fmt (fst (BuildImportKeyAndURI (a @ ''_'' @ m) v fmt')) = Some (BuildImportKeyAndURI a m fmt)
    \<and> fst (BuildImportKeyAndURI (a @ ''_'' @ m) v fmt') \<noteq> fst (BuildImportKeyAndURI a m fmt)"
proof -
  have key: "fst (BuildImportKeyAndURI (a @ ''_'' @ m) v fmt')
      = remove_char (CHR '' '') a @ CHR ''_'' # (remove_char (CHR '' '') m @ CHR ''_'' # remove_char (CHR '' '') v)"
    by (simp add: fst_BuildImportKeyAndURI remove_char_def)
  have "go_split (CHR ''_'') (remove_char (CHR '' '') m @ CHR ''_'' # remove_char (CHR '' '') v)
      = remove_char (CHR '' '') m # go_split (CHR ''_'') (remove_char (CHR '' '') v)"
    using assms by (intro go_split_append) simp
  then have "rekey fmt (fst (BuildImportKeyAndURI (a @ ''_'' @ m) v fmt')) = Some (BuildImportKeyAndURI a m fmt)"
    unfolding key using assms by (subst rekey_two) simp_all
  moreover have "fst (BuildImportKeyAndURI (a @ ''_'' @ m) v fmt') \<noteq> fst (BuildImportKeyAndURI a m fmt)"
    unfolding key by (simp add: fst_BuildImportKeyAndURI)
  ultimately show ?thesis ..
qed

theorem rekey_underscore_collision_witness:
  "rekey JsonArrayForamt ''my_model_v1'' = rekey JsonArrayForamt ''my_model_v2''
   \<and> rekey JsonArrayForamt ''my_model_v1'' = Some (''my_model'', ''/my/model/model-catalog.json'')
   \<and> SanitizeName ''my_model'' = ''my_model''"
proof -
  have "SanitizeName ''my_model'' = ''my_model''" by code_simp
  then show ?thesis
    using rekey_underscore_collision [of "''my''" "''model''" JsonArrayForamt "''v1''" JsonArrayForamt]
      rekey_underscore_collision [of "''my''" "''model''" JsonArrayForamt "''v2''" JsonArrayForamt]
    by (simp add: BuildImportKeyAndURI_def JsonArrayForamt_def remove_char_def)
qed

end
