(* ===== verification/Wire.thy ===== *)
theory Wire
  imports Names
begin

text \<open>
  The data the services exchange: JSON documents, the structs \<^verbatim>\<open>StorageBody\<close>
  (\<^verbatim>\<open>pkg/types/storage.go\<close>) and \<^verbatim>\<open>PostBody\<close> (\<^verbatim>\<open>pkg/rest/http.go\<close>) with their marshalling, and
  HTTP requests and responses.

  JSON text is represented by its parse: a \<open>json_text\<close> is the document's tree, or \<open>None\<close> for
  text that is not JSON.  Strings are taken to be valid UTF-8 (\<^verbatim>\<open>encoding/json\<close> replaces other
  bytes).  A Go \<^verbatim>\<open>[]byte\<close> is an optional string, \<open>None\<close> for nil: JSON tells nil (\<^verbatim>\<open>null\<close>) from
  empty (\<^verbatim>\<open>""\<close>), and the location service gives nil a meaning of its own.
\<close>

section \<open>JSON documents\<close>

datatype json =
    JNull
  | JBool bool
  | JNum int
  | JStr string
  | JArr "json list"
  | JObj "(string \<times> json) list"

type_synonym json_text = "json option"
type_synonym bytes = "string option"

section \<open>Base64\<close>

text \<open>The standard encoding with padding, which \<^verbatim>\<open>encoding/json\<close> uses for \<^verbatim>\<open>[]byte\<close>.\<close>

definition b64_alphabet :: string where
  "b64_alphabet = ''ABCDEFGHIJKLMNOPQRSTUVWXYZabcdefghijklmnopqrstuvwxyz0123456789+/''"

definition b64_char :: "nat \<Rightarrow> char" where
  "b64_char n = b64_alphabet ! n"

definition b64_value :: "char \<Rightarrow> nat option" where
  "b64_value c =
     (let i = length (takeWhile (\<lambda>d. d \<noteq> c) b64_alphabet)
      in if i < 64 then Some i else None)"

definition ocode :: "char \<Rightarrow> nat" where
  "ocode c = of_char c"

fun b64_encode :: "string \<Rightarrow> string" where
  "b64_encode [] = []"
| "b64_encode [a] =
     [b64_char (ocode a div 4), b64_char (ocode a mod 4 * 16), CHR ''='', CHR ''='']"
| "b64_encode [a, b] =
     [b64_char (ocode a div 4), b64_char (ocode a mod 4 * 16 + ocode b div 16),
      b64_char (ocode b mod 16 * 4), CHR ''='']"
| "b64_encode (a # b # c # r) =
     b64_char (ocode a div 4) # b64_char (ocode a mod 4 * 16 + ocode b div 16)
       # b64_char (ocode b mod 16 * 4 + ocode c div 64) # b64_char (ocode c mod 64) # b64_encode r"

fun b64_groups :: "string \<Rightarrow> string option" where
  "b64_groups [] = Some []"
| "b64_groups (w # x # y # z # r) =
     (case (b64_value w, b64_value x) of
        (Some i, Some j) \<Rightarrow>
          let c1 = char_of (i * 4 + j div 16)
          in if y = CHR ''='' \<and> z = CHR ''='' then (if r = [] then Some [c1] else None)
             else (case b64_value y of
                     None \<Rightarrow> None
                   | Some k \<Rightarrow>
                       let c2 = char_of (j mod 16 * 16 + k div 4)
                       in if z = CHR ''='' then (if r = [] then Some [c1, c2] else None)
                          else (case b64_value z of
                                  None \<Rightarrow> None
                                | Some l \<Rightarrow>
                                    map_option (\<lambda>t. c1 # c2 # char_of (k mod 4 * 64 + l) # t) (b64_groups r)))
      | _ \<Rightarrow> None)"
| "b64_groups _ = None"

text \<open>Go's decoder skips carriage returns and line feeds.\<close>

definition b64_decode :: "string \<Rightarrow> string option" where
  "b64_decode s = b64_groups (filter (\<lambda>c. c \<noteq> CHR 0x0A \<and> c \<noteq> CHR 0x0D) s)"

section \<open>json.Unmarshal into a struct\<close>

text \<open>
  A member whose name matches a field (case folded) is decoded into it; a value of the wrong
  type leaves the field alone and is remembered as the error to return, the first one winning;
  the other members are still decoded.  \<^verbatim>\<open>null\<close> leaves a string or a bool alone and makes a
  slice nil.
\<close>

definition type_error :: go_error where
  "type_error = Some ''json: cannot unmarshal''"

definition first_error :: "go_error \<Rightarrow> go_error \<Rightarrow> go_error" where
  "first_error e e' = (case e of None \<Rightarrow> e' | Some m \<Rightarrow> Some m)"

fun decode_string :: "(string \<Rightarrow> 'r \<Rightarrow> 'r) \<Rightarrow> json \<Rightarrow> 'r \<Rightarrow> 'r \<times> go_error" where
  "decode_string upd (JStr s) r = (upd s r, None)"
| "decode_string upd JNull r = (r, None)"
| "decode_string upd _ r = (r, type_error)"

fun decode_bool :: "(bool \<Rightarrow> 'r \<Rightarrow> 'r) \<Rightarrow> json \<Rightarrow> 'r \<Rightarrow> 'r \<times> go_error" where
  "decode_bool upd (JBool b) r = (upd b r, None)"
| "decode_bool upd JNull r = (r, None)"
| "decode_bool upd _ r = (r, type_error)"

fun decode_byte :: "json \<Rightarrow> char \<times> go_error" where
  "decode_byte (JNum n) = (if 0 \<le> n \<and> n < 256 then (char_of (nat n), None) else (CHR 0x00, type_error))"
| "decode_byte JNull = (CHR 0x00, None)"
| "decode_byte _ = (CHR 0x00, type_error)"

fun decode_bytes :: "(bytes \<Rightarrow> 'r \<Rightarrow> 'r) \<Rightarrow> json \<Rightarrow> 'r \<Rightarrow> 'r \<times> go_error" where
  "decode_bytes upd (JStr s) r =
     (case b64_decode s of None \<Rightarrow> (r, Some ''illegal base64 data'') | Some b \<Rightarrow> (upd (Some b) r, None))"
| "decode_bytes upd JNull r = (upd None r, None)"
| "decode_bytes upd (JArr js) r =
     (upd (Some (map (fst \<circ> decode_byte) js)) r,
      foldl (\<lambda>e j. first_error e (snd (decode_byte j))) None js)"
| "decode_bytes upd _ r = (r, type_error)"

fun unmarshal_members ::
    "(string \<Rightarrow> json \<Rightarrow> 'r \<Rightarrow> 'r \<times> go_error) \<Rightarrow> json go_map \<Rightarrow> 'r \<times> go_error \<Rightarrow> 'r \<times> go_error" where
  "unmarshal_members field [] acc = acc"
| "unmarshal_members field ((k, v) # ms) (r, e) =
     (case field k v r of (r', e') \<Rightarrow> unmarshal_members field ms (r', first_error e e'))"

definition json_unmarshal ::
    "(string \<Rightarrow> json \<Rightarrow> 'r \<Rightarrow> 'r \<times> go_error) \<Rightarrow> json_text \<Rightarrow> 'r \<Rightarrow> 'r \<times> go_error" where
  "json_unmarshal field t r =
     (case t of
        None \<Rightarrow> (r, Some ''invalid character'')
      | Some j \<Rightarrow>
          (case j of
             JObj ms \<Rightarrow> unmarshal_members field ms (r, None)
           | JNull \<Rightarrow> (r, None)
           | _ \<Rightarrow> (r, type_error)))"

section \<open>StorageBody and PostBody\<close>

record StorageBody =
  sb_Body :: bytes
  sb_LocationId :: string
  sb_LocationTarget :: string
  sb_LocationIDValid :: bool
  sb_ReconcilerType :: string
  sb_LastUpdateTimeSinceEpoch :: string

definition StorageBody_zero :: StorageBody where
  "StorageBody_zero = \<lparr>sb_Body = None, sb_LocationId = '''', sb_LocationTarget = '''',
     sb_LocationIDValid = False, sb_ReconcilerType = '''', sb_LastUpdateTimeSinceEpoch = ''''\<rparr>"

definition json_of_bytes :: "bytes \<Rightarrow> json" where
  "json_of_bytes b = (case b of None \<Rightarrow> JNull | Some s \<Rightarrow> JStr (b64_encode s))"

definition marshal_StorageBody :: "StorageBody \<Rightarrow> json" where
  "marshal_StorageBody sb = JObj
     [(''body'', json_of_bytes (sb_Body sb)),
      (''locationId'', JStr (sb_LocationId sb)),
      (''locationTarget'', JStr (sb_LocationTarget sb)),
      (''locationIDValid'', JBool (sb_LocationIDValid sb)),
      (''reconcilerType'', JStr (sb_ReconcilerType sb)),
      (''lastUpdateTimeSinceEpoch'', JStr (sb_LastUpdateTimeSinceEpoch sb))]"

definition StorageBody_field :: "string \<Rightarrow> json \<Rightarrow> StorageBody \<Rightarrow> StorageBody \<times> go_error" where
  "StorageBody_field k v r =
     (if equal_fold k ''body'' then decode_bytes (\<lambda>x. sb_Body_update (\<lambda>_. x)) v r
      else if equal_fold k ''locationId'' then decode_string (\<lambda>x. sb_LocationId_update (\<lambda>_. x)) v r
      else if equal_fold k ''locationTarget'' then decode_string (\<lambda>x. sb_LocationTarget_update (\<lambda>_. x)) v r
      else if equal_fold k ''locationIDValid'' then decode_bool (\<lambda>x. sb_LocationIDValid_update (\<lambda>_. x)) v r
      else if equal_fold k ''reconcilerType'' then decode_string (\<lambda>x. sb_ReconcilerType_update (\<lambda>_. x)) v r
      else if equal_fold k ''lastUpdateTimeSinceEpoch''
        then decode_string (\<lambda>x. sb_LastUpdateTimeSinceEpoch_update (\<lambda>_. x)) v r
      else (r, None))"

definition unmarshal_StorageBody :: "json_text \<Rightarrow> StorageBody \<times> go_error" where
  "unmarshal_StorageBody t = json_unmarshal StorageBody_field t StorageBody_zero"

record PostBody =
  pb_Body :: bytes
  pb_LastUpdateTimeSinceEpoch :: string
  pb_ModelCardKey :: string
  pb_ModelCard :: string

definition PostBody_zero :: PostBody where
  "PostBody_zero = \<lparr>pb_Body = None, pb_LastUpdateTimeSinceEpoch = '''', pb_ModelCardKey = '''',
     pb_ModelCard = ''''\<rparr>"

definition marshal_PostBody :: "PostBody \<Rightarrow> json" where
  "marshal_PostBody pb = JObj
     [(''body'', json_of_bytes (pb_Body pb)),
      (''lastUpdateTimeSinceEpoch'', JStr (pb_LastUpdateTimeSinceEpoch pb)),
      (''modelCardKey'', JStr (pb_ModelCardKey pb)),
      (''modelCard'', JStr (pb_ModelCard pb))]"

definition PostBody_field :: "string \<Rightarrow> json \<Rightarrow> PostBody \<Rightarrow> PostBody \<times> go_error" where
  "PostBody_field k v r =
     (if equal_fold k ''body'' then decode_bytes (\<lambda>x. pb_Body_update (\<lambda>_. x)) v r
      else if equal_fold k ''lastUpdateTimeSinceEpoch''
        then decode_string (\<lambda>x. pb_LastUpdateTimeSinceEpoch_update (\<lambda>_. x)) v r
      else if equal_fold k ''modelCardKey'' then decode_string (\<lambda>x. pb_ModelCardKey_update (\<lambda>_. x)) v r
      else if equal_fold k ''modelCard'' then decode_string (\<lambda>x. pb_ModelCard_update (\<lambda>_. x)) v r
      else (r, None))"

definition unmarshal_PostBody :: "json_text \<Rightarrow> PostBody \<times> go_error" where
  "unmarshal_PostBody t = json_unmarshal PostBody_field t PostBody_zero"

section \<open>HTTP\<close>

datatype http_method = GET | POST | DELETE

datatype payload = NoPayload | JsonPayload json_text | RawPayload string

record http_request =
  rq_method :: http_method
  rq_url :: string
  rq_query :: "string go_map"
  rq_token :: string
  rq_body :: payload

record http_response =
  rs_status :: nat
  rs_body :: payload

text \<open>
  A client's view of the network: it takes a request and a world to an error or a response and a
  new world.
\<close>

type_synonym 'w transport = "http_request \<Rightarrow> 'w \<Rightarrow> (string + http_response) \<times> 'w"

text \<open>
  What a gin handler leaves in its context: the status (the last \<^verbatim>\<open>c.Status\<close> before the end of
  the handler), the errors in the order of the \<^verbatim>\<open>c.Error\<close> calls, the data of \<^verbatim>\<open>c.Data\<close>.  A
  message that quotes a Go-syntax dump of a value (\<^verbatim>\<open>%#v\<close>) is given up to the dump.
\<close>

datatype handler_error = Errorf string | ErrorfDump string

record gin_result =
  gr_status :: nat
  gr_errors :: "handler_error list"
  gr_data :: payload

definition gin_status :: "nat \<Rightarrow> gin_result" where
  "gin_status c = \<lparr>gr_status = c, gr_errors = [], gr_data = NoPayload\<rparr>"

definition gin_error :: "nat \<Rightarrow> handler_error list \<Rightarrow> gin_result" where
  "gin_error c es = \<lparr>gr_status = c, gr_errors = es, gr_data = NoPayload\<rparr>"

definition gin_data :: "nat \<Rightarrow> payload \<Rightarrow> gin_result" where
  "gin_data c d = \<lparr>gr_status = c, gr_errors = [], gr_data = d\<rparr>"

definition gin_response :: "gin_result \<Rightarrow> http_response" where
  "gin_response g = \<lparr>rs_status = gr_status g, rs_body = gr_data g\<rparr>"

text \<open>\<^verbatim>\<open>c.Query\<close>: the first value of the parameter, or the empty string.\<close>

definition gin_Query :: "http_request \<Rightarrow> string \<Rightarrow> string" where
  "gin_Query rq k = (case map_of (rq_query rq) k of None \<Rightarrow> '''' | Some v \<Rightarrow> v)"

definition StatusOK :: nat where "StatusOK = 200"
definition StatusCreated :: nat where "StatusCreated = 201"
definition StatusNotModified :: nat where "StatusNotModified = 304"
definition StatusBadRequest :: nat where "StatusBadRequest = 400"
definition StatusNotFound :: nat where "StatusNotFound = 404"
definition StatusInternalServerError :: nat where "StatusInternalServerError = 500"

lemmas status_defs = StatusOK_def StatusCreated_def StatusNotModified_def StatusBadRequest_def
  StatusNotFound_def StatusInternalServerError_def

lemmas gin_defs = gin_status_def gin_error_def gin_data_def gin_response_def

text \<open>\<^verbatim>\<open>c.BindJSON(&postBody)\<close>: the decoded body and the error.\<close>

definition gin_BindJSON :: "http_request \<Rightarrow> PostBody \<times> go_error" where
  "gin_BindJSON rq =
     (case rq_body rq of
        JsonPayload t \<Rightarrow> unmarshal_PostBody t
      | NoPayload \<Rightarrow> (PostBody_zero, Some ''EOF'')
      | RawPayload s \<Rightarrow> (PostBody_zero, Some ''invalid character''))"

section \<open>Base64 round trip\<close>

lemma b64_value_char: "n < 64 \<Longrightarrow> b64_value (b64_char n) = Some n"
proof -
  have "\<forall>n \<in> set [0..<64]. b64_value (b64_char n) = Some n" by code_simp
  then show "n < 64 \<Longrightarrow> b64_value (b64_char n) = Some n" by simp
qed

lemma b64_char_plain: "n < 64 \<Longrightarrow> b64_char n \<noteq> CHR ''='' \<and> b64_char n \<noteq> CHR 0x0A \<and> b64_char n \<noteq> CHR 0x0D"
proof -
  have "\<forall>n \<in> set [0..<64]. b64_char n \<noteq> CHR ''='' \<and> b64_char n \<noteq> CHR 0x0A \<and> b64_char n \<noteq> CHR 0x0D"
    by code_simp
  then show "n < 64 \<Longrightarrow> b64_char n \<noteq> CHR ''='' \<and> b64_char n \<noteq> CHR 0x0A \<and> b64_char n \<noteq> CHR 0x0D" by simp
qed

lemma ocode_lt: "ocode c < 256"
  using nat_of_char_less_256 [of c] by (simp add: ocode_def)

lemma char_of_ocode [simp]: "char_of (ocode c) = c"
  by (simp add: ocode_def)

lemma ocode_div_lt: "ocode a div 4 < 64" "ocode a div 16 < 16" "ocode a div 64 < 4"
  using ocode_lt [of a] by (simp_all add: less_mult_imp_div_less)

lemma ocode_div_div: "ocode a div 16 div 16 = 0" "ocode a div 64 div 4 = 0"
  using ocode_lt [of a] by (simp_all add: div_mult2_eq [symmetric])

lemma b64_digit_lt:
  "ocode a div 4 < 64" "ocode a mod 4 * 16 + ocode b div 16 < 64" "ocode a mod 4 * 16 < 64"
  "ocode b mod 16 * 4 + ocode c div 64 < 64" "ocode b mod 16 * 4 < 64" "ocode c mod 64 < 64"
proof -
  have m: "ocode a mod 4 \<le> 3" "ocode b mod 16 \<le> 15"
    using mod_less_divisor [of 4 "ocode a"] mod_less_divisor [of 16 "ocode b"] by linarith+
  note d = ocode_div_lt(1) [of a] ocode_div_lt(2) [of b] ocode_div_lt(3) [of c]
  show "ocode a div 4 < 64" "ocode c mod 64 < 64" using d by simp_all
  show "ocode a mod 4 * 16 + ocode b div 16 < 64" "ocode a mod 4 * 16 < 64"
    "ocode b mod 16 * 4 + ocode c div 64 < 64" "ocode b mod 16 * 4 < 64"
    using m d by linarith+
qed

lemma b64_digit_parts:
  "(ocode a mod 4 * 16 + ocode b div 16) div 16 = ocode a mod 4"
  "(ocode a mod 4 * 16 + ocode b div 16) mod 16 = ocode b div 16"
  "(ocode b mod 16 * 4 + ocode c div 64) div 4 = ocode b mod 16"
  "(ocode b mod 16 * 4 + ocode c div 64) mod 4 = ocode c div 64"
  using ocode_div_div [of b] ocode_div_div [of c] ocode_div_lt [of b] ocode_div_lt [of c]
  by (simp_all only: div_mult_self3 mod_mult_self3 mod_less add_0_right)

lemma b64_byte1: "(ocode a div 4) * 4 + (ocode a mod 4 * 16 + ocode b div 16) div 16 = ocode a"
  and b64_byte1': "(ocode a div 4) * 4 + (ocode a mod 4 * 16) div 16 = ocode a"
  and b64_byte2: "(ocode a mod 4 * 16 + ocode b div 16) mod 16 * 16 + (ocode b mod 16 * 4 + ocode c div 64) div 4 = ocode b"
  and b64_byte2': "(ocode a mod 4 * 16 + ocode b div 16) mod 16 * 16 + (ocode b mod 16 * 4) div 4 = ocode b"
  and b64_byte3: "(ocode b mod 16 * 4 + ocode c div 64) mod 4 * 64 + ocode c mod 64 = ocode c"
  unfolding b64_digit_parts by simp_all

lemma b64_groups_full:
  assumes "i < 64" "j < 64" "k < 64" "l < 64"
  shows "b64_groups (b64_char i # b64_char j # b64_char k # b64_char l # r)
    = map_option (\<lambda>t. char_of (i * 4 + j div 16) # char_of (j mod 16 * 16 + k div 4)
        # char_of (k mod 4 * 64 + l) # t) (b64_groups r)"
  using assms by (simp add: b64_value_char b64_char_plain)

lemma b64_groups_pad1:
  assumes "i < 64" "j < 64" "k < 64"
  shows "b64_groups [b64_char i, b64_char j, b64_char k, CHR ''='']
    = Some [char_of (i * 4 + j div 16), char_of (j mod 16 * 16 + k div 4)]"
  using assms by (simp add: b64_value_char b64_char_plain)

lemma b64_groups_pad2:
  assumes "i < 64" "j < 64"
  shows "b64_groups [b64_char i, b64_char j, CHR ''='', CHR ''=''] = Some [char_of (i * 4 + j div 16)]"
  using assms by (simp add: b64_value_char)

lemma b64_groups_encode: "b64_groups (b64_encode s) = Some s"
proof (induction s rule: b64_encode.induct)
  case (2 a)
  show ?case
    by (simp only: b64_encode.simps b64_groups_pad2 b64_digit_lt b64_byte1' char_of_ocode)
next
  case (3 a b)
  show ?case
    by (simp only: b64_encode.simps b64_groups_pad1 b64_digit_lt b64_byte1 b64_byte2' char_of_ocode)
next
  case (4 a b c r)
  then show ?case
    by (simp only: b64_encode.simps b64_groups_full b64_digit_lt b64_byte1 b64_byte2 b64_byte3
        char_of_ocode option.map)
qed simp

definition plain_char :: "char \<Rightarrow> bool" where
  "plain_char c \<longleftrightarrow> c \<noteq> CHR 0x0A \<and> c \<noteq> CHR 0x0D"

lemma plain_b64_char: "n < 64 \<Longrightarrow> plain_char (b64_char n)"
  by (simp add: plain_char_def b64_char_plain)

lemma b64_encode_plain: "list_all plain_char (b64_encode s)"
proof -
  have pad: "plain_char (CHR ''='')" by (simp add: plain_char_def)
  show ?thesis
    by (induction s rule: b64_encode.induct)
      (simp_all only: b64_encode.simps list.pred_inject plain_b64_char b64_digit_lt pad simp_thms)
qed

lemma b64_decode_encode [simp]: "b64_decode (b64_encode s) = Some s"
proof -
  have "filter plain_char (b64_encode s) = b64_encode s"
    using b64_encode_plain by (simp add: filter_id_conv list_all_iff)
  then show ?thesis by (simp add: b64_decode_def plain_char_def [abs_def] b64_groups_encode)
qed

section \<open>Marshalling round trips\<close>

lemma decode_bytes_json [simp]: "decode_bytes upd (json_of_bytes b) r = (upd b r, None)"
  by (cases b) (simp_all add: json_of_bytes_def)

lemma fold_names:
  "to_lower ''body'' = ''body''" "to_lower ''locationId'' = ''locationid''"
  "to_lower ''locationTarget'' = ''locationtarget''" "to_lower ''locationIDValid'' = ''locationidvalid''"
  "to_lower ''reconcilerType'' = ''reconcilertype''"
  "to_lower ''lastUpdateTimeSinceEpoch'' = ''lastupdatetimesinceepoch''"
  "to_lower ''modelCardKey'' = ''modelcardkey''" "to_lower ''modelCard'' = ''modelcard''"
  by code_simp+

lemma unmarshal_marshal_PostBody [simp]:
  "unmarshal_PostBody (Some (marshal_PostBody pb)) = (pb, None)"
  by (simp add: unmarshal_PostBody_def marshal_PostBody_def json_unmarshal_def PostBody_field_def
      PostBody_zero_def equal_fold_def fold_names first_error_def)

lemma unmarshal_StorageBody_of [simp]:
  "unmarshal_StorageBody (Some (marshal_StorageBody sb)) = (sb, None)"
  by (simp add: unmarshal_StorageBody_def marshal_StorageBody_def json_unmarshal_def
      StorageBody_field_def StorageBody_zero_def equal_fold_def fold_names first_error_def)

text \<open>
  C5. A \<open>StorageBody\<close> survives storage: unmarshalling what was marshalled gives the same
  record without an error, the body byte for byte through base64, a nil body staying nil.
\<close>

theorem unmarshal_marshal_StorageBody:
  "unmarshal_StorageBody (Some (marshal_StorageBody sb)) = (sb, None)"
  by (rule unmarshal_StorageBody_of)

end
