(* ===== verification/Backstage.thy ===== *)
theory Backstage
  imports Wire
begin

text \<open>
  The Backstage catalog as the storage service sees it: the interface \<^verbatim>\<open>BackstageImport\<close> and
  \<^verbatim>\<open>ParseImportLocationMap\<close> of \<^verbatim>\<open>pkg/rest/backstage.go\<close>, and the REST client that implements the
  interface, \<^verbatim>\<open>rest.go\<close> and \<^verbatim>\<open>locations.go\<close> of \<^verbatim>\<open>pkg/cmd/cli/backstage\<close>.

  A \<^verbatim>\<open>map[string]any\<close> is an association list of JSON values; the code never tells a nil map from
  an empty one.  Numbers print as Go prints a \<^verbatim>\<open>float64\<close>, for integers of at most 53 bits.  Error
  messages are given without the response text that the Go messages append.
\<close>

section \<open>Printing any value with the verb s\<close>

definition drop_zeros :: "string \<Rightarrow> string" where
  "drop_zeros ds = rev (dropWhile (\<lambda>c. c = CHR ''0'') (rev ds))"

definition show_float :: "int \<Rightarrow> string" where
  "show_float n =
     (let ds = show_nat (nat \<bar>n\<bar>);
          e = length ds - 1;
          m = drop_zeros ds;
          sign = (if n < 0 then ''-'' else '''')
      in if e < 6 then sign @ ds
         else sign @ hd m # (if length m = 1 then '''' else CHR ''.'' # tl m) @ ''e+''
              @ (if e < 10 then ''0'' else '''') @ show_nat e)"

text \<open>The members of a JSON object as a Go map: of two members with one name the last counts.\<close>

definition any_members :: "(string \<times> 'v) list \<Rightarrow> 'v go_map" where
  "any_members ms = foldl (\<lambda>m kv. AList.update (fst kv) (snd kv) m) [] ms"

fun print_s :: "json \<Rightarrow> string" where
  "print_s JNull = ''<nil>''"
| "print_s (JBool b) = (if b then ''%!s(bool=true)'' else ''%!s(bool=false)'')"
| "print_s (JNum n) = ''%!s(float64='' @ show_float n @ '')''"
| "print_s (JStr s) = s"
| "print_s (JArr js) = ''['' @ go_join '' '' (map print_s js) @ '']''"
| "print_s (JObj ms) =
     ''map['' @ go_join '' '' (map (\<lambda>(k, v). k @ '':'' @ v)
        (sort_key fst (any_members (map (\<lambda>(k, v). (k, print_s v)) ms)))) @ '']''"

text \<open>\<^verbatim>\<open>fmt.Sprintf("%s", x)\<close> for an \<^verbatim>\<open>any\<close> that may be nil.\<close>

definition sprintf_s :: "json option \<Rightarrow> string" where
  "sprintf_s x =
     (case x of
        None \<Rightarrow> ''%!s(<nil>)''
      | Some JNull \<Rightarrow> ''%!s(<nil>)''
      | Some j \<Rightarrow> print_s j)"

section \<open>The interface\<close>

record 'b BackstageImport =
  bi_ImportLocation :: "string \<Rightarrow> 'b \<Rightarrow> (json go_map \<times> go_error) \<times> 'b"
  bi_DeleteLocation :: "string \<Rightarrow> 'b \<Rightarrow> (payload \<times> go_error) \<times> 'b"
  bi_GetLocation :: "string \<Rightarrow> 'b \<Rightarrow> (json go_map \<times> go_error) \<times> 'b"

definition ParseImportLocationMap :: "json go_map \<Rightarrow> string \<times> string \<times> bool" where
  "ParseImportLocationMap retJSON =
     (let second =
            (case map_of retJSON ''id'' of
               None \<Rightarrow> ('''', '''', False)
             | Some idi \<Rightarrow>
                 (case map_of retJSON ''target'' of
                    None \<Rightarrow> ('''', '''', False)
                  | Some targeti \<Rightarrow> (sprintf_s (Some idi), sprintf_s (Some targeti), True)))
      in case map_of retJSON ''location'' of
           None \<Rightarrow> second
         | Some location \<Rightarrow>
             (case location of
                JObj ms \<Rightarrow> (sprintf_s (map_of (any_members ms) ''id''),
                            sprintf_s (map_of (any_members ms) ''target''), True)
              | _ \<Rightarrow> second))"

section \<open>The REST client\<close>

definition BASE_URI :: string where "BASE_URI = ''/api/catalog''"
definition LOCATION_URI :: string where "LOCATION_URI = ''/locations''"

record BackstageRESTClientWrapper =
  bw_RootURL :: string
  bw_Token :: string
  bw_Tags :: bool
  bw_Subset :: bool

text \<open>The client's settings for a Backstage URL and token; the TLS set-up is left out.\<close>

definition SetupBackstageRESTClient :: "string \<Rightarrow> string \<Rightarrow> bool \<Rightarrow> bool \<Rightarrow> BackstageRESTClientWrapper" where
  "SetupBackstageRESTClient BackstageURL BackstageToken ParamsAsTags AnySubsetWorks =
     \<lparr>bw_RootURL = BackstageURL @ BASE_URI, bw_Token = BackstageToken, bw_Tags = ParamsAsTags,
      bw_Subset = AnySubsetWorks\<rparr>"

definition bkstg_request :: "http_method \<Rightarrow> string \<Rightarrow> BackstageRESTClientWrapper \<Rightarrow> payload \<Rightarrow> http_request" where
  "bkstg_request m url k body =
     \<lparr>rq_method = m, rq_url = url, rq_query = [], rq_token = bw_Token k, rq_body = body\<rparr>"

definition rc_error :: "string \<Rightarrow> string \<Rightarrow> nat \<Rightarrow> go_error" where
  "rc_error action url rc = Some (action @ '' for '' @ url @ '' rc '' @ show_nat rc)"

definition processBody :: "http_response \<Rightarrow> json go_map \<times> go_error" where
  "processBody resp =
     (case rs_body resp of
        JsonPayload (Some (JObj ms)) \<Rightarrow> (any_members ms, None)
      | JsonPayload (Some JNull) \<Rightarrow> ([], None)
      | _ \<Rightarrow> ([], Some ''json unmarshall error''))"

definition processUpdate :: "http_response \<Rightarrow> string \<Rightarrow> string \<Rightarrow> json go_map \<times> go_error" where
  "processUpdate resp action url =
     (let rc = rs_status resp
      in if rc \<noteq> 200 \<and> rc \<noteq> 201 then ([], rc_error action url rc) else processBody resp)"

definition processFetch :: "http_response \<Rightarrow> string \<Rightarrow> string \<Rightarrow> payload \<times> go_error" where
  "processFetch resp url action =
     (let rc = rs_status resp
      in if rc \<noteq> 200 then (NoPayload, rc_error action url rc) else (rs_body resp, None))"

definition processDelete :: "http_response \<Rightarrow> string \<Rightarrow> string \<Rightarrow> payload \<times> go_error" where
  "processDelete resp url action =
     (let rc = rs_status resp
      in if rc \<noteq> 204 \<and> rc \<noteq> 200 then (NoPayload, rc_error action url rc) else (rs_body resp, None))"

definition postToBackstage ::
    "'b transport \<Rightarrow> BackstageRESTClientWrapper \<Rightarrow> string \<Rightarrow> json \<Rightarrow> 'b \<Rightarrow> (json go_map \<times> go_error) \<times> 'b" where
  "postToBackstage send k url body b =
     (case send (bkstg_request POST url k (JsonPayload (Some body))) b of
        (Inl err, b') \<Rightarrow> (([], Some err), b')
      | (Inr resp, b') \<Rightarrow>
          (let rc = rs_status resp
           in if rc \<noteq> 200 \<and> rc \<noteq> 201 then (([], rc_error ''post'' url rc), b')
              else (processUpdate resp ''post'' url, b')))"

definition getFromBackstage ::
    "'b transport \<Rightarrow> BackstageRESTClientWrapper \<Rightarrow> string \<Rightarrow> 'b \<Rightarrow> (payload \<times> go_error) \<times> 'b" where
  "getFromBackstage send k url b =
     (case send (bkstg_request GET url k NoPayload) b of
        (Inl err, b') \<Rightarrow> ((NoPayload, Some err), b')
      | (Inr resp, b') \<Rightarrow> (processFetch resp url ''get'', b'))"

definition deleteFromBackstage ::
    "'b transport \<Rightarrow> BackstageRESTClientWrapper \<Rightarrow> string \<Rightarrow> 'b \<Rightarrow> (payload \<times> go_error) \<times> 'b" where
  "deleteFromBackstage send k url b =
     (case send (bkstg_request DELETE url k NoPayload) b of
        (Inl err, b') \<Rightarrow> ((NoPayload, Some err), b')
      | (Inr resp, b') \<Rightarrow> (processDelete resp url ''delete'', b'))"

section \<open>Locations\<close>

definition GetLocation ::
    "'b transport \<Rightarrow> BackstageRESTClientWrapper \<Rightarrow> string \<Rightarrow> 'b \<Rightarrow> (json go_map \<times> go_error) \<times> 'b" where
  "GetLocation send w locid b =
     (let url = bw_RootURL w @ LOCATION_URI @ ''/'' @ locid
      in case send (bkstg_request GET url w NoPayload) b of
           (Inl err, b') \<Rightarrow> (([], Some err), b')
         | (Inr resp, b') \<Rightarrow> (processUpdate resp ''get'' url, b'))"

definition ImportLocation ::
    "'b transport \<Rightarrow> BackstageRESTClientWrapper \<Rightarrow> string \<Rightarrow> 'b \<Rightarrow> (json go_map \<times> go_error) \<times> 'b" where
  "ImportLocation send w url b =
     (if contains url ''github''
      then postToBackstage send w (bw_RootURL w @ LOCATION_URI)
             (JObj [(''target'', JStr url), (''type'', JStr ''url'')]) b
      else postToBackstage send w (bw_RootURL w @ LOCATION_URI)
             (JObj [(''target'', JStr url), (''type'', JStr ''rhdh-rhoai-bridge'')]) b)"

definition DeleteLocation ::
    "'b transport \<Rightarrow> BackstageRESTClientWrapper \<Rightarrow> string \<Rightarrow> 'b \<Rightarrow> (payload \<times> go_error) \<times> 'b" where
  "DeleteLocation send w locid b = deleteFromBackstage send w (bw_RootURL w @ LOCATION_URI @ ''/'' @ locid) b"

definition BackstageREST :: "'b transport \<Rightarrow> BackstageRESTClientWrapper \<Rightarrow> 'b BackstageImport" where
  "BackstageREST send w =
     \<lparr>bi_ImportLocation = ImportLocation send w, bi_DeleteLocation = DeleteLocation send w,
      bi_GetLocation = GetLocation send w\<rparr>"

text \<open>
  \<^verbatim>\<open>PrintImportLocation\<close>; a map with neither a location nor an id is printed in Go syntax, which
  is left to \<open>dump\<close>.
\<close>

definition PrintImportLocation :: "(json go_map \<Rightarrow> string) \<Rightarrow> json go_map \<Rightarrow> string" where
  "PrintImportLocation dump retJSON =
     (case map_of retJSON ''location'' of
        Some location \<Rightarrow>
          (let ms = (case location of JObj ms \<Rightarrow> any_members ms | _ \<Rightarrow> [])
           in ''Backstage location '' @ sprintf_s (map_of ms ''id'') @ '' from ''
              @ sprintf_s (map_of ms ''target'') @ '' created'')
      | None \<Rightarrow>
          (case map_of retJSON ''id'' of
             Some i \<Rightarrow>
               (case map_of retJSON ''target'' of
                  Some target \<Rightarrow> ''Backstage location '' @ sprintf_s (Some i) @ '' from ''
                    @ sprintf_s (Some target) @ '' created''
                | None \<Rightarrow> ''Backstage location '' @ sprintf_s (Some i) @ '' created'')
           | None \<Rightarrow> dump retJSON))"

section \<open>Listing locations\<close>

text \<open>
  \<^verbatim>\<open>json.Indent\<close>: the document itself, or an error and nothing written.  The buffer the command
  returns is the list of the documents written to it.
\<close>

definition json_Indent :: "payload \<Rightarrow> json list \<times> go_error" where
  "json_Indent p =
     (case p of
        JsonPayload (Some j) \<Rightarrow> ([j], None)
      | _ \<Rightarrow> ([], Some ''invalid character''))"

definition ListLocations ::
    "'b transport \<Rightarrow> BackstageRESTClientWrapper \<Rightarrow> 'b \<Rightarrow> (json list \<times> go_error) \<times> 'b" where
  "ListLocations send w b =
     (case getFromBackstage send w (bw_RootURL w @ LOCATION_URI) b of
        ((str, Some err), b') \<Rightarrow> (([], Some err), b')
      | ((str, None), b') \<Rightarrow> (json_Indent str, b'))"

text \<open>One \<open>GET\<close> per argument; the first failing one ends the loop with what was written so far.\<close>

fun get_all ::
    "'b transport \<Rightarrow> BackstageRESTClientWrapper \<Rightarrow> string list \<Rightarrow> json list \<Rightarrow> 'b \<Rightarrow> (json list \<times> go_error) \<times> 'b" where
  "get_all send w [] buffer b = ((buffer, None), b)"
| "get_all send w (url # urls) buffer b =
     (case getFromBackstage send w url b of
        ((str, Some err), b') \<Rightarrow> ((buffer, Some err), b')
      | ((str, None), b') \<Rightarrow> get_all send w urls (buffer @ fst (json_Indent str)) b')"

definition GetLocations ::
    "'b transport \<Rightarrow> BackstageRESTClientWrapper \<Rightarrow> string list \<Rightarrow> 'b \<Rightarrow> (json list \<times> go_error) \<times> 'b" where
  "GetLocations send w args b =
     (if length args = 0 then ListLocations send w b
      else get_all send w (map (\<lambda>locid. bw_RootURL w @ LOCATION_URI @ ''/'' @ locid) args) [] b)"

section \<open>Facts about responses\<close>

lemma map_of_any_members: "map_of (any_members ms) k = map_of (rev ms) k"
proof (induction ms rule: rev_induct)
  case (snoc x ms)
  have "any_members (ms @ [x]) = AList.update (fst x) (snd x) (any_members ms)"
    by (simp add: any_members_def)
  with snoc show ?case by (cases x) simp
qed (simp add: any_members_def)

lemma distinct_any_members: "distinct (map fst (any_members ms))"
proof -
  have "distinct (map fst m) \<Longrightarrow> distinct (map fst (foldl (\<lambda>m kv. AList.update (fst kv) (snd kv) m) m ms))"
    for m :: "'a go_map"
    by (induction ms arbitrary: m) auto
  then show ?thesis by (simp add: any_members_def)
qed

lemma processUpdate_ok:
  "processUpdate resp action url = (m, None) \<Longrightarrow>
     (rs_status resp = 200 \<or> rs_status resp = 201) \<and> distinct (map fst m)"
  by (auto simp: processUpdate_def processBody_def Let_def rc_error_def distinct_any_members
      split: if_splits payload.splits option.splits json.splits)

lemma ParseImportLocationMap_accepts:
  "snd (snd (ParseImportLocationMap m)) \<longleftrightarrow>
     (\<exists>ms. map_of m ''location'' = Some (JObj ms)) \<or>
     (map_of m ''id'' \<noteq> None \<and> map_of m ''target'' \<noteq> None)"
  by (auto simp: ParseImportLocationMap_def Let_def split: option.splits json.splits)

section \<open>Properties\<close>

text \<open>
  From the answer to an import, which nests the location, and from the answer to a look-up,
  which does not, the parser gets the id and the target of the location, also when a name occurs
  twice in the document (the last occurrence counts, as in the decoded map).
\<close>

theorem ParseImportLocationMap_finds_location:
  assumes "map_of (rev ms) ''id'' = Some (JStr i)" and "map_of (rev ms) ''target'' = Some (JStr t)"
    and "rs_status resp = 200 \<or> rs_status resp = 201"
    and "rs_body resp = JsonPayload (Some (JObj ms)) \<and> map_of (rev ms) ''location'' = None
       \<or> rs_body resp = JsonPayload (Some (JObj outer)) \<and> map_of (rev outer) ''location'' = Some (JObj ms)"
    and "processUpdate resp action url = (m, e)"
  shows "e = None \<and> ParseImportLocationMap m = (i, t, True)"
  using assms
  by (auto simp: processUpdate_def processBody_def ParseImportLocationMap_def Let_def
      map_of_any_members sprintf_s_def)

theorem ParseImportLocationMap_finds_location_witness:
  "let ms = [(''id'', JStr ''42''), (''target'', JStr ''http://l:9090/m/v/f'')];
       resp = \<lparr>rs_status = 201, rs_body = JsonPayload (Some (JObj [(''location'', JObj ms), (''entities'', JArr [])]))\<rparr>
   in ParseImportLocationMap (fst (processUpdate resp ''post'' ''u'')) = (''42'', ''http://l:9090/m/v/f'', True)"
proof -
  let ?ms = "[(''id'', JStr ''42''), (''target'', JStr ''http://l:9090/m/v/f'')]"
  let ?resp = "\<lparr>rs_status = 201, rs_body = JsonPayload (Some (JObj [(''location'', JObj ?ms), (''entities'', JArr [])]))\<rparr>"
  show ?thesis
    using ParseImportLocationMap_finds_location [of ?ms "''42''" "''http://l:9090/m/v/f''" ?resp
        "[(''location'', JObj ?ms), (''entities'', JArr [])]" "''post''" "''u''"
        "fst (processUpdate ?resp ''post'' ''u'')" "snd (processUpdate ?resp ''post'' ''u'')"]
    unfolding Let_def by simp
qed

text \<open>
  A location object without an id (or with a null id) is accepted all the same: the parser
  reports success with the text Go prints for nil as the id, which the caller would store and
  look the location up by.
\<close>

theorem ParseImportLocationMap_nil_id:
  assumes "map_of m ''location'' = Some (JObj ms)"
    and "map_of (rev ms) ''id'' = None \<or> map_of (rev ms) ''id'' = Some JNull"
  shows "\<exists>t. ParseImportLocationMap m = (''%!s(<nil>)'', t, True)"
  using assms by (auto simp: ParseImportLocationMap_def Let_def map_of_any_members sprintf_s_def)

theorem ParseImportLocationMap_nil_id_witness:
  "fst (ParseImportLocationMap [(''location'', JObj [(''target'', JStr ''t'')])]) = ''%!s(<nil>)''"
proof -
  have "\<exists>t. ParseImportLocationMap [(''location'', JObj [(''target'', JStr ''t'')])] = (''%!s(<nil>)'', t, True)"
    by (rule ParseImportLocationMap_nil_id [where ms = "[(''target'', JStr ''t'')]"]) simp_all
  then show ?thesis by auto
qed

end
