(* ===== verification/Schema.thy ===== *)
theory Schema
  imports Backstage
begin

text \<open>
  The structs of the Backstage catalog, \<^verbatim>\<open>kind_entity.go\<close>, \<^verbatim>\<open>kind_api.go\<close>, \<^verbatim>\<open>kind_component.go\<close> and
  \<^verbatim>\<open>kind_resource.go\<close> of \<^verbatim>\<open>pkg/cmd/cli/backstage\<close>, as schemas, and \<^verbatim>\<open>encoding/json\<close> over a schema:
  what \<^verbatim>\<open>Unmarshal\<close> stores in a value of a type and what \<^verbatim>\<open>Marshal\<close> writes for it.

  A value of an interface type is the tree of its JSON text with the keys of every object in
  order.  Numbers are integers.  Objects that name a member twice are decoded as if every member
  of a slice type started from an empty slice.
\<close>

section \<open>Types and values\<close>

text \<open>A field of a struct: its JSON name, whether it is omitted when empty, and its type.\<close>

datatype go_type =
    GString
  | GBool
  | GInt
  | GAny
  | GSlice go_type
  | GMap go_type
  | GPtr go_type
  | GStruct "(string \<times> bool \<times> go_type) list"

type_synonym go_field = "string \<times> bool \<times> go_type"

datatype go_value =
    VString string
  | VBool bool
  | VInt int
  | VAny json
  | VNil
  | VSlice "go_value list"
  | VMap "(string \<times> go_value) list"
  | VPtr go_value
  | VStruct "go_value list"

fun zero_value :: "go_type \<Rightarrow> go_value" where
  "zero_value GString = VString ''''"
| "zero_value GBool = VBool False"
| "zero_value GInt = VInt 0"
| "zero_value GAny = VAny JNull"
| "zero_value (GSlice t) = VNil"
| "zero_value (GMap t) = VNil"
| "zero_value (GPtr t) = VNil"
| "zero_value (GStruct fs) = VStruct (map (\<lambda>(name, omit, t). zero_value t) fs)"

text \<open>The value of an interface type, with the keys of its objects sorted as Marshal writes them.\<close>

fun any_value :: "json \<Rightarrow> json" where
  "any_value (JArr js) = JArr (map any_value js)"
| "any_value (JObj ms) = JObj (sort_key fst (any_members (map (\<lambda>(k, v). (k, any_value v)) ms)))"
| "any_value j = j"

fun has_type :: "go_type \<Rightarrow> go_value \<Rightarrow> bool" where
  "has_type GString (VString s) = True"
| "has_type GBool (VBool b) = True"
| "has_type GInt (VInt n) = (- (2 ^ 63) \<le> n \<and> n < 2 ^ 63)"
| "has_type GAny (VAny j) = (any_value j = j)"
| "has_type (GSlice t) VNil = True"
| "has_type (GSlice t) (VSlice vs) = list_all (has_type t) vs"
| "has_type (GMap t) VNil = True"
| "has_type (GMap t) (VMap ms) = (distinct (map fst ms) \<and> list_all (\<lambda>(k, v). has_type t v) ms)"
| "has_type (GPtr t) VNil = True"
| "has_type (GPtr t) (VPtr v) = has_type t v"
| "has_type (GStruct fs) (VStruct vs) = list_all2 (\<lambda>(name, omit, t). has_type t) fs vs"
| "has_type _ _ = False"

section \<open>Unmarshal\<close>

text \<open>The field a member goes to: the one of its name, else the first of its name case folded.\<close>

definition index_of :: "('a \<Rightarrow> bool) \<Rightarrow> 'a list \<Rightarrow> nat option" where
  "index_of P xs = (let i = length (takeWhile (\<lambda>x. \<not> P x) xs) in if i < length xs then Some i else None)"

definition field_index :: "go_field list \<Rightarrow> string \<Rightarrow> nat option" where
  "field_index fs k =
     (case index_of (\<lambda>f. fst f = k) fs of
        Some i \<Rightarrow> Some i
      | None \<Rightarrow> index_of (\<lambda>f. equal_fold (fst f) k) fs)"

definition field_type :: "go_field list \<Rightarrow> nat \<Rightarrow> go_type" where
  "field_type fs i = snd (snd (fs ! i))"

function (sequential)
    decode :: "go_type \<Rightarrow> json \<Rightarrow> go_value \<Rightarrow> go_value \<times> go_error"
  and decode_elems :: "go_type \<Rightarrow> json list \<Rightarrow> go_value list \<times> go_error"
  and decode_members :: "go_type \<Rightarrow> json go_map \<Rightarrow> go_value go_map \<Rightarrow> go_value go_map \<times> go_error"
  and decode_fields :: "go_field list \<Rightarrow> json go_map \<Rightarrow> go_value list \<Rightarrow> go_value list \<times> go_error"
where
  "decode (GSlice t) JNull v = (VNil, None)"
| "decode (GMap t) JNull v = (VNil, None)"
| "decode (GPtr t) JNull v = (VNil, None)"
| "decode GAny j v = (VAny (any_value j), None)"
| "decode t JNull v = (v, None)"
| "decode GString (JStr s) v = (VString s, None)"
| "decode GBool (JBool b) v = (VBool b, None)"
| "decode GInt (JNum n) v = (if - (2 ^ 63) \<le> n \<and> n < 2 ^ 63 then (VInt n, None) else (v, type_error))"
| "decode (GPtr t) j v =
     (case decode t j (case v of VPtr x \<Rightarrow> x | _ \<Rightarrow> zero_value t) of (x, e) \<Rightarrow> (VPtr x, e))"
| "decode (GSlice t) (JArr js) v = (case decode_elems t js of (vs, e) \<Rightarrow> (VSlice vs, e))"
| "decode (GMap t) (JObj ms) v =
     (case decode_members t ms (case v of VMap m \<Rightarrow> m | _ \<Rightarrow> []) of (m, e) \<Rightarrow> (VMap m, e))"
| "decode (GStruct fs) (JObj ms) v =
     (case v of
        VStruct vs \<Rightarrow> (case decode_fields fs ms vs of (vs, e) \<Rightarrow> (VStruct vs, e))
      | _ \<Rightarrow> (v, type_error))"
| "decode t j v = (v, type_error)"
| "decode_elems t [] = ([], None)"
| "decode_elems t (j # js) =
     (case decode t j (zero_value t) of (v, e) \<Rightarrow>
        (case decode_elems t js of (vs, e') \<Rightarrow> (v # vs, first_error e e')))"
| "decode_members t [] m = (m, None)"
| "decode_members t ((k, j) # ms) m =
     (case decode t j (zero_value t) of (v, e) \<Rightarrow>
        (case decode_members t ms (AList.update k v m) of (m', e') \<Rightarrow> (m', first_error e e')))"
| "decode_fields fs [] vs = (vs, None)"
| "decode_fields fs ((k, j) # ms) vs =
     (case field_index fs k of
        None \<Rightarrow> decode_fields fs ms vs
      | Some i \<Rightarrow>
          (case decode (field_type fs i) j (vs ! i) of (v, e) \<Rightarrow>
             (case decode_fields fs ms (vs[i := v]) of (vs', e') \<Rightarrow> (vs', first_error e e'))))"
  by pat_completeness auto
termination
  by (relation "measures
      [\<lambda>x. case x of
         Inl (Inl (t, j, v)) \<Rightarrow> size j
       | Inl (Inr (t, js)) \<Rightarrow> size_list size js
       | Inr (Inl (t, ms, m)) \<Rightarrow> size_list (size_prod (\<lambda>_. 0) size) ms
       | Inr (Inr (fs, ms, vs)) \<Rightarrow> size_list (size_prod (\<lambda>_. 0) size) ms,
       \<lambda>x. case x of Inl (Inl (t, j, v)) \<Rightarrow> size t | _ \<Rightarrow> 0]") auto

text \<open>\<^verbatim>\<open>json.Unmarshal(buf, &v)\<close> for a zero \<open>v\<close>.\<close>

definition unmarshal :: "go_type \<Rightarrow> payload \<Rightarrow> go_value \<times> go_error" where
  "unmarshal t buf =
     (case buf of
        JsonPayload (Some j) \<Rightarrow> decode t j (zero_value t)
      | _ \<Rightarrow> (zero_value t, Some ''invalid character''))"


section \<open>Marshal\<close>

text \<open>What \<^verbatim>\<open>omitempty\<close> leaves out.\<close>

fun empty_value :: "go_value \<Rightarrow> bool" where
  "empty_value (VString s) = (s = [])"
| "empty_value (VBool b) = (\<not> b)"
| "empty_value (VInt n) = (n = 0)"
| "empty_value (VAny j) = (j = JNull)"
| "empty_value VNil = True"
| "empty_value (VSlice vs) = (vs = [])"
| "empty_value (VMap ms) = (ms = [])"
| "empty_value _ = False"

fun encode :: "go_type \<Rightarrow> go_value \<Rightarrow> json"
  and encode_fields :: "go_field list \<Rightarrow> go_value list \<Rightarrow> json go_map" where
  "encode t (VString s) = JStr s"
| "encode t (VBool b) = JBool b"
| "encode t (VInt n) = JNum n"
| "encode t (VAny j) = j"
| "encode (GSlice t) (VSlice vs) = JArr (map (encode t) vs)"
| "encode (GMap t) (VMap ms) = JObj (sort_key fst (map (\<lambda>(k, v). (k, encode t v)) ms))"
| "encode (GPtr t) (VPtr v) = encode t v"
| "encode (GStruct fs) (VStruct vs) = JObj (encode_fields fs vs)"
| "encode t _ = JNull"
| "encode_fields ((name, omit, t) # fs) (v # vs) =
     (if omit \<and> empty_value v then encode_fields fs vs else (name, encode t v) # encode_fields fs vs)"
| "encode_fields fs vs = []"

section \<open>The structs\<close>

text \<open>
  The fields of a struct with an embedded one, in the order Marshal writes them: those promoted
  from the embedded struct come first, without the ones whose name the outer struct takes.
\<close>

definition embed :: "go_field list \<Rightarrow> go_field list \<Rightarrow> go_field list" where
  "embed inner fs = filter (\<lambda>f. fst f \<notin> fst ` set fs) inner @ fs"

definition EntityLink_fields :: "go_field list" where
  "EntityLink_fields =
     [(''url'', False, GString), (''title'', True, GString), (''icon'', True, GString), (''type'', True, GString)]"

definition EntityMeta_fields :: "go_field list" where
  "EntityMeta_fields =
     [(''uid'', True, GString), (''etag'', True, GString), (''name'', False, GString),
      (''namespace'', True, GString), (''title'', True, GString), (''description'', True, GString),
      (''labels'', True, GMap GString), (''annotations'', True, GMap GString),
      (''tags'', True, GSlice GString), (''links'', True, GSlice (GStruct EntityLink_fields))]"

definition EntityRelationTarget_fields :: "go_field list" where
  "EntityRelationTarget_fields =
     [(''name'', False, GString), (''kind'', False, GString), (''namespace'', False, GString)]"

definition EntityRelation_fields :: "go_field list" where
  "EntityRelation_fields =
     [(''type'', False, GString), (''targetRef'', False, GString),
      (''target'', False, GStruct EntityRelationTarget_fields)]"

definition EntityStatusItemError_fields :: "go_field list" where
  "EntityStatusItemError_fields =
     [(''name'', False, GString), (''message'', False, GString), (''code'', False, GPtr GString),
      (''stack'', False, GPtr GString)]"

definition EntityStatusItem_fields :: "go_field list" where
  "EntityStatusItem_fields =
     [(''type'', False, GString), (''level'', False, GString), (''message'', False, GString),
      (''error'', False, GPtr (GStruct EntityStatusItemError_fields))]"

definition EntityStatus_fields :: "go_field list" where
  "EntityStatus_fields = [(''items'', True, GSlice (GStruct EntityStatusItem_fields))]"

definition Entity_fields :: "go_field list" where
  "Entity_fields =
     [(''apiVersion'', False, GString), (''kind'', False, GString),
      (''metadata'', False, GStruct EntityMeta_fields), (''spec'', True, GMap GAny),
      (''relations'', True, GSlice (GStruct EntityRelation_fields)),
      (''status'', True, GPtr (GStruct EntityStatus_fields))]"

definition Profile_fields :: "go_field list" where
  "Profile_fields = [(''displayName'', False, GString)]"

definition ApiSpec_fields :: "go_field list" where
  "ApiSpec_fields =
     [(''type'', False, GString), (''lifecycle'', False, GString), (''owner'', False, GString),
      (''definition'', False, GString), (''dependencyOf'', True, GSlice GString), (''system'', True, GString),
      (''profile'', False, GStruct Profile_fields)]"

definition ComponentSpec_fields :: "go_field list" where
  "ComponentSpec_fields =
     [(''type'', False, GString), (''lifecycle'', False, GString), (''owner'', False, GString),
      (''subcomponentOf'', True, GString), (''providesApis'', True, GSlice GString),
      (''consumesApis'', True, GSlice GString), (''dependsOn'', True, GSlice GString),
      (''system'', True, GString), (''profile'', False, GStruct Profile_fields)]"

definition ResourceSpec_fields :: "go_field list" where
  "ResourceSpec_fields =
     [(''type'', False, GString), (''lifecycle'', False, GString), (''owner'', False, GString),
      (''providesApis'', True, GSlice GString), (''dependencyOf'', True, GSlice GString),
      (''system'', True, GString), (''profile'', False, GStruct Profile_fields)]"

definition ApiEntity_fields :: "go_field list" where
  "ApiEntity_fields = embed Entity_fields
     [(''apiVersion'', False, GString), (''kind'', False, GString), (''spec'', False, GPtr (GStruct ApiSpec_fields))]"

definition ComponentEntity_fields :: "go_field list" where
  "ComponentEntity_fields = embed Entity_fields
     [(''apiVersion'', False, GString), (''kind'', False, GString),
      (''spec'', False, GPtr (GStruct ComponentSpec_fields))]"

definition ResourceEntity_fields :: "go_field list" where
  "ResourceEntity_fields = embed Entity_fields
     [(''apiVersion'', False, GString), (''kind'', False, GString),
      (''spec'', False, GPtr (GStruct ResourceSpec_fields))]"

section \<open>Documents of the catalog\<close>

text \<open>
  A document of the catalog as Backstage sends it, and as the client prints it: the members of the
  embedded struct come first, an empty text or list of an optional member is left out, and the
  profile, which Backstage may not have sent, is there.
\<close>

definition sent_entity ::
    "string \<Rightarrow> string \<Rightarrow> string \<Rightarrow> string \<Rightarrow> string \<Rightarrow> string \<Rightarrow> string list \<Rightarrow> json go_map \<Rightarrow> json" where
  "sent_entity version kind name ns title description tags spec =
     JObj [(''apiVersion'', JStr version), (''kind'', JStr kind),
       (''metadata'', JObj [(''name'', JStr name), (''namespace'', JStr ns), (''title'', JStr title),
          (''description'', JStr description), (''tags'', JArr (map JStr tags))]),
       (''spec'', JObj spec)]"

definition opt_text :: "string \<Rightarrow> string \<Rightarrow> json go_map" where
  "opt_text name s = (if s = [] then [] else [(name, JStr s)])"

definition opt_texts :: "string \<Rightarrow> string list \<Rightarrow> json go_map" where
  "opt_texts name ss = (if ss = [] then [] else [(name, JArr (map JStr ss))])"

definition printed_entity ::
    "string \<Rightarrow> string \<Rightarrow> string \<Rightarrow> string \<Rightarrow> string \<Rightarrow> string \<Rightarrow> string list \<Rightarrow> json go_map \<Rightarrow> json" where
  "printed_entity version kind name ns title description tags spec =
     JObj [(''metadata'', JObj ((''name'', JStr name) # opt_text ''namespace'' ns @ opt_text ''title'' title
          @ opt_text ''description'' description @ opt_texts ''tags'' tags)),
       (''apiVersion'', JStr version), (''kind'', JStr kind),
       (''spec'', JObj (spec @ [(''profile'', JObj [(''displayName'', JStr '''')])]))]"

definition printed :: "go_field list \<Rightarrow> json \<Rightarrow> json \<times> go_error" where
  "printed fs j = (case unmarshal (GStruct fs) (JsonPayload (Some j)) of (v, e) \<Rightarrow> (encode (GStruct fs) v, e))"

section \<open>Facts\<close>

lemma index_of_Some: "index_of P xs = Some i \<Longrightarrow> i < length xs \<and> P (xs ! i)"
  using nth_length_takeWhile [of "\<lambda>x. \<not> P x" xs] by (auto simp: index_of_def Let_def split: if_splits)

lemma field_index_lt: "field_index fs k = Some i \<Longrightarrow> i < length fs"
  by (auto simp: field_index_def split: option.splits dest: index_of_Some)

lemma sort_key_values:
  "sort_key fst (map (\<lambda>(k, v). (k, f v)) ms) = map (\<lambda>(k, v). (k, f v)) (sort_key fst ms)"
proof -
  have ins: "insort_key fst (k, f v) (map (\<lambda>(k, v). (k, f v)) xs) = map (\<lambda>(k, v). (k, f v)) (insort_key fst (k, v) xs)"
    for k v xs by (induction xs) auto
  show ?thesis by (induction ms) (auto simp: ins)
qed

lemma any_members_distinct: "distinct (map fst ms) \<Longrightarrow> any_members ms = ms"
proof -
  have "distinct (map fst (m @ ms)) \<Longrightarrow> foldl (\<lambda>m kv. AList.update (fst kv) (snd kv) m) m ms = m @ ms" for m
  proof (induction ms arbitrary: m)
    case (Cons kv ms)
    then have "AList.update (fst kv) (snd kv) m = m @ [kv]"
      by (induction m) auto
    with Cons.IH [of "m @ [kv]"] Cons.prems show ?case by simp
  qed simp
  from this [of "[]"] show "distinct (map fst ms) \<Longrightarrow> any_members ms = ms" by (simp add: any_members_def)
qed

lemma set_any_members: "set (any_members ms) \<subseteq> set ms"
proof -
  have "set (foldl (\<lambda>m kv. AList.update (fst kv) (snd kv) m) m ms) \<subseteq> set m \<union> set ms" for m
  proof (induction ms arbitrary: m)
    case (Cons kv ms)
    have "set (AList.update (fst kv) (snd kv) m) \<subseteq> insert kv (set m)" by (induction m) auto
    with Cons.IH [of "AList.update (fst kv) (snd kv) m"] show ?case by auto
  qed simp
  from this [of "[]"] show ?thesis by (simp add: any_members_def)
qed

text \<open>The tree an interface value is kept as is its own.\<close>

lemma any_value_idem: "any_value (any_value j) = any_value j"
proof (induction j rule: any_value.induct)
  case (2 ms)
  let ?m = "sort_key fst (any_members (map (\<lambda>(k, v). (k, any_value v)) ms))"
  have "any_value v = v" if "(k, v) \<in> set ?m" for k v
    using that set_any_members [of "map (\<lambda>(k, v). (k, any_value v)) ms"] 2 by auto
  then have "map (\<lambda>(k, v). (k, any_value v)) ?m = ?m" by (intro map_idI) auto
  moreover have "distinct (map fst ?m)"
    by (simp add: distinct_map distinct_any_members [unfolded distinct_map])
  ultimately show ?case by (simp add: any_members_distinct sort_key_id_if_sorted)
qed auto

lemma has_type_zero: "has_type t (zero_value t)"
proof (induction t rule: zero_value.induct)
  case (8 fs)
  have "has_type (snd (snd f)) (zero_value (snd (snd f)))" if "f \<in> set fs" for f
    using 8 [OF that] by (cases f) auto
  then show ?case by (auto simp: list_all2_conv_all_nth split_beta)
qed simp_all

lemma list_all_AList_update:
  "list_all (\<lambda>(k, v). P v) m \<Longrightarrow> P x \<Longrightarrow> list_all (\<lambda>(k, v). P v) (AList.update k x m)"
  by (induction m) auto

lemma has_type_VPtr: "has_type (GPtr t) v \<Longrightarrow> has_type t (case v of VPtr x \<Rightarrow> x | _ \<Rightarrow> zero_value t)"
  by (cases v) (auto simp: has_type_zero)

lemma has_type_VMap: "has_type (GMap t) v \<Longrightarrow> has_type (GMap t) (VMap (case v of VMap m \<Rightarrow> m | _ \<Rightarrow> []))"
  by (cases v) auto

lemma has_type_VStruct: "has_type (GStruct fs) v \<Longrightarrow> \<exists>vs. v = VStruct vs"
  by (cases v) auto

lemma has_type_field:
  "has_type (GStruct fs) (VStruct vs) \<Longrightarrow> field_index fs k = Some i \<Longrightarrow> has_type (field_type fs i) (vs ! i)"
  using field_index_lt [of fs k i] by (auto simp: list_all2_conv_all_nth field_type_def case_prod_unfold)

lemma has_type_set_field:
  assumes "has_type (GStruct fs) (VStruct vs)" and "field_index fs k = Some i" and "has_type (field_type fs i) v"
  shows "has_type (GStruct fs) (VStruct (vs[i := v]))"
  using assms field_index_lt [OF assms(2)]
  by (auto simp: list_all2_conv_all_nth nth_list_update field_type_def split_beta)

text \<open>
  Whatever a response holds, the value unmarshalled from it, with or without an error, is of the type
  asked for.
\<close>

lemma decode_has_type:
  "has_type t v \<Longrightarrow> has_type t (fst (decode t j v))"
  "list_all (has_type t) (fst (decode_elems t js))"
  "has_type (GMap t) (VMap m) \<Longrightarrow> has_type (GMap t) (VMap (fst (decode_members t ms m)))"
  "has_type (GStruct fs) (VStruct vs) \<Longrightarrow> has_type (GStruct fs) (VStruct (fst (decode_fields fs ms' vs)))"
proof (induction t j v and t js and t ms m and fs ms' vs rule: decode_decode_elems_decode_members_decode_fields.induct)
  case (19 fs k j ms vs)
  show ?case
  proof (cases "field_index fs k")
    case None
    with "19.IH"(1) "19.prems" show ?thesis by simp
  next
    case (Some i)
    obtain v e where d: "decode (field_type fs i) j (vs ! i) = (v, e)" by fastforce
    with "19.IH"(2) [OF Some has_type_field [OF "19.prems" Some]] have "has_type (field_type fs i) v" by simp
    from "19.IH"(3) [OF Some d [symmetric] has_type_set_field [OF "19.prems" Some this]] show ?thesis
      by (simp add: Some d split_beta)
  qed
next
  case (15 t j js)
  obtain v e where "decode t j (zero_value t) = (v, e)" by fastforce
  with 15 has_type_zero [of t] show ?case by (auto simp: split_beta)
next
  case (17 t k j ms m)
  obtain v e where d: "decode t j (zero_value t) = (v, e)" by fastforce
  with 17 has_type_zero [of t] show ?case
    by (auto simp: split_beta distinct_update list_all_AList_update)
next
  case (12 fs ms v)
  then show ?case by (cases v) (simp_all add: split_beta del: has_type.simps(8) has_type.simps(11))
qed (simp_all add: has_type_zero any_value_idem has_type_VPtr has_type_VMap split_beta del: has_type.simps(8) has_type.simps(11))

text \<open>
  C2 below needs of a schema that no two fields of a struct have one name and that pointers point to
  strings, booleans, numbers and structs only.
\<close>

fun points_well :: "go_type \<Rightarrow> bool" where
  "points_well GAny = False"
| "points_well (GSlice t) = False"
| "points_well (GMap t) = False"
| "points_well (GPtr t) = False"
| "points_well t = True"

fun schema_ok :: "go_type \<Rightarrow> bool" where
  "schema_ok (GSlice t) = schema_ok t"
| "schema_ok (GMap t) = schema_ok t"
| "schema_ok (GPtr t) = (points_well t \<and> schema_ok t)"
| "schema_ok (GStruct fs) = (distinct (map fst fs) \<and> list_all (\<lambda>(name, omit, t). schema_ok t) fs)"
| "schema_ok t = True"

text \<open>
  What \<^verbatim>\<open>Marshal\<close> and then \<^verbatim>\<open>Unmarshal\<close> make of a value: the members of a map come in the order of
  their keys, and an empty slice or map that was left out comes back as nil.
\<close>

fun reread :: "go_type \<Rightarrow> go_value \<Rightarrow> go_value"
  and reread_fields :: "go_field list \<Rightarrow> go_value list \<Rightarrow> go_value list" where
  "reread (GSlice t) (VSlice vs) = VSlice (map (reread t) vs)"
| "reread (GMap t) (VMap ms) = VMap (sort_key fst (map (\<lambda>(k, v). (k, reread t v)) ms))"
| "reread (GPtr t) (VPtr v) = VPtr (reread t v)"
| "reread (GStruct fs) (VStruct vs) = VStruct (reread_fields fs vs)"
| "reread t v = v"
| "reread_fields ((name, omit, t) # fs) (v # vs) =
     (if omit \<and> empty_value v then zero_value t else reread t v) # reread_fields fs vs"
| "reread_fields fs vs = []"

lemma index_of_here: "list_all (\<lambda>x. \<not> P x) xs \<Longrightarrow> P y \<Longrightarrow> index_of P (xs @ y # ys) = Some (length xs)"
  by (simp add: index_of_def Let_def list_all_iff takeWhile_append2)

lemma field_index_here:
  "name \<notin> fst ` set pre \<Longrightarrow> field_index (pre @ (name, f) # fs) name = Some (length pre)"
proof -
  assume "name \<notin> fst ` set pre"
  then have "list_all (\<lambda>f. fst f \<noteq> name) pre" by (auto simp: list_all_iff)
  from index_of_here [OF this, of "(name, f)" fs] show ?thesis by (simp add: field_index_def)
qed

lemma encode_not_null: "points_well t \<Longrightarrow> has_type t v \<Longrightarrow> encode t v \<noteq> JNull"
  by (cases "(t, v)" rule: has_type.cases) simp_all

lemma decode_GPtr:
  "j \<noteq> JNull \<Longrightarrow> decode (GPtr t) j VNil = (case decode t j (zero_value t) of (x, e) \<Rightarrow> (VPtr x, e))"
  by (cases j) simp_all

lemma decode_elems_encode:
  "list_all (\<lambda>v. decode t (encode t v) (zero_value t) = (f v, None)) vs \<Longrightarrow>
   decode_elems t (map (encode t) vs) = (map f vs, None)"
  by (induction vs) (simp_all add: first_error_def)

lemma AList_update_new: "k \<notin> fst ` set m \<Longrightarrow> AList.update k v m = m @ [(k, v)]"
  by (induction m) auto

lemma decode_members_encode:
  "list_all (\<lambda>(k, v). decode t (encode t v) (zero_value t) = (f v, None)) ms \<Longrightarrow> distinct (map fst (m @ ms)) \<Longrightarrow>
   decode_members t (map (\<lambda>(k, v). (k, encode t v)) ms) m = (m @ map (\<lambda>(k, v). (k, f v)) ms, None)"
proof (induction ms arbitrary: m)
  case (Cons kv ms)
  obtain k v where kv: "kv = (k, v)" by fastforce
  with Cons.prems have "AList.update k (f v) m = m @ [(k, f v)]" by (intro AList_update_new) simp
  with Cons.IH [of "m @ [(k, f v)]"] Cons.prems kv show ?case by (simp add: first_error_def)
qed simp

lemma decode_encode:
  "schema_ok t \<Longrightarrow> has_type t v \<Longrightarrow> decode t (encode t v) (zero_value t) = (reread t v, None)"
  "schema_ok (GStruct (pre @ fs)) \<Longrightarrow> list_all2 (\<lambda>(name, omit, t). has_type t) fs vs \<Longrightarrow> length ws = length pre \<Longrightarrow>
   decode_fields (pre @ fs) (encode_fields fs vs) (ws @ map (\<lambda>(name, omit, t). zero_value t) fs)
     = (ws @ reread_fields fs vs, None)"
proof (induction t v and fs vs arbitrary: and pre ws rule: encode_encode_fields.induct)
  case (5 t vs)
  then have "list_all (\<lambda>v. decode t (encode t v) (zero_value t) = (reread t v, None)) vs"
    by (auto simp: list_all_iff)
  then show ?case by (simp add: decode_elems_encode)
next
  case (6 t ms)
  let ?ms = "sort_key fst ms"
  have "list_all (\<lambda>(k, v). decode t (encode t v) (zero_value t) = (reread t v, None)) ?ms"
    using 6 by (auto simp: list_all_iff)
  moreover have "distinct (map fst ([] @ ?ms))"
    using 6 by (simp add: distinct_map)
  ultimately show ?case
    using decode_members_encode [of t "reread t" ?ms "[]"] by (simp add: sort_key_values)
next
  case (7 t v)
  then have "decode t (encode t v) (zero_value t) = (reread t v, None)" "encode t v \<noteq> JNull"
    by (simp_all add: encode_not_null)
  then show ?case by (simp add: decode_GPtr)
next
  case (8 fs vs)
  from 8(1) [of "[]" "[]"] 8(2,3) show ?case by simp
next
  case (10 name omit t fs v vs)
  let ?w = "if omit \<and> empty_value v then zero_value t else reread t v"
  have ix: "field_index (pre @ (name, omit, t) # fs) name = Some (length pre)"
    using 10(4) by (intro field_index_here) auto
  have ty: "field_type (pre @ (name, omit, t) # fs) (length pre) = t" by (simp add: field_type_def)
  have dec: "decode t (encode t v) (zero_value t) = (reread t v, None)" if "\<not> (omit \<and> empty_value v)"
    using 10 that by simp
  have rest: "decode_fields (pre @ (name, omit, t) # fs) (encode_fields fs vs)
      (ws @ ?w # map (\<lambda>(name, omit, t). zero_value t) fs) = (ws @ ?w # reread_fields fs vs, None)"
    using 10(1,3) [of "pre @ [(name, omit, t)]" "ws @ [?w]"] 10(4-6) by (cases "omit \<and> empty_value v") auto
  show ?case
    using rest dec 10(6) by (auto simp: ix ty list_update_append first_error_def nth_append)
qed (auto elim: has_type.elims)

lemma sort_key_Nil_iff [simp]: "sort_key f xs = [] \<longleftrightarrow> xs = []"
  by (metis length_0_conv length_sort)

lemma reread_empty: "has_type t v \<Longrightarrow> empty_value (reread t v) = empty_value v"
  by (cases "(t, v)" rule: has_type.cases) (simp_all add: sort_key_values)

lemma empty_zero: "has_type t v \<Longrightarrow> empty_value v \<Longrightarrow> empty_value (zero_value t)"
  by (cases "(t, v)" rule: has_type.cases) simp_all

text \<open>Printed again, what was read is the text it was read from.\<close>

lemma encode_reread:
  "has_type t v \<Longrightarrow> encode t (reread t v) = encode t v"
  "list_all2 (\<lambda>(name, omit, t). has_type t) fs vs \<Longrightarrow> encode_fields fs (reread_fields fs vs) = encode_fields fs vs"
proof (induction t v and fs vs rule: encode_encode_fields.induct)
  case (5 t vs)
  then show ?case by (simp add: list_all_iff)
next
  case (6 t ms)
  have "encode (GMap t) (reread (GMap t) (VMap ms))
      = JObj (map (\<lambda>(k, v). (k, encode t v)) (map (\<lambda>(k, v). (k, reread t v)) (sort_key fst ms)))"
    by (simp add: sort_key_values sort_key_id_if_sorted del: map_map)
  with 6 show ?case by (auto simp: sort_key_values list_all_iff)
next
  case (10 name omit t fs v vs)
  then show ?case using reread_empty [of t v] empty_zero [of t v] by auto
qed (auto elim: has_type.elims)

lemmas struct_defs = EntityLink_fields_def EntityMeta_fields_def EntityRelationTarget_fields_def
  EntityRelation_fields_def EntityStatusItemError_fields_def EntityStatusItem_fields_def EntityStatus_fields_def
  Entity_fields_def Profile_fields_def ApiSpec_fields_def ComponentSpec_fields_def ResourceSpec_fields_def
  ApiEntity_fields_def ComponentEntity_fields_def ResourceEntity_fields_def embed_def

lemma schema_ok_entities:
  "schema_ok (GStruct Entity_fields)" "schema_ok (GStruct ApiEntity_fields)"
  "schema_ok (GStruct ComponentEntity_fields)" "schema_ok (GStruct ResourceEntity_fields)"
  by code_simp+

lemma unmarshal_has_type: "has_type t (fst (unmarshal t buf))"
  by (simp add: unmarshal_def decode_has_type(1) has_type_zero split: payload.split option.split)

section \<open>Property\<close>

lemma decode_texts: "decode_elems GString (map JStr ss) = (map VString ss, None)"
  by (induction ss) (simp_all add: first_error_def)

lemma encode_VString: "encode t \<circ> VString = JStr"
  by (simp add: fun_eq_iff)

lemma opt_text_append: "opt_text name s @ ms = (if s = [] then ms else (name, JStr s) # ms)"
  by (simp add: opt_text_def)

lemma opt_texts_append: "opt_texts name ss @ ms = (if ss = [] then ms else (name, JArr (map JStr ss)) # ms)"
  by (simp add: opt_texts_def)

lemmas printed_simps = printed_def unmarshal_def sent_entity_def printed_entity_def struct_defs field_index_def
  index_of_def field_type_def decode_texts encode_VString opt_text_append opt_texts_append opt_texts_def [of "''tags''"]
  first_error_def Let_def



end
