(* ===== verification/Catalog.thy ===== *)
theory Catalog
  imports Wire
begin

text \<open>
  The catalog documents: the JSON schema types of \<^verbatim>\<open>schema/types/golang/model-catalog.go\<close> with
  their marshalling, the Backstage entity kinds of \<^verbatim>\<open>pkg/cmd/cli/backstage/kind_*.go\<close>, and the
  printers of \<^verbatim>\<open>interfaces.go\<close> that turn a populator into a document.

  A populator interface is a record of the values its getters return.  A document is kept as the
  structure that is printed: YAML text is made by a library, and \<open>render\<close>, which the theories
  that post documents are parametric in, stands for it.  Of the entity types only the fields the
  printers fill are modelled; the others keep their zero value and are not printed.
\<close>

section \<open>Constants\<close>

definition COMPONENT_TYPE :: string where "COMPONENT_TYPE = ''model-server''"
definition RESOURCE_TYPE :: string where "RESOURCE_TYPE = ''ai-model''"
definition OPENAPI_API_TYPE :: string where "OPENAPI_API_TYPE = ''openapi''"
definition ASYNCAPI_API_TYPE :: string where "ASYNCAPI_API_TYPE = ''asyncapi''"
definition GRAPHQL_API_TYPE :: string where "GRAPHQL_API_TYPE = ''graphql''"
definition GRPC_API_TYPE :: string where "GRPC_API_TYPE = ''grpc''"
definition TRPC_API_TYPE :: string where "TRPC_API_TYPE = ''trpc''"
definition UNKNOWN_API_TYPE :: string where "UNKNOWN_API_TYPE = ''unknown''"
definition LINK_API_URL :: string where "LINK_API_URL = ''API URL''"
definition LINK_TYPE_WEBSITE :: string where "LINK_TYPE_WEBSITE = ''website''"
definition LINK_ICON_WEBASSET :: string where "LINK_ICON_WEBASSET = ''WebAsset''"
definition TECHDOC_REFS :: string where "TECHDOC_REFS = ''backstage.io/techdocs-ref''"
definition VERSION :: string where "VERSION = ''backstage.io/v1alpha1''"
definition EXTERNAL_ROUTE_URL :: string where "EXTERNAL_ROUTE_URL = ''rhdh.modelcatalog.io/external-route-url''"
definition INTERNAL_SVC_URL :: string where "INTERNAL_SVC_URL = ''rhdh.modelcatalog.io/internal-service-url''"
definition MODEL_NAME :: string where "MODEL_NAME = ''rhdh.modelcatalog.io/model-name''"

section \<open>The JSON schema\<close>

type_synonym ApiType = string

definition Asyncapi :: ApiType where "Asyncapi = ''asyncapi''"
definition Graphql :: ApiType where "Graphql = ''graphql''"
definition Grpc :: ApiType where "Grpc = ''grpc''"
definition Openapi :: ApiType where "Openapi = ''openapi''"

record API =
  api_Annotations :: "string go_map"
  api_Spec :: string
  api_Tags :: "string list"
  api_Type :: ApiType
  api_URL :: string

record ModelServer =
  ms_Annotations :: "string go_map"
  ms_API :: "API option"
  ms_Authentication :: "bool option"
  ms_Description :: string
  ms_HomepageURL :: "string option"
  ms_Lifecycle :: string
  ms_Name :: string
  ms_Owner :: string
  ms_Tags :: "string list"
  ms_Usage :: "string option"

record Model =
  md_Annotations :: "string go_map"
  md_ArtifactLocationURL :: "string option"
  md_Description :: string
  md_Ethics :: "string option"
  md_HowToUseURL :: "string option"
  md_License :: "string option"
  md_Lifecycle :: string
  md_Name :: string
  md_Owner :: string
  md_Support :: "string option"
  md_Tags :: "string list"
  md_Training :: "string option"
  md_Usage :: "string option"

record ModelCatalog =
  mcat_Models :: "Model list"
  mcat_ModelServer :: "ModelServer option"

text \<open>
  \<^verbatim>\<open>json.Marshal\<close> with \<^verbatim>\<open>omitempty\<close>: nil pointers and empty slices and maps are left out; the
  keys of a map are sorted.
\<close>

definition omit_str :: "string \<Rightarrow> string option \<Rightarrow> (string \<times> json) list" where
  "omit_str name v = (case v of None \<Rightarrow> [] | Some s \<Rightarrow> [(name, JStr s)])"

definition omit_bool :: "string \<Rightarrow> bool option \<Rightarrow> (string \<times> json) list" where
  "omit_bool name v = (case v of None \<Rightarrow> [] | Some b \<Rightarrow> [(name, JBool b)])"

definition omit_strs :: "string \<Rightarrow> string list \<Rightarrow> (string \<times> json) list" where
  "omit_strs name vs = (if vs = [] then [] else [(name, JArr (map JStr vs))])"

definition omit_map :: "string \<Rightarrow> string go_map \<Rightarrow> (string \<times> json) list" where
  "omit_map name m =
     (if m = [] then [] else [(name, JObj (map (\<lambda>(k, v). (k, JStr v)) (sort_key fst m)))])"

definition marshal_API :: "API \<Rightarrow> json" where
  "marshal_API a = JObj
     (omit_map ''annotations'' (api_Annotations a)
      @ [(''spec'', JStr (api_Spec a))]
      @ omit_strs ''tags'' (api_Tags a)
      @ [(''type'', JStr (api_Type a)), (''url'', JStr (api_URL a))])"

definition marshal_ModelServer :: "ModelServer \<Rightarrow> json" where
  "marshal_ModelServer s = JObj
     (omit_map ''annotations'' (ms_Annotations s)
      @ (case ms_API s of None \<Rightarrow> [] | Some a \<Rightarrow> [(''API'', marshal_API a)])
      @ omit_bool ''authentication'' (ms_Authentication s)
      @ [(''description'', JStr (ms_Description s))]
      @ omit_str ''homepageURL'' (ms_HomepageURL s)
      @ [(''lifecycle'', JStr (ms_Lifecycle s)), (''name'', JStr (ms_Name s)), (''owner'', JStr (ms_Owner s))]
      @ omit_strs ''tags'' (ms_Tags s)
      @ omit_str ''usage'' (ms_Usage s))"

definition marshal_Model :: "Model \<Rightarrow> json" where
  "marshal_Model m = JObj
     (omit_map ''annotations'' (md_Annotations m)
      @ omit_str ''artifactLocationURL'' (md_ArtifactLocationURL m)
      @ [(''description'', JStr (md_Description m))]
      @ omit_str ''ethics'' (md_Ethics m)
      @ omit_str ''howToUseURL'' (md_HowToUseURL m)
      @ omit_str ''license'' (md_License m)
      @ [(''lifecycle'', JStr (md_Lifecycle m)), (''name'', JStr (md_Name m)), (''owner'', JStr (md_Owner m))]
      @ omit_str ''support'' (md_Support m)
      @ omit_strs ''tags'' (md_Tags m)
      @ omit_str ''training'' (md_Training m)
      @ omit_str ''usage'' (md_Usage m))"

definition marshal_ModelCatalog :: "ModelCatalog \<Rightarrow> json" where
  "marshal_ModelCatalog c = JObj
     ((''models'', JArr (map marshal_Model (mcat_Models c)))
      # (case mcat_ModelServer c of None \<Rightarrow> [] | Some s \<Rightarrow> [(''modelServer'', marshal_ModelServer s)]))"

section \<open>Entities\<close>

record EntityLink =
  el_URL :: string
  el_Title :: string
  el_Icon :: string
  el_Type :: string

record EntityMeta =
  em_Name :: string
  em_Description :: string
  em_Annotations :: "string go_map"
  em_Tags :: "string list"
  em_Links :: "EntityLink list"

record Entity =
  en_ApiVersion :: string
  en_Kind :: string
  en_Metadata :: EntityMeta

record ComponentEntityV1alpha1Spec =
  cs_Type :: string
  cs_Lifecycle :: string
  cs_Owner :: string
  cs_ProvidesApis :: "string list"
  cs_DependsOn :: "string list"
  cs_DisplayName :: string

record ResourceEntityV1alpha1Spec =
  rs_Type :: string
  rs_Lifecycle :: string
  rs_Owner :: string
  rs_ProvidesApis :: "string list"
  rs_DependencyOf :: "string list"
  rs_DisplayName :: string

record ApiEntityV1alpha1Spec =
  as_Type :: string
  as_Lifecycle :: string
  as_Owner :: string
  as_Definition :: string
  as_DependencyOf :: "string list"
  as_DisplayName :: string

datatype catalog_doc =
    ComponentDoc Entity ComponentEntityV1alpha1Spec
  | ResourceDoc Entity ResourceEntityV1alpha1Spec
  | ApiDoc Entity ApiEntityV1alpha1Spec
  | JsonDoc json

section \<open>Populators and printers\<close>

record CommonPop =
  pop_Owner :: string
  pop_Lifecycle :: string
  pop_Name :: string
  pop_Description :: string
  pop_Links :: "EntityLink list"
  pop_Tags :: "string list"
  pop_ProvidedAPIs :: "string list"
  pop_TechdocRef :: string
  pop_DisplayName :: string

record ComponentPop = CommonPop +
  pop_DependsOn :: "string list"

record ResourcePop = CommonPop +
  pop_DependencyOf :: "string list"

record APIPop = CommonPop +
  pop_Definition :: string
  pop_ApiDependencyOf :: "string list"

definition buildEntity :: "string \<Rightarrow> 'a CommonPop_scheme \<Rightarrow> Entity" where
  "buildEntity kind pop =
     \<lparr>en_ApiVersion = VERSION, en_Kind = kind,
      en_Metadata = \<lparr>em_Name = pop_Name pop, em_Description = pop_Description pop, em_Annotations = [],
        em_Tags = pop_Tags pop, em_Links = pop_Links pop\<rparr>\<rparr>"

definition annotated :: "string \<Rightarrow> Entity \<Rightarrow> Entity" where
  "annotated ref e = e\<lparr>en_Metadata := (en_Metadata e)\<lparr>em_Annotations := [(TECHDOC_REFS, ref)]\<rparr>\<rparr>"

definition PrintComponent :: "ComponentPop \<Rightarrow> catalog_doc list \<Rightarrow> catalog_doc list" where
  "PrintComponent pop writer = writer @
     [ComponentDoc (annotated (pop_TechdocRef pop) (buildEntity ''Component'' pop))
        \<lparr>cs_Type = COMPONENT_TYPE, cs_Lifecycle = pop_Lifecycle pop, cs_Owner = ''user:'' @ pop_Owner pop,
         cs_ProvidesApis = pop_ProvidedAPIs pop, cs_DependsOn = pop_DependsOn pop,
         cs_DisplayName = pop_DisplayName pop\<rparr>]"

definition PrintResource :: "ResourcePop \<Rightarrow> catalog_doc list \<Rightarrow> catalog_doc list" where
  "PrintResource pop writer = writer @
     [ResourceDoc (annotated (pop_TechdocRef pop) (buildEntity ''Resource'' pop))
        \<lparr>rs_Type = RESOURCE_TYPE, rs_Lifecycle = pop_Lifecycle pop, rs_Owner = ''user:'' @ pop_Owner pop,
         rs_ProvidesApis = pop_ProvidedAPIs pop, rs_DependencyOf = pop_DependencyOf pop,
         rs_DisplayName = pop_DisplayName pop\<rparr>]"

definition definition_type :: "string \<Rightarrow> string" where
  "definition_type def =
     (if contains def OPENAPI_API_TYPE then OPENAPI_API_TYPE
      else if contains def ASYNCAPI_API_TYPE then ASYNCAPI_API_TYPE
      else if contains def GRAPHQL_API_TYPE then GRAPHQL_API_TYPE
      else if contains def TRPC_API_TYPE then TRPC_API_TYPE
      else if contains def ''proto'' then GRPC_API_TYPE
      else UNKNOWN_API_TYPE)"

definition PrintAPI :: "APIPop \<Rightarrow> catalog_doc list \<Rightarrow> catalog_doc list" where
  "PrintAPI pop writer = writer @
     [ApiDoc (annotated (pop_TechdocRef pop) (buildEntity ''API'' pop))
        \<lparr>as_Type = definition_type (pop_Definition pop), as_Lifecycle = pop_Lifecycle pop,
         as_Owner = ''user:'' @ pop_Owner pop, as_Definition = pop_Definition pop,
         as_DependencyOf = pop_ApiDependencyOf pop, as_DisplayName = pop_DisplayName pop\<rparr>]"

text \<open>The server is only added when its API has an endpoint.\<close>

definition print_catalog :: "Model list \<Rightarrow> ModelServer option \<Rightarrow> ModelCatalog" where
  "print_catalog models ms =
     \<lparr>mcat_Models = models,
      mcat_ModelServer =
        (case ms of
           None \<Rightarrow> None
         | Some s \<Rightarrow> (case ms_API s of
                        None \<Rightarrow> None
                      | Some a \<Rightarrow> if length (api_URL a) > 0 then Some s else None))\<rparr>"

definition PrintModelCatalogPopulator ::
    "Model list \<Rightarrow> ModelServer option \<Rightarrow> catalog_doc list \<Rightarrow> catalog_doc list" where
  "PrintModelCatalogPopulator models ms writer =
     writer @ [JsonDoc (marshal_ModelCatalog (print_catalog models ms))]"

section \<open>Tags\<close>

text \<open>
  What Backstage accepts as a tag, the pattern \<^verbatim>\<open>tagRegexp\<close> of the Kubeflow populators: groups of
  lower-case letters, digits, colons, pluses and hashes, separated by single dashes.
\<close>

definition tag_char :: "char \<Rightarrow> bool" where
  "tag_char c \<longleftrightarrow> is_lower c \<or> is_digit c \<or> c = CHR '':'' \<or> c = CHR ''+'' \<or> c = CHR ''#''"

definition tag_match :: "string \<Rightarrow> bool" where
  "tag_match s \<longleftrightarrow> list_all (\<lambda>g. g \<noteq> [] \<and> list_all tag_char g) (go_split (CHR ''-'') s)"

end
