(* ===== verification/BackstageQuery.thy ===== *)
theory BackstageQuery
  imports Schema Catalog "HOL-Library.Multiset"
begin

text \<open>
  The queries on the catalog, \<^verbatim>\<open>util.go\<close>, \<^verbatim>\<open>apis.go\<close>, \<^verbatim>\<open>components.go\<close>, \<^verbatim>\<open>resources.go\<close> and
  \<^verbatim>\<open>entities.go\<close> of \<^verbatim>\<open>pkg/cmd/cli/backstage\<close>: listing the entities of a kind, by tags if the client
  is set up for it, and fetching entities by name.

  \<^verbatim>\<open>sort.Strings\<close> sorts in place, so a comparison of tags returns both slices as it leaves them:
  the tags of an entity in a filtered list come out sorted.
\<close>

section \<open>Keys and tags\<close>

definition ENTITIES_URI :: string where "ENTITIES_URI = ''/entities''"
definition QUERY_URI :: string where "QUERY_URI = ''/entities/by-query''"
definition DEFAULT_NS :: string where "DEFAULT_NS = ''default''"

definition COMPONENT_URI :: "string \<Rightarrow> string \<Rightarrow> string" where
  "COMPONENT_URI namespace name = ''/entities/by-name/component/'' @ namespace @ ''/'' @ name"

definition RESOURCE_URI :: "string \<Rightarrow> string \<Rightarrow> string" where
  "RESOURCE_URI namespace name = ''/entities/by-name/resource/'' @ namespace @ ''/'' @ name"

definition API_URI :: "string \<Rightarrow> string \<Rightarrow> string" where
  "API_URI namespace name = ''/entities/by-name/api/'' @ namespace @ ''/'' @ name"

definition append_key :: "string \<Rightarrow> string \<Rightarrow> string list go_map \<Rightarrow> string list go_map" where
  "append_key namespace name keys =
     AList.update namespace ((case map_of keys namespace of None \<Rightarrow> [] | Some arr \<Rightarrow> arr) @ [name]) keys"

fun build_keys :: "string list \<Rightarrow> string list go_map \<Rightarrow> string list go_map" where
  "build_keys [] keys = keys"
| "build_keys (arg # args) keys =
     (let array = go_split (CHR '':'') arg
      in if length array = 1 then build_keys args (append_key DEFAULT_NS arg keys)
         else build_keys args (append_key (array ! 0) (array ! 1) keys))"

definition buildKeys :: "string list \<Rightarrow> string list go_map" where
  "buildKeys args = build_keys args []"

definition tagsIncluded :: "string list \<Rightarrow> string list \<Rightarrow> bool \<times> string list \<times> string list" where
  "tagsIncluded args tags =
     (if length tags < length args then (False, args, tags)
      else let args = sort args; tags = sort tags
           in (list_all (\<lambda>arg. list_ex (\<lambda>tag. arg = tag) tags) args, args, tags))"

definition tagsMatch :: "string list \<Rightarrow> string list \<Rightarrow> bool \<times> string list \<times> string list" where
  "tagsMatch args tags =
     (if length args \<noteq> length tags then (False, args, tags)
      else let args = sort args; tags = sort tags
           in (list_all (\<lambda>i. args ! i = tags ! i) [0..<length tags], args, tags))"

definition updateQParams :: "string \<Rightarrow> string \<Rightarrow> string go_map" where
  "updateQParams kind specType =
     (let filterValue = ''kind='' @ kind @ '',spec.type='' @ specType;
          filterValue = (if equal_fold kind ''api'' then ''kind='' @ kind else filterValue)
      in [(''filter'', filterValue)])"

definition getWithKindParamFromBackstage ::
    "'b transport \<Rightarrow> BackstageRESTClientWrapper \<Rightarrow> string \<Rightarrow> string go_map \<Rightarrow> 'b \<Rightarrow> (payload \<times> go_error) \<times> 'b" where
  "getWithKindParamFromBackstage send k url qparams b =
     (let req = bkstg_request GET url k NoPayload;
          req = (if map_of qparams ''filter'' \<noteq> None then req\<lparr>rq_query := qparams\<rparr> else req)
      in case send req b of
           (Inl err, b') \<Rightarrow> ((NoPayload, Some err), b')
         | (Inr resp, b') \<Rightarrow> (processFetch resp url ''get'', b'))"

section \<open>Listing the entities of a kind\<close>

text \<open>The structs \<^verbatim>\<open>listAPIs\<close>, \<^verbatim>\<open>listComponents\<close> and \<^verbatim>\<open>listResources\<close> differ in the type of the items.\<close>

definition list_fields :: "go_field list \<Rightarrow> go_field list" where
  "list_fields entity =
     [(''items'', False, GSlice (GStruct entity)), (''totalItems'', False, GInt), (''pageInfo'', False, GAny)]"

definition get_field :: "go_field list \<Rightarrow> string \<Rightarrow> go_value \<Rightarrow> go_value" where
  "get_field fs k v =
     (case (field_index fs k, v) of (Some i, VStruct vs) \<Rightarrow> vs ! i | _ \<Rightarrow> VNil)"

definition set_field :: "go_field list \<Rightarrow> string \<Rightarrow> go_value \<Rightarrow> go_value \<Rightarrow> go_value" where
  "set_field fs k x v =
     (case (field_index fs k, v) of (Some i, VStruct vs) \<Rightarrow> VStruct (vs[i := x]) | _ \<Rightarrow> v)"

fun elements :: "go_value \<Rightarrow> go_value list" where
  "elements (VSlice vs) = vs"
| "elements _ = []"

fun text_of :: "go_value \<Rightarrow> string" where
  "text_of (VString s) = s"
| "text_of _ = ''''"

definition item_tags :: "go_field list \<Rightarrow> go_value \<Rightarrow> string list" where
  "item_tags entity item =
     map text_of (elements (get_field EntityMeta_fields ''tags'' (get_field entity ''metadata'' item)))"

text \<open>Sorting a nil slice leaves it nil.\<close>

definition put_tags :: "go_field list \<Rightarrow> string list \<Rightarrow> go_value \<Rightarrow> go_value" where
  "put_tags entity tags item =
     (let meta = get_field entity ''metadata'' item
      in if get_field EntityMeta_fields ''tags'' meta = VNil then item
         else set_field entity ''metadata''
                (set_field EntityMeta_fields ''tags'' (VSlice (map VString tags)) meta) item)"

fun filter_items ::
    "go_field list \<Rightarrow> (string list \<Rightarrow> string list \<Rightarrow> bool \<times> string list \<times> string list) \<Rightarrow> string list
      \<Rightarrow> go_value list \<Rightarrow> go_value list" where
  "filter_items entity matches args [] = []"
| "filter_items entity matches args (item # items) =
     (case matches args (item_tags entity item) of
        (ok, args, tags) \<Rightarrow>
          if ok then put_tags entity tags item # filter_items entity matches args items
          else filter_items entity matches args items)"

text \<open>The switch of the loops over the items.\<close>

definition filtered :: "BackstageRESTClientWrapper \<Rightarrow> go_field list \<Rightarrow> string list \<Rightarrow> go_value \<Rightarrow> go_value" where
  "filtered b entity args items =
     VSlice (filter_items entity (if \<not> bw_Subset b then tagsMatch else tagsIncluded) args (elements items))"

definition list_kind ::
    "'b transport \<Rightarrow> BackstageRESTClientWrapper \<Rightarrow> string \<Rightarrow> string \<Rightarrow> go_field list \<Rightarrow> (go_value \<Rightarrow> go_value)
      \<Rightarrow> 'b \<Rightarrow> (payload \<times> go_error) \<times> 'b" where
  "list_kind send b kind specType entity select w =
     (case getWithKindParamFromBackstage send b (bw_RootURL b @ QUERY_URI) (updateQParams kind specType) w of
        ((str, Some err), w') \<Rightarrow> ((NoPayload, Some err), w')
      | ((str, None), w') \<Rightarrow>
          (case unmarshal (GStruct (list_fields entity)) str of
             (l, Some err) \<Rightarrow> ((str, Some err), w')
           | (l, None) \<Rightarrow>
               ((JsonPayload (Some (encode (GSlice (GStruct entity)) (select (get_field (list_fields entity) ''items'' l)))),
                 None), w')))"

definition ListAPIs ::
    "'b transport \<Rightarrow> BackstageRESTClientWrapper \<Rightarrow> string list \<Rightarrow> 'b \<Rightarrow> (payload \<times> go_error) \<times> 'b" where
  "ListAPIs send b args =
     list_kind send b ''api'' OPENAPI_API_TYPE ApiEntity_fields
       (\<lambda>items. if bw_Tags b \<and> \<not> bw_Subset b then filtered b ApiEntity_fields args items else items)"

definition ListComponents ::
    "'b transport \<Rightarrow> BackstageRESTClientWrapper \<Rightarrow> string list \<Rightarrow> 'b \<Rightarrow> (payload \<times> go_error) \<times> 'b" where
  "ListComponents send b args =
     list_kind send b ''component'' COMPONENT_TYPE ComponentEntity_fields
       (\<lambda>items. if bw_Tags b \<and> \<not> bw_Subset b then filtered b ComponentEntity_fields args items else items)"

definition ListResources ::
    "'b transport \<Rightarrow> BackstageRESTClientWrapper \<Rightarrow> string list \<Rightarrow> 'b \<Rightarrow> (payload \<times> go_error) \<times> 'b" where
  "ListResources send b args =
     list_kind send b ''resource'' RESOURCE_TYPE ResourceEntity_fields
       (\<lambda>items. if bw_Tags b then filtered b ResourceEntity_fields args items else items)"

definition ListEntities ::
    "'b transport \<Rightarrow> BackstageRESTClientWrapper \<Rightarrow> 'b \<Rightarrow> (json list \<times> go_error) \<times> 'b" where
  "ListEntities send b w =
     (case getFromBackstage send b (bw_RootURL b @ ENTITIES_URI) w of
        ((str, Some err), w') \<Rightarrow> (([], Some err), w')
      | ((str, None), w') \<Rightarrow> (json_Indent str, w'))"

section \<open>Fetching entities by name\<close>

text \<open>The text a query returns: a list, or the documents fetched one by one.\<close>

datatype query_output = Listed payload | Fetched "json list"

definition get_kind ::
    "'b transport \<Rightarrow> BackstageRESTClientWrapper \<Rightarrow> (string \<Rightarrow> string \<Rightarrow> string) \<Rightarrow> string list \<Rightarrow> 'b
      \<Rightarrow> (query_output \<times> go_error) \<times> 'b" where
  "get_kind send b uri args w =
     (case get_all send b
             (concat (map (\<lambda>(namespace, names). map (\<lambda>name. bw_RootURL b @ uri namespace name) names) (buildKeys args)))
             [] w of
        ((docs, err), w') \<Rightarrow> ((Fetched docs, err), w'))"

definition listed :: "(payload \<times> go_error) \<times> 'b \<Rightarrow> (query_output \<times> go_error) \<times> 'b" where
  "listed r = (case r of ((p, err), w) \<Rightarrow> ((Listed p, err), w))"

definition GetAPI ::
    "'b transport \<Rightarrow> BackstageRESTClientWrapper \<Rightarrow> string list \<Rightarrow> 'b \<Rightarrow> (query_output \<times> go_error) \<times> 'b" where
  "GetAPI send b args w =
     (if length args = 0 \<or> bw_Tags b then listed (ListAPIs send b args w) else get_kind send b API_URI args w)"

definition GetComponent ::
    "'b transport \<Rightarrow> BackstageRESTClientWrapper \<Rightarrow> string list \<Rightarrow> 'b \<Rightarrow> (query_output \<times> go_error) \<times> 'b" where
  "GetComponent send b args w =
     (if length args = 0 \<or> bw_Tags b then listed (ListComponents send b args w)
      else get_kind send b COMPONENT_URI args w)"

definition GetResource ::
    "'b transport \<Rightarrow> BackstageRESTClientWrapper \<Rightarrow> string list \<Rightarrow> 'b \<Rightarrow> (query_output \<times> go_error) \<times> 'b" where
  "GetResource send b args w =
     (if length args = 0 \<or> bw_Tags b then listed (ListResources send b args w)
      else get_kind send b RESOURCE_URI args w)"


text \<open>The arguments saved in a query's tags; no call of it is left.\<close>

definition pullSavedArgsFromQueryParams ::
    "BackstageRESTClientWrapper \<Rightarrow> string go_map \<Rightarrow> string list \<times> string go_map" where
  "pullSavedArgsFromQueryParams b qparms =
     (if bw_Tags b
      then (go_split (CHR '' '') (case map_of qparms ''metadata.tags'' of None \<Rightarrow> '''' | Some v \<Rightarrow> v),
            AList.delete ''metadata.tags'' qparms)
      else ([], qparms))"

section \<open>Facts\<close>

lemma sort_eq_iff_mset: "sort xs = sort ys \<longleftrightarrow> mset xs = mset (ys :: string list)"
proof
  assume eq: "mset xs = mset ys"
  have "mset (sort ys) = mset xs" unfolding eq mset_sort ..
  from properties_for_sort [OF this sorted_sort] show "sort xs = sort ys" .
next
  assume eq: "sort xs = sort ys"
  have "mset (sort xs) = mset (sort ys)" unfolding eq ..
  then show "mset xs = mset ys" unfolding mset_sort .
qed

lemma nth_all_eq: "length xs = length ys \<Longrightarrow> list_all (\<lambda>i. xs ! i = ys ! i) [0..<length ys] \<longleftrightarrow> xs = ys"
  by (simp add: list_all_iff list_eq_iff_nth_eq [of xs ys] Ball_def)

lemma tagsMatch_iff: "fst (tagsMatch args tags) \<longleftrightarrow> mset args = mset tags"
proof (cases "length args = length tags")
  case True
  then have "length (sort args) = length (sort tags)" by simp
  from nth_all_eq [OF this] True show ?thesis by (simp add: tagsMatch_def sort_eq_iff_mset)
next
  case False
  then show ?thesis by (auto simp: tagsMatch_def dest: mset_eq_length)
qed

lemma tagsIncluded_iff: "fst (tagsIncluded args tags) \<longleftrightarrow> length args \<le> length tags \<and> set args \<subseteq> set tags"
  by (auto simp: tagsIncluded_def Let_def list_all_iff list_ex_iff)

text \<open>The reference: which entities a list of tags selects.\<close>

definition selects :: "BackstageRESTClientWrapper \<Rightarrow> string list \<Rightarrow> string list \<Rightarrow> bool" where
  "selects b args tags \<longleftrightarrow>
     (if bw_Subset b then length args \<le> length tags \<and> set args \<subseteq> set tags else mset args = mset tags)"

lemma matches_iff: "fst ((if \<not> bw_Subset b then tagsMatch else tagsIncluded) args tags) = selects b args tags"
  by (simp add: selects_def tagsMatch_iff tagsIncluded_iff)

lemma matches_args:
  "matches = (if \<not> bw_Subset b then tagsMatch else tagsIncluded) \<Longrightarrow>
   fst (snd (matches args tags)) \<in> {args, sort args}
   \<and> (fst (matches args tags) \<longrightarrow> snd (snd (matches args tags)) = sort tags)"
  by (auto simp: tagsMatch_def tagsIncluded_def Let_def split: if_splits)

lemma selects_sort [simp]: "selects b (sort args) = selects b args"
  by (rule ext) (simp add: selects_def)

lemma filter_items_eq:
  fixes b
  defines "matches \<equiv> (if \<not> bw_Subset b then tagsMatch else tagsIncluded)"
  shows "filter_items entity matches args items
    = map (\<lambda>item. put_tags entity (sort (item_tags entity item)) item)
        (filter (\<lambda>item. selects b args (item_tags entity item)) items)"
proof (induction items arbitrary: args)
  case (Cons item items)
  obtain ok args' tags where m: "matches args (item_tags entity item) = (ok, args', tags)"
    by (cases "matches args (item_tags entity item)")
  have ok: "ok = selects b args (item_tags entity item)"
    using matches_iff [of b args "item_tags entity item"] m by (simp add: matches_def)
  have args': "selects b args' = selects b args" and tags: "ok \<Longrightarrow> tags = sort (item_tags entity item)"
    using matches_args [of matches b args "item_tags entity item"] m by (auto simp: matches_def)
  show ?case using tags by (simp add: m Cons.IH args' ok [symmetric])
qed simp

text \<open>Every argument gives one key, under its namespace.\<close>

definition key_of :: "string \<Rightarrow> string \<times> string" where
  "key_of arg =
     (let array = go_split (CHR '':'') arg
      in if length array = 1 then (DEFAULT_NS, arg) else (array ! 0, array ! 1))"

definition key_pairs :: "string list go_map \<Rightarrow> (string \<times> string) list" where
  "key_pairs keys = concat (map (\<lambda>(namespace, names). map (Pair namespace) names) keys)"

lemma key_pairs_append:
  "mset (key_pairs (append_key namespace name keys)) = mset (key_pairs keys) + {#(namespace, name)#}"
proof (induction keys)
  case (Cons kv keys)
  then show ?case by (cases kv) (auto simp: append_key_def key_pairs_def split: option.splits)
qed (simp add: append_key_def key_pairs_def)

lemma build_keys_pairs: "mset (key_pairs (build_keys args keys)) = mset (key_pairs keys) + mset (map key_of args)"
proof (induction args arbitrary: keys)
  case (Cons arg args)
  show ?case by (simp add: Let_def Cons.IH key_pairs_append key_of_def)
qed simp

lemma buildKeys_pairs: "mset (key_pairs (buildKeys args)) = mset (map key_of args)"
  using build_keys_pairs [of args "[]"] by (simp add: buildKeys_def key_pairs_def [of "[]"])

lemma get_all_ok:
  assumes "\<And>url w. url \<in> set urls \<Longrightarrow> \<exists>w'. getFromBackstage send b url w = ((JsonPayload (Some (doc url)), None), w')"
  shows "\<exists>w'. get_all send b urls buffer w = ((buffer @ map doc urls, None), w')"
  using assms
proof (induction urls arbitrary: buffer w)
  case (Cons url urls)
  obtain w1 where w1: "getFromBackstage send b url w = ((JsonPayload (Some (doc url)), None), w1)"
    using Cons.prems [of url w] by auto
  have "\<exists>w'. get_all send b urls (buffer @ [doc url]) w1 = (((buffer @ [doc url]) @ map doc urls, None), w')"
    using Cons.prems by (intro Cons.IH) simp
  with w1 show ?case by (simp add: json_Indent_def)
qed simp


lemma getWith_untagged:
  "getWithKindParamFromBackstage send (b\<lparr>bw_Tags := x\<rparr>) url q w = getWithKindParamFromBackstage send b url q w"
  by (simp add: getWithKindParamFromBackstage_def bkstg_request_def)

section \<open>Properties\<close>

text \<open>
  The comparisons of tags, which sort their arguments in place, decide equality as multisets, and
  inclusion as sets of no more arguments than tags.
\<close>

theorem tag_comparisons:
  "(fst (tagsMatch args tags) \<longleftrightarrow> mset args = mset tags)
   \<and> (fst (tagsIncluded args tags) \<longleftrightarrow> length args \<le> length tags \<and> set args \<subseteq> set tags)"
  by (simp add: tagsMatch_iff tagsIncluded_iff)

text \<open>
  C22. A listing of resources by tags is the page of the catalog, in its order, restricted to the
  entities the arguments select, each with its tags sorted; the sorting of the arguments on the way
  changes nothing.
\<close>

theorem resources_by_tags:
  assumes "getWithKindParamFromBackstage send b (bw_RootURL b @ QUERY_URI) (updateQParams ''resource'' RESOURCE_TYPE) w
           = ((page, None), w')"
    and "unmarshal (GStruct (list_fields ResourceEntity_fields)) page = (l, None)" and "bw_Tags b"
  shows "ListResources send b args w =
    ((JsonPayload (Some (JArr
        (map (\<lambda>item. encode (GStruct ResourceEntity_fields)
                (put_tags ResourceEntity_fields (sort (item_tags ResourceEntity_fields item)) item))
          (filter (\<lambda>item. selects b args (item_tags ResourceEntity_fields item))
            (elements (get_field (list_fields ResourceEntity_fields) ''items'' l)))))), None), w')"
  by (simp only: ListResources_def list_kind_def assms if_True prod.case option.case filtered_def filter_items_eq
      encode.simps map_map o_def)

text \<open>
  A listing of APIs or of components by a subset of their tags is not filtered at all: it is the
  listing without tags, whatever the arguments.
\<close>

theorem subset_listing_unfiltered:
  assumes "bw_Subset b"
  shows "ListAPIs send b args w = ListAPIs send (b\<lparr>bw_Tags := False\<rparr>) args' w
    \<and> ListComponents send b args w = ListComponents send (b\<lparr>bw_Tags := False\<rparr>) args' w"
  using assms by (simp add: ListAPIs_def ListComponents_def list_kind_def getWith_untagged)

text \<open>
  When Backstage answers every request, \<open>GetComponent\<close> fetches one document for each argument,
  from the namespace before its colon or else the default one: none is lost in the map of keys.
\<close>

theorem components_by_name:
  assumes "\<not> bw_Tags b" and "args \<noteq> []"
    and "\<forall>url w. \<exists>w'. getFromBackstage send b url w = ((JsonPayload (Some (doc url)), None), w')"
  shows "\<exists>docs w'. GetComponent send b args w = ((Fetched docs, None), w')
    \<and> mset docs = mset (map (\<lambda>arg. doc (bw_RootURL b @ COMPONENT_URI (fst (key_of arg)) (snd (key_of arg)))) args)"
proof -
  let ?url = "\<lambda>key. bw_RootURL b @ COMPONENT_URI (fst key) (snd key)"
  have urls: "concat (map (\<lambda>(namespace, names). map (\<lambda>name. bw_RootURL b @ COMPONENT_URI namespace name) names)
      (buildKeys args)) = map ?url (key_pairs (buildKeys args))"
    by (simp add: key_pairs_def map_concat comp_def case_prod_unfold)
  obtain w' where "get_all send b (map ?url (key_pairs (buildKeys args))) [] w
      = (([] @ map doc (map ?url (key_pairs (buildKeys args))), None), w')"
    using get_all_ok [of "map ?url (key_pairs (buildKeys args))" send b doc "[]" w] assms(3) by blast
  then have "GetComponent send b args w = ((Fetched (map doc (map ?url (key_pairs (buildKeys args)))), None), w')"
    using assms(1,2) by (simp add: GetComponent_def get_kind_def urls)
  moreover have "mset (map doc (map ?url (key_pairs (buildKeys args)))) = mset (map (doc \<circ> ?url \<circ> key_of) args)"
    using buildKeys_pairs [of args] by (simp flip: image_mset.compositionality)
  ultimately show ?thesis by (auto simp: comp_def)
qed


section \<open>The properties at concrete inputs\<close>

definition example_client :: "bool \<Rightarrow> bool \<Rightarrow> BackstageRESTClientWrapper" where
  "example_client tags sub = SetupBackstageRESTClient ''http://b'' '''' tags sub"

definition example_resource :: "string list \<Rightarrow> json" where
  "example_resource tags = JObj [(''kind'', JStr ''Resource''),
     (''metadata'', JObj [(''name'', JStr ''m''), (''tags'', JArr (map JStr tags))])]"

definition example_page :: payload where
  "example_page = JsonPayload (Some (JObj
     [(''items'', JArr [example_resource [''b'', ''a''], example_resource [''c'']]), (''totalItems'', JNum 2)]))"

definition example_catalog :: "unit transport" where
  "example_catalog rq w = (Inr \<lparr>rs_status = 200, rs_body = example_page\<rparr>, w)"

lemma example_query:
  "getWithKindParamFromBackstage example_catalog b url q w = ((example_page, None), w)"
  by (simp add: getWithKindParamFromBackstage_def example_catalog_def processFetch_def)

theorem resources_by_tags_witness:
  "\<exists>item. ListResources example_catalog (example_client True False) [''a'', ''b''] () = ((JsonPayload (Some (JArr [item])), None), ())"
proof -
  let ?t = "GStruct (list_fields ResourceEntity_fields)"
  let ?b = "example_client True False"
  let ?items = "elements (get_field (list_fields ResourceEntity_fields) ''items'' (fst (unmarshal ?t example_page)))"
  have "snd (unmarshal ?t example_page) = None" by code_simp
  then have l: "unmarshal ?t example_page = (fst (unmarshal ?t example_page), None)" by (simp add: prod_eq_iff)
  have tags: "map (item_tags ResourceEntity_fields) ?items = [[''b'', ''a''], [''c'']]" by code_simp
  have b: "bw_Tags ?b" "\<not> bw_Subset ?b" by (simp_all add: example_client_def SetupBackstageRESTClient_def)
  have "map (item_tags ResourceEntity_fields) (filter (\<lambda>item. selects ?b [''a'', ''b''] (item_tags ResourceEntity_fields item)) ?items)
      = filter (selects ?b [''a'', ''b'']) [[''b'', ''a''], [''c'']]"
    by (simp only: filter_map comp_def flip: tags)
  also have "\<dots> = [[''b'', ''a'']]" using b by (simp add: selects_def)
  finally obtain x where "filter (\<lambda>item. selects ?b [''a'', ''b''] (item_tags ResourceEntity_fields item)) ?items = [x]"
    by (auto simp: map_eq_Cons_conv)
  with resources_by_tags [OF example_query l b(1), of "[''a'', ''b'']"] show ?thesis by (simp only:) simp
qed

theorem subset_listing_unfiltered_witness:
  "ListAPIs example_catalog (example_client True True) [''a''] () = ListAPIs example_catalog (example_client False True) [] ()"
proof -
  have "bw_Subset (example_client True True)" "example_client False True = (example_client True True)\<lparr>bw_Tags := False\<rparr>"
    by (simp_all add: example_client_def SetupBackstageRESTClient_def)
  with subset_listing_unfiltered [of "example_client True True" example_catalog "[''a'']" "()" "[]"] show ?thesis by simp
qed

text \<open>A catalog that answers every request with its path.\<close>

definition example_names :: "nat transport" where
  "example_names rq n = (Inr \<lparr>rs_status = 200, rs_body = JsonPayload (Some (JStr (rq_url rq)))\<rparr>, Suc n)"

theorem components_by_name_witness:
  "\<exists>docs n. GetComponent example_names (example_client False False) [''m'', ''ns:k''] 0 = ((Fetched docs, None), n)
     \<and> mset docs = {#JStr ''http://b/api/catalog/entities/by-name/component/default/m'',
         JStr ''http://b/api/catalog/entities/by-name/component/ns/k''#}"
proof -
  let ?b = "example_client False False"
  have get: "\<forall>url w. \<exists>w'. getFromBackstage example_names ?b url w = ((JsonPayload (Some (JStr url)), None), w')"
    by (simp add: getFromBackstage_def example_names_def processFetch_def bkstg_request_def)
  have b: "\<not> bw_Tags ?b" "[''m'', ''ns:k''] \<noteq> []" by (simp_all add: example_client_def SetupBackstageRESTClient_def)
  have "map (\<lambda>arg. JStr (bw_RootURL ?b @ COMPONENT_URI (fst (key_of arg)) (snd (key_of arg)))) [''m'', ''ns:k'']
      = [JStr ''http://b/api/catalog/entities/by-name/component/default/m'',
         JStr ''http://b/api/catalog/entities/by-name/component/ns/k'']"
    by code_simp
  with components_by_name [OF b get, of 0] show ?thesis by (simp only: mset.simps)
qed

section \<open>The client's own parser of a location\<close>

text \<open>
  The client has a method \<^verbatim>\<open>ParseImportLocationMap\<close> beside the function of \<^verbatim>\<open>pkg/rest/backstage.go\<close>,
  which the storage service calls; nothing calls the method.  It reads the location, and if there is none that is an object, the fields of the response itself.
\<close>

definition bw_ParseImportLocationMap ::
    "BackstageRESTClientWrapper \<Rightarrow> json go_map \<Rightarrow> string \<times> string \<times> bool" where
  "bw_ParseImportLocationMap b retJSON =
     (case map_of retJSON ''location'' of
        Some (JObj ms) \<Rightarrow>
          (sprintf_s (map_of (any_members ms) ''id''), sprintf_s (map_of (any_members ms) ''target''), True)
      | _ \<Rightarrow>
          (case (map_of retJSON ''id'', map_of retJSON ''target'') of
             (Some idi, Some targeti) \<Rightarrow> (sprintf_s (Some idi), sprintf_s (Some targeti), True)
           | _ \<Rightarrow> ('''', '''', False)))"

text \<open>The two are one function.\<close>

lemma bw_ParseImportLocationMap_same: "bw_ParseImportLocationMap b retJSON = ParseImportLocationMap retJSON"
  by (simp add: bw_ParseImportLocationMap_def ParseImportLocationMap_def Let_def split: option.split json.split)

end
