(* ===== verification/ConfigMapStore.thy ===== *)
theory ConfigMapStore
  imports Wire
begin

text \<open>
  The storage tier: the Go interface \<^verbatim>\<open>BridgeStorage\<close> of \<^verbatim>\<open>pkg/types/storage.go\<close> as a record of
  operations, the contract its clients rely on as the locale \<open>bridge_storage\<close>, and its provider
  \<^verbatim>\<open>ConfigMapBridgeStorage\<close> of \<^verbatim>\<open>pkg/cmd/server/storage/configmap/storage.go\<close>.

  The Kubernetes API server is not part of the program.  Its typed client is the parameter
  \<open>CoreV1\<close>, a record of calls on a world \<open>'w\<close> in which each call may fail at any time;
  \<open>k8s_object\<close> is the object the server holds, which only the specification reads.
\<close>

section \<open>The interface\<close>

record 's BridgeStorage =
  bs_Fetch :: "string \<Rightarrow> 's \<Rightarrow> (StorageBody \<times> go_error) \<times> 's"
  bs_Upsert :: "string \<Rightarrow> StorageBody \<Rightarrow> 's \<Rightarrow> go_error \<times> 's"
  bs_Remove :: "string \<Rightarrow> 's \<Rightarrow> go_error \<times> 's"
  bs_List :: "'s \<Rightarrow> (string list \<times> go_error) \<times> 's"

text \<open>
  What a client may rely on, for a store seen as a map from keys to bodies.  A call that returns
  an error may or may not have taken effect (a lost reply), but never touches another key.
\<close>

locale bridge_storage =
  fixes B :: "'s BridgeStorage"
    and view :: "'s \<Rightarrow> string \<Rightarrow> StorageBody option"
    and invar :: "'s \<Rightarrow> bool"
  assumes fetch_keeps: "invar s \<Longrightarrow> bs_Fetch B k s = (r, s') \<Longrightarrow> invar s' \<and> view s' = view s"
    and fetch_value: "invar s \<Longrightarrow> bs_Fetch B k s = ((sb, None), s') \<Longrightarrow>
      sb = (case view s k of None \<Rightarrow> StorageBody_zero | Some b \<Rightarrow> b)"
    and upsert_keeps: "invar s \<Longrightarrow> bs_Upsert B k b s = (e, s') \<Longrightarrow>
      invar s' \<and> (view s' = view s \<or> view s' = (view s)(k \<mapsto> b))"
    and upsert_effect: "invar s \<Longrightarrow> bs_Upsert B k b s = (None, s') \<Longrightarrow> view s' = (view s)(k \<mapsto> b)"
    and remove_keeps: "invar s \<Longrightarrow> bs_Remove B k s = (e, s') \<Longrightarrow>
      invar s' \<and> (view s' = view s \<or> view s' = (view s)(k := None))"
    and remove_effect: "invar s \<Longrightarrow> bs_Remove B k s = (None, s') \<Longrightarrow> view s' = (view s)(k := None)"
    and list_keeps: "invar s \<Longrightarrow> bs_List B s = (rl, s') \<Longrightarrow> invar s' \<and> view s' = view s"
    and list_value: "invar s \<Longrightarrow> bs_List B s = ((ks, None), s') \<Longrightarrow> set ks = dom (view s) \<and> distinct ks"
begin

lemma fetch_after_upsert:
  assumes "invar s" "bs_Upsert B k b s = (None, s1)" "bs_Fetch B k' s1 = ((sb, None), s2)"
  shows "sb = (if k' = k then b else case view s k' of None \<Rightarrow> StorageBody_zero | Some b' \<Rightarrow> b')"
  using assms upsert_keeps [OF assms(1,2)] upsert_effect [OF assms(1,2)] fetch_value [of s1 k' sb s2]
  by simp

lemma list_after_remove:
  assumes "invar s" "bs_Remove B k s = (None, s1)" "bs_List B s1 = ((ks, None), s2)"
  shows "set ks = dom (view s) - {k}"
  using assms remove_keeps [OF assms(1,2)] remove_effect [OF assms(1,2)] list_value [of s1 ks s2]
  by simp

end

section \<open>The Kubernetes client\<close>

record configmap =
  cm_Name :: string
  cm_ResourceVersion :: string
  cm_BinaryData :: "json_text go_map option"

datatype k8s_error = NotFound | K8sError string

definition k8s_err :: "k8s_error \<Rightarrow> string" where
  "k8s_err e = (case e of NotFound \<Rightarrow> ''not found'' | K8sError m \<Rightarrow> m)"

text \<open>
  \<open>k8s_ticks\<close> is how often, after the first time, a poll of five seconds can run its condition
  before it times out: it depends on how long the calls take, so it is read off the world.
\<close>

record 'w CoreV1 =
  k8s_Get :: "string \<Rightarrow> string \<Rightarrow> 'w \<Rightarrow> (k8s_error + configmap) \<times> 'w"
  k8s_Update :: "string \<Rightarrow> configmap \<Rightarrow> 'w \<Rightarrow> (k8s_error + configmap) \<times> 'w"
  k8s_Create :: "string \<Rightarrow> configmap \<Rightarrow> 'w \<Rightarrow> (k8s_error + configmap) \<times> 'w"
  k8s_ticks :: "'w \<Rightarrow> nat"
  k8s_object :: "string \<Rightarrow> string \<Rightarrow> 'w \<Rightarrow> configmap option"

definition go_map_ok :: "'v go_map option \<Rightarrow> bool" where
  "go_map_ok m \<longleftrightarrow> (case m of None \<Rightarrow> True | Some l \<Rightarrow> distinct (map fst l))"

definition k8s_same :: "'w CoreV1 \<Rightarrow> 'w \<Rightarrow> 'w \<Rightarrow> bool" where
  "k8s_same cl w w' \<longleftrightarrow> (\<forall>ns n. k8s_object cl ns n w' = k8s_object cl ns n w)"

text \<open>
  The content of an object is its data as a map: the server may keep an empty map as no map, and a
  map has no order.
\<close>

definition cm_content :: "configmap \<Rightarrow> string \<Rightarrow> json_text option" where
  "cm_content cm = map_of (case cm_BinaryData cm of None \<Rightarrow> [] | Some d \<Rightarrow> d)"

definition k8s_stored :: "'w CoreV1 \<Rightarrow> string \<Rightarrow> configmap \<Rightarrow> 'w \<Rightarrow> 'w \<Rightarrow> bool" where
  "k8s_stored cl ns cm w w' \<longleftrightarrow>
     (\<exists>new. k8s_object cl ns (cm_Name cm) w' = Some new \<and> cm_content new = cm_content cm)"

text \<open>
  The documented behaviour of the API the code relies on, while no other client writes the
  object: reading changes nothing and returns the object, after a successful update the object has
  the content it was given, a failed one stores it or changes nothing.
\<close>

definition coreV1_ok :: "'w CoreV1 \<Rightarrow> bool" where
  "coreV1_ok cl \<longleftrightarrow>
     (\<forall>ns n w r w'. k8s_Get cl ns n w = (r, w') \<longrightarrow> k8s_same cl w w' \<and>
        (\<forall>cm. r = Inr cm \<longrightarrow> k8s_object cl ns n w = Some cm)) \<and>
     (\<forall>ns cm w r w'. go_map_ok (cm_BinaryData cm) \<longrightarrow> k8s_Update cl ns cm w = (r, w') \<longrightarrow>
        k8s_stored cl ns cm w w' \<or> ((\<forall>c. r \<noteq> Inr c) \<and> k8s_same cl w w')) \<and>
     (\<forall>ns n w cm. k8s_object cl ns n w = Some cm \<longrightarrow> cm_Name cm = n \<and> go_map_ok (cm_BinaryData cm))"

lemma coreV1_get: "coreV1_ok cl \<Longrightarrow> k8s_Get cl ns n w = (r, w') \<Longrightarrow> k8s_same cl w w'"
  unfolding coreV1_ok_def by blast

lemma coreV1_get_obj: "coreV1_ok cl \<Longrightarrow> k8s_Get cl ns n w = (Inr cm, w') \<Longrightarrow> k8s_object cl ns n w = Some cm"
  unfolding coreV1_ok_def by blast

lemma coreV1_update: "coreV1_ok cl \<Longrightarrow> go_map_ok (cm_BinaryData cm) \<Longrightarrow> k8s_Update cl ns cm w = (r, w') \<Longrightarrow>
    k8s_stored cl ns cm w w' \<or> ((\<forall>c. r \<noteq> Inr c) \<and> k8s_same cl w w')"
  unfolding coreV1_ok_def by blast

lemma coreV1_object: "coreV1_ok cl \<Longrightarrow> k8s_object cl ns n w = Some cm \<Longrightarrow>
    cm_Name cm = n \<and> go_map_ok (cm_BinaryData cm)"
  unfolding coreV1_ok_def by blast

text \<open>\<^verbatim>\<open>wait.PollImmediate\<close>: once at least, then until done or out of time.\<close>

fun poll_immediate :: "nat \<Rightarrow> ('w \<Rightarrow> bool \<times> 'w) \<Rightarrow> 'w \<Rightarrow> go_error \<times> 'w" where
  "poll_immediate n cond w =
     (case cond w of
        (True, w') \<Rightarrow> (None, w')
      | (False, w') \<Rightarrow>
          (case n of
             0 \<Rightarrow> (Some ''timed out waiting for the condition'', w')
           | Suc m \<Rightarrow> poll_immediate m cond w'))"

declare poll_immediate.simps [simp del]

lemma poll_immediate_rule:
  assumes "P w"
    and "\<And>w b w'. P w \<Longrightarrow> cond w = (b, w') \<Longrightarrow> P w' \<and> (b \<longrightarrow> Q w')"
    and "poll_immediate n cond w = (e, w')"
  shows "P w' \<and> (e = None \<longrightarrow> Q w')"
  using assms(1,3)
proof (induction n arbitrary: w)
  case 0
  then show ?case
    using assms(2) [of w] by (subst (asm) poll_immediate.simps) (fastforce split: prod.splits bool.splits)
next
  case (Suc n)
  obtain b w1 where c: "cond w = (b, w1)" by fastforce
  with Suc.prems Suc.IH [of w1] assms(2) [OF Suc.prems(1) c] show ?case
    by (subst (asm) poll_immediate.simps) (auto split: bool.splits)
qed

section \<open>ConfigMapBridgeStorage\<close>

record 'w ConfigMapBridgeStorage =
  cms_cl :: "'w CoreV1"
  cms_ns :: string
  cms_versionMap :: "string go_map"
  cms_world :: 'w

definition cms_Initialize :: "'w CoreV1 \<Rightarrow> string \<Rightarrow> 'w \<Rightarrow> go_error \<times> 'w ConfigMapBridgeStorage" where
  "cms_Initialize cl ns w =
     (let c = \<lparr>cms_cl = cl, cms_ns = ns, cms_versionMap = [], cms_world = w\<rparr>
      in case k8s_Get cl ns StorageConfigMapName w of
           (Inr _, w') \<Rightarrow> (None, c\<lparr>cms_world := w'\<rparr>)
         | (Inl (K8sError m), w') \<Rightarrow> (Some m, c\<lparr>cms_world := w'\<rparr>)
         | (Inl NotFound, w') \<Rightarrow>
             (case k8s_Create cl ns \<lparr>cm_Name = StorageConfigMapName, cm_ResourceVersion = '''',
                      cm_BinaryData = None\<rparr> w' of
                (Inl e, w'') \<Rightarrow> (Some (k8s_err e), c\<lparr>cms_world := w''\<rparr>)
              | (Inr _, w'') \<Rightarrow> (None, c\<lparr>cms_world := w''\<rparr>)))"

text \<open>The condition \<open>Upsert\<close> polls: read the object, set the key, write it back.\<close>

definition cms_upsert_attempt ::
    "'w CoreV1 \<Rightarrow> string \<Rightarrow> string \<Rightarrow> StorageBody \<Rightarrow> 'w \<Rightarrow> bool \<times> 'w" where
  "cms_upsert_attempt cl ns key value w =
     (case k8s_Get cl ns StorageConfigMapName w of
        (Inl _, w') \<Rightarrow> (False, w')
      | (Inr cm, w') \<Rightarrow>
          (let data = (case cm_BinaryData cm of None \<Rightarrow> [] | Some d \<Rightarrow> d);
               buf = Some (marshal_StorageBody value);
               cm = cm\<lparr>cm_BinaryData := Some (AList.update key buf data)\<rparr>
           in case k8s_Update cl ns cm w' of
                (Inl _, w'') \<Rightarrow> (False, w'')
              | (Inr _, w'') \<Rightarrow> (True, w'')))"

definition cms_Upsert ::
    "string \<Rightarrow> StorageBody \<Rightarrow> 'w ConfigMapBridgeStorage \<Rightarrow> go_error \<times> 'w ConfigMapBridgeStorage" where
  "cms_Upsert key value c =
     (let v = (case map_of (cms_versionMap c) key of None \<Rightarrow> '''' | Some v \<Rightarrow> v);
          c = (if map_of (cms_versionMap c) key = None
               then c\<lparr>cms_versionMap := AList.update key v (cms_versionMap c)\<rparr> else c)
      in if sb_LastUpdateTimeSinceEpoch value \<ge> v
         then (let c = c\<lparr>cms_versionMap := AList.update key v (cms_versionMap c)\<rparr>
               in case poll_immediate (k8s_ticks (cms_cl c) (cms_world c))
                         (cms_upsert_attempt (cms_cl c) (cms_ns c) key value) (cms_world c) of
                    (err, w) \<Rightarrow> (err, c\<lparr>cms_world := w\<rparr>))
         else (None, c))"

definition cms_Fetch ::
    "string \<Rightarrow> 'w ConfigMapBridgeStorage \<Rightarrow> (StorageBody \<times> go_error) \<times> 'w ConfigMapBridgeStorage" where
  "cms_Fetch key c =
     (case k8s_Get (cms_cl c) (cms_ns c) StorageConfigMapName (cms_world c) of
        (Inl e, w) \<Rightarrow> ((StorageBody_zero, Some (k8s_err e)), c\<lparr>cms_world := w\<rparr>)
      | (Inr cm, w) \<Rightarrow>
          (case cm_BinaryData cm of
             None \<Rightarrow> ((StorageBody_zero, None), c\<lparr>cms_world := w\<rparr>)
           | Some data \<Rightarrow>
               (case map_of data key of
                  None \<Rightarrow> ((StorageBody_zero, None), c\<lparr>cms_world := w\<rparr>)
                | Some buf \<Rightarrow> (unmarshal_StorageBody buf, c\<lparr>cms_world := w\<rparr>))))"

definition cms_Remove :: "string \<Rightarrow> 'w ConfigMapBridgeStorage \<Rightarrow> go_error \<times> 'w ConfigMapBridgeStorage" where
  "cms_Remove key c =
     (case k8s_Get (cms_cl c) (cms_ns c) StorageConfigMapName (cms_world c) of
        (Inl e, w) \<Rightarrow> (Some (k8s_err e), c\<lparr>cms_world := w\<rparr>)
      | (Inr cm, w) \<Rightarrow>
          (case cm_BinaryData cm of
             None \<Rightarrow> (None, c\<lparr>cms_world := w\<rparr>)
           | Some data \<Rightarrow>
               (case k8s_Update (cms_cl c) (cms_ns c)
                       (cm\<lparr>cm_BinaryData := Some (AList.delete key data)\<rparr>) w of
                  (Inl e, w') \<Rightarrow> (Some (k8s_err e), c\<lparr>cms_world := w'\<rparr>)
                | (Inr _, w') \<Rightarrow> (None, c\<lparr>cms_world := w'\<rparr>))))"

definition cms_List :: "'w ConfigMapBridgeStorage \<Rightarrow> (string list \<times> go_error) \<times> 'w ConfigMapBridgeStorage" where
  "cms_List c =
     (case k8s_Get (cms_cl c) (cms_ns c) StorageConfigMapName (cms_world c) of
        (Inl e, w) \<Rightarrow> (([], Some (k8s_err e)), c\<lparr>cms_world := w\<rparr>)
      | (Inr cm, w) \<Rightarrow>
          ((case cm_BinaryData cm of None \<Rightarrow> [] | Some data \<Rightarrow> map fst data, None), c\<lparr>cms_world := w\<rparr>))"

definition ConfigMapStorage :: "'w ConfigMapBridgeStorage BridgeStorage" where
  "ConfigMapStorage = \<lparr>bs_Fetch = cms_Fetch, bs_Upsert = cms_Upsert, bs_Remove = cms_Remove, bs_List = cms_List\<rparr>"

section \<open>The abstraction and the invariant\<close>

definition cms_data :: "'w CoreV1 \<Rightarrow> string \<Rightarrow> 'w \<Rightarrow> json_text go_map" where
  "cms_data cl ns w =
     (case k8s_object cl ns StorageConfigMapName w of
        None \<Rightarrow> []
      | Some cm \<Rightarrow> (case cm_BinaryData cm of None \<Rightarrow> [] | Some d \<Rightarrow> d))"

definition data_view :: "json_text go_map \<Rightarrow> string \<Rightarrow> StorageBody option" where
  "data_view d k = map_option (\<lambda>buf. fst (unmarshal_StorageBody buf)) (map_of d k)"

definition cms_view :: "'w ConfigMapBridgeStorage \<Rightarrow> string \<Rightarrow> StorageBody option" where
  "cms_view c = data_view (cms_data (cms_cl c) (cms_ns c) (cms_world c))"

definition cms_ok :: "'w ConfigMapBridgeStorage \<Rightarrow> bool" where
  "cms_ok c \<longleftrightarrow> coreV1_ok (cms_cl c) \<and> (\<forall>k v. map_of (cms_versionMap c) k = Some v \<longrightarrow> v = '''')"

lemma data_view_update [simp]:
  "data_view (AList.update k (Some (marshal_StorageBody b)) d) = (data_view d)(k \<mapsto> b)"
  by (auto simp: data_view_def fun_eq_iff)

lemma data_view_delete [simp]: "data_view (AList.delete k d) = (data_view d)(k := None)"
  by (auto simp: data_view_def fun_eq_iff)

lemma dom_data_view: "dom (data_view d) = set (map fst d)"
  by (auto simp: data_view_def dom_map_of_conv_image_fst [symmetric])

lemma cms_data_same: "k8s_same cl w w' \<Longrightarrow> cms_data cl ns w' = cms_data cl ns w"
  by (simp add: k8s_same_def cms_data_def)

lemma data_view_content: "map_of d = map_of d' \<Longrightarrow> data_view d = data_view d'"
  by (simp add: data_view_def fun_eq_iff)

lemma cms_data_stored:
  "k8s_stored cl ns cm w w' \<Longrightarrow> cm_Name cm = StorageConfigMapName \<Longrightarrow> cm_BinaryData cm = Some d \<Longrightarrow>
   data_view (cms_data cl ns w') = data_view d"
  by (auto simp: k8s_stored_def cms_data_def cm_content_def intro: data_view_content)

lemma cms_data_get:
  assumes "coreV1_ok cl" "k8s_Get cl ns StorageConfigMapName w = (Inr cm, w')"
  shows "cms_data cl ns w' = (case cm_BinaryData cm of None \<Rightarrow> [] | Some d \<Rightarrow> d)"
    and "cm_Name cm = StorageConfigMapName" and "go_map_ok (cm_BinaryData cm)"
    and "cms_data cl ns w = cms_data cl ns w'"
proof -
  note same = coreV1_get [OF assms] and obj = coreV1_get_obj [OF assms]
  show "cms_data cl ns w' = (case cm_BinaryData cm of None \<Rightarrow> [] | Some d \<Rightarrow> d)"
    using cms_data_same [OF same, of ns] obj by (simp add: cms_data_def)
  show "cms_data cl ns w = cms_data cl ns w'"
    using cms_data_same [OF same, of ns] by simp
  show "cm_Name cm = StorageConfigMapName" "go_map_ok (cm_BinaryData cm)"
    using coreV1_object [OF assms(1) obj] by simp_all
qed

text \<open>
  One read-modify-write of the object: whatever it reports, the data as a map is what it was or has
  been replaced by the new data, and success means the latter.
\<close>

lemma cms_update_data:
  assumes ok: "coreV1_ok cl" and name: "cm_Name cm = StorageConfigMapName" and d: "distinct (map fst d)"
    and upd: "k8s_Update cl ns (cm\<lparr>cm_BinaryData := Some d\<rparr>) w = (r, w')"
  shows "data_view (cms_data cl ns w') = data_view d
    \<or> (data_view (cms_data cl ns w') = data_view (cms_data cl ns w) \<and> (\<forall>c. r \<noteq> Inr c))"
  using coreV1_update [OF ok _ upd] d name cms_data_same [of cl w w' ns]
    cms_data_stored [of cl ns "cm\<lparr>cm_BinaryData := Some d\<rparr>" w w' d]
  by (auto simp: go_map_ok_def)

lemma cms_upsert_attempt_effect:
  assumes ok: "coreV1_ok cl" and att: "cms_upsert_attempt cl ns k b w = (done, w')"
  shows "(data_view (cms_data cl ns w') = data_view (cms_data cl ns w)
           \<or> data_view (cms_data cl ns w') = (data_view (cms_data cl ns w))(k \<mapsto> b))
    \<and> (done \<longrightarrow> data_view (cms_data cl ns w') = (data_view (cms_data cl ns w))(k \<mapsto> b))"
proof (cases "k8s_Get cl ns StorageConfigMapName w")
  case (Pair r w1)
  show ?thesis
  proof (cases r)
    case (Inl e)
    with Pair att show ?thesis
      using coreV1_get [OF ok Pair] by (auto simp: cms_upsert_attempt_def cms_data_same)
  next
    case (Inr cm)
    let ?d = "case cm_BinaryData cm of None \<Rightarrow> [] | Some d \<Rightarrow> d"
    let ?u = "AList.update k (Some (marshal_StorageBody b)) ?d"
    note get = cms_data_get [OF ok Pair [unfolded Inr]]
    obtain r2 w2 where upd: "k8s_Update cl ns (cm\<lparr>cm_BinaryData := Some ?u\<rparr>) w1 = (r2, w2)" by fastforce
    have "distinct (map fst ?u)"
      using get(3) by (intro distinct_update_keys) (auto simp: go_map_ok_def split: option.splits)
    from cms_update_data [OF ok get(2) this upd] get(1,4)
    have "data_view (cms_data cl ns w2) = (data_view (cms_data cl ns w))(k \<mapsto> b)
        \<or> (data_view (cms_data cl ns w2) = data_view (cms_data cl ns w) \<and> (\<forall>c. r2 \<noteq> Inr c))"
      by (metis data_view_update)
    moreover have "w' = w2 \<and> done = (\<exists>c. r2 = Inr c)"
      using att Pair Inr upd by (auto simp: cms_upsert_attempt_def Let_def split: sum.splits)
    ultimately show ?thesis by auto
  qed
qed

lemma cms_poll_effect:
  assumes ok: "coreV1_ok cl" and poll: "poll_immediate n (cms_upsert_attempt cl ns k b) w = (e, w')"
  shows "(data_view (cms_data cl ns w') = data_view (cms_data cl ns w)
           \<or> data_view (cms_data cl ns w') = (data_view (cms_data cl ns w))(k \<mapsto> b))
    \<and> (e = None \<longrightarrow> data_view (cms_data cl ns w') = (data_view (cms_data cl ns w))(k \<mapsto> b))"
proof -
  let ?v = "data_view (cms_data cl ns w)"
  let ?P = "\<lambda>w'. data_view (cms_data cl ns w') = ?v \<or> data_view (cms_data cl ns w') = ?v(k \<mapsto> b)"
  let ?Q = "\<lambda>w'. data_view (cms_data cl ns w') = ?v(k \<mapsto> b)"
  have "?P w' \<and> (e = None \<longrightarrow> ?Q w')"
  proof (rule poll_immediate_rule [where P = ?P and Q = ?Q, OF _ _ poll])
    fix w1 d w2
    assume "?P w1" and "cms_upsert_attempt cl ns k b w1 = (d, w2)"
    with cms_upsert_attempt_effect [OF ok this(2)] show "?P w2 \<and> (d \<longrightarrow> ?Q w2)" by auto
  qed simp
  then show ?thesis .
qed

lemma cms_Upsert_effect:
  assumes ok: "cms_ok c" and up: "cms_Upsert k b c = (e, c')"
  shows "cms_ok c' \<and> (cms_view c' = cms_view c \<or> cms_view c' = (cms_view c)(k \<mapsto> b))
    \<and> (e = None \<longrightarrow> cms_view c' = (cms_view c)(k \<mapsto> b))"
proof -
  let ?cl = "cms_cl c"
  let ?ns = "cms_ns c"
  have kube: "coreV1_ok ?cl" using ok by (simp add: cms_ok_def)
  have empty: "(case map_of (cms_versionMap c) k of None \<Rightarrow> '''' | Some v \<Rightarrow> v) = ''''"
    using ok by (auto simp: cms_ok_def split: option.splits)
  obtain w' where poll: "poll_immediate (k8s_ticks ?cl (cms_world c)) (cms_upsert_attempt ?cl ?ns k b)
      (cms_world c) = (e, w')"
    and c': "cms_cl c' = ?cl" "cms_ns c' = ?ns" "cms_world c' = w'"
    and vm: "\<forall>x v. map_of (cms_versionMap c') x = Some v \<longrightarrow> v = ''''"
    using up ok unfolding cms_Upsert_def empty
    by (auto simp: Let_def cms_ok_def split: prod.splits if_splits)
  have "cms_ok c'" using kube vm c' by (simp add: cms_ok_def)
  then show ?thesis
    using cms_poll_effect [OF kube poll] by (simp add: cms_view_def c')
qed

lemma cms_Fetch_effect:
  assumes ok: "cms_ok c" and ft: "cms_Fetch k c = ((sb, e), c')"
  shows "cms_ok c' \<and> cms_view c' = cms_view c
    \<and> (e = None \<longrightarrow> sb = (case cms_view c k of None \<Rightarrow> StorageBody_zero | Some b \<Rightarrow> b))"
proof (cases "k8s_Get (cms_cl c) (cms_ns c) StorageConfigMapName (cms_world c)")
  case (Pair r w)
  have kube: "coreV1_ok (cms_cl c)" using ok by (simp add: cms_ok_def)
  note same = cms_data_same [OF coreV1_get [OF kube Pair], of "cms_ns c"]
  show ?thesis
  proof (cases r)
    case (Inl e')
    then show ?thesis using ft ok Pair same by (auto simp: cms_Fetch_def cms_ok_def cms_view_def)
  next
    case (Inr cm)
    note get = cms_data_get [OF kube Pair [unfolded Inr]]
    show ?thesis
      using ft ok Pair Inr get(1,4)
      by (auto simp: cms_Fetch_def cms_ok_def cms_view_def data_view_def split: option.splits)
  qed
qed

lemma cms_Remove_effect:
  assumes ok: "cms_ok c" and rm: "cms_Remove k c = (e, c')"
  shows "cms_ok c' \<and> (cms_view c' = cms_view c \<or> cms_view c' = (cms_view c)(k := None))
    \<and> (e = None \<longrightarrow> cms_view c' = (cms_view c)(k := None))"
proof (cases "k8s_Get (cms_cl c) (cms_ns c) StorageConfigMapName (cms_world c)")
  case (Pair r w)
  have kube: "coreV1_ok (cms_cl c)" using ok by (simp add: cms_ok_def)
  note same = cms_data_same [OF coreV1_get [OF kube Pair], of "cms_ns c"]
  show ?thesis
  proof (cases r)
    case (Inl e')
    then show ?thesis
      using rm ok Pair same by (auto simp: cms_Remove_def cms_ok_def cms_view_def)
  next
    case (Inr cm)
    note get = cms_data_get [OF kube Pair [unfolded Inr]]
    show ?thesis
    proof (cases "cm_BinaryData cm")
      case None
      then show ?thesis
        using rm ok Pair Inr get(1,4)
        by (auto simp: cms_Remove_def cms_ok_def cms_view_def data_view_def fun_eq_iff)
    next
      case (Some d)
      obtain r2 w2 where upd: "k8s_Update (cms_cl c) (cms_ns c)
          (cm\<lparr>cm_BinaryData := Some (AList.delete k d)\<rparr>) w = (r2, w2)" by fastforce
      have "distinct (map fst (AList.delete k d))"
        using get(3) Some by (simp add: go_map_ok_def)
      from cms_update_data [OF kube get(2) this upd] get(1,4) Some
      have "data_view (cms_data (cms_cl c) (cms_ns c) w2)
            = (data_view (cms_data (cms_cl c) (cms_ns c) (cms_world c)))(k := None)
          \<or> (data_view (cms_data (cms_cl c) (cms_ns c) w2) = data_view (cms_data (cms_cl c) (cms_ns c) (cms_world c))
             \<and> (\<forall>x. r2 \<noteq> Inr x))"
        by simp
      then show ?thesis
        using rm ok Pair Inr Some upd
        by (auto simp: cms_Remove_def cms_ok_def cms_view_def split: sum.splits)
    qed
  qed
qed

lemma cms_List_effect:
  assumes ok: "cms_ok c" and ls: "cms_List c = ((ks, e), c')"
  shows "cms_ok c' \<and> cms_view c' = cms_view c \<and> (e = None \<longrightarrow> set ks = dom (cms_view c) \<and> distinct ks)"
proof (cases "k8s_Get (cms_cl c) (cms_ns c) StorageConfigMapName (cms_world c)")
  case (Pair r w)
  have kube: "coreV1_ok (cms_cl c)" using ok by (simp add: cms_ok_def)
  note same = cms_data_same [OF coreV1_get [OF kube Pair], of "cms_ns c"]
  show ?thesis
  proof (cases r)
    case (Inl e')
    then show ?thesis using ls ok Pair same by (auto simp: cms_List_def cms_ok_def cms_view_def)
  next
    case (Inr cm)
    note get = cms_data_get [OF kube Pair [unfolded Inr]]
    have "ks = map fst (cms_data (cms_cl c) (cms_ns c) (cms_world c)) \<and> e = None \<and> c' = c\<lparr>cms_world := w\<rparr>"
      using ls Pair Inr get(1,4) by (auto simp: cms_List_def split: option.splits)
    moreover have "distinct (map fst (cms_data (cms_cl c) (cms_ns c) (cms_world c)))"
      using get(1,3,4) by (auto simp: go_map_ok_def split: option.splits)
    ultimately show ?thesis
      using ok same by (simp add: cms_ok_def cms_view_def dom_data_view)
  qed
qed

interpretation cms: bridge_storage ConfigMapStorage cms_view cms_ok
proof unfold_locales
  fix s :: "'w ConfigMapBridgeStorage" and k r s'
  assume "cms_ok s" "bs_Fetch ConfigMapStorage k s = (r, s')"
  then show "cms_ok s' \<and> cms_view s' = cms_view s"
    using cms_Fetch_effect [of s k "fst r" "snd r" s'] by (simp add: ConfigMapStorage_def)
next
  fix s :: "'w ConfigMapBridgeStorage" and rl s'
  assume "cms_ok s" "bs_List ConfigMapStorage s = (rl, s')"
  then show "cms_ok s' \<and> cms_view s' = cms_view s"
    using cms_List_effect [of s "fst rl" "snd rl" s'] by (simp add: ConfigMapStorage_def)
qed (auto simp: ConfigMapStorage_def dest: cms_Fetch_effect cms_Upsert_effect cms_Remove_effect cms_List_effect)

lemma cms_ok_Initialize: "coreV1_ok cl \<Longrightarrow> cms_ok (snd (cms_Initialize cl ns w))"
  by (auto simp: cms_Initialize_def cms_ok_def Let_def split: sum.splits prod.splits k8s_error.splits)

text \<open>The world as the \<open>i\<close>-th run of the condition finds it, the runs before having failed.\<close>

fun nth_world :: "nat \<Rightarrow> ('w \<Rightarrow> bool \<times> 'w) \<Rightarrow> 'w \<Rightarrow> 'w" where
  "nth_world 0 cond w = w"
| "nth_world (Suc i) cond w = nth_world i cond (snd (cond w))"

lemma poll_immediate_None_iff:
  "fst (poll_immediate n cond w) = None \<longleftrightarrow> (\<exists>i\<le>n. fst (cond (nth_world i cond w)))"
proof (induction n arbitrary: w)
  case 0
  then show ?case by (subst poll_immediate.simps) (auto split: prod.splits bool.splits)
next
  case (Suc n)
  obtain b w1 where c: "cond w = (b, w1)" by fastforce
  have "(\<exists>i\<le>Suc n. fst (cond (nth_world i cond w))) \<longleftrightarrow> b \<or> (\<exists>i\<le>n. fst (cond (nth_world i cond w1)))"
    using c by (auto simp: less_Suc_eq_le [symmetric] Ex_less_Suc2)
  then show ?case
    using c Suc [of w1] by (subst poll_immediate.simps) (auto split: bool.splits)
qed

section \<open>A cluster in memory\<close>

text \<open>
  An instance of the client for the examples: objects in a list, an optimistic lock on the
  resource version, which an update that changes nothing leaves as it is, and a schedule of failing calls.
\<close>

record mem_world =
  mw_objects :: "((string \<times> string) \<times> configmap) list"
  mw_faults :: "bool list"
  mw_ticks :: nat

definition mem_object :: "string \<Rightarrow> string \<Rightarrow> mem_world \<Rightarrow> configmap option" where
  "mem_object ns n w =
     (case map_of (mw_objects w) (ns, n) of
        None \<Rightarrow> None
      | Some cm \<Rightarrow> if cm_Name cm = n \<and> cm_ResourceVersion cm \<noteq> '''' \<and> go_map_ok (cm_BinaryData cm)
                   then Some cm else None)"

definition mem_call :: "(mem_world \<Rightarrow> (k8s_error + configmap) \<times> mem_world) \<Rightarrow> mem_world
    \<Rightarrow> (k8s_error + configmap) \<times> mem_world" where
  "mem_call f w =
     (case mw_faults w of
        True # fs \<Rightarrow> (Inl (K8sError ''connection refused''), w\<lparr>mw_faults := fs\<rparr>)
      | False # fs \<Rightarrow> f (w\<lparr>mw_faults := fs\<rparr>)
      | [] \<Rightarrow> f w)"

definition mem_put :: "string \<Rightarrow> configmap \<Rightarrow> mem_world \<Rightarrow> (k8s_error + configmap) \<times> mem_world" where
  "mem_put ns cm w =
     (let cm = cm\<lparr>cm_ResourceVersion := cm_ResourceVersion cm @ ''i''\<rparr>
      in (Inr cm, w\<lparr>mw_objects := AList.update (ns, cm_Name cm) cm (mw_objects w)\<rparr>))"

definition mem_CoreV1 :: "mem_world CoreV1" where
  "mem_CoreV1 = \<lparr>
     k8s_Get = (\<lambda>ns n. mem_call (\<lambda>w. (case mem_object ns n w of None \<Rightarrow> Inl NotFound | Some cm \<Rightarrow> Inr cm, w))),
     k8s_Update = (\<lambda>ns cm. mem_call (\<lambda>w. case mem_object ns (cm_Name cm) w of
         None \<Rightarrow> (Inl NotFound, w)
       | Some cm' \<Rightarrow> if cm' = cm then (Inr cm, w)
                    else if cm_ResourceVersion cm' = cm_ResourceVersion cm then mem_put ns cm w
                    else (Inl (K8sError ''conflict''), w))),
     k8s_Create = (\<lambda>ns cm. mem_call (\<lambda>w. case mem_object ns (cm_Name cm) w of
         None \<Rightarrow> mem_put ns cm w
       | Some _ \<Rightarrow> (Inl (K8sError ''already exists''), w))),
     k8s_ticks = mw_ticks,
     k8s_object = mem_object\<rparr>"

lemma mem_object_faults [simp]: "mem_object ns n (w\<lparr>mw_faults := fs\<rparr>) = mem_object ns n w"
  by (simp add: mem_object_def)

lemma mem_put_stored:
  assumes "go_map_ok (cm_BinaryData cm)" "mem_put ns cm w = (r, w')"
  shows "mem_object ns (cm_Name cm) w' = Some (cm\<lparr>cm_ResourceVersion := cm_ResourceVersion cm @ ''i''\<rparr>)"
  using assms by (auto simp: mem_put_def mem_object_def Let_def update_conv')

lemma coreV1_ok_mem: "coreV1_ok mem_CoreV1"
  unfolding coreV1_ok_def
proof (intro conjI allI impI)
  fix ns n and w :: mem_world and r w'
  assume "k8s_Get mem_CoreV1 ns n w = (r, w')"
  then show "k8s_same mem_CoreV1 w w'"
    by (auto simp: mem_CoreV1_def mem_call_def k8s_same_def split: list.splits bool.splits)
next
  fix ns n and w :: mem_world and r w' cm
  assume "k8s_Get mem_CoreV1 ns n w = (r, w')" "r = Inr cm"
  then show "k8s_object mem_CoreV1 ns n w = Some cm"
    by (auto simp: mem_CoreV1_def mem_call_def split: list.splits bool.splits option.splits)
next
  fix ns cm and w :: mem_world and r w'
  assume ok: "go_map_ok (cm_BinaryData cm)" and upd: "k8s_Update mem_CoreV1 ns cm w = (r, w')"
  show "k8s_stored mem_CoreV1 ns cm w w' \<or> ((\<forall>c. r \<noteq> Inr c) \<and> k8s_same mem_CoreV1 w w')"
  proof (cases "\<exists>v. mem_put ns cm v = (r, w')")
    case True
    with mem_put_stored [OF ok] show ?thesis
      by (auto simp: k8s_stored_def cm_content_def mem_CoreV1_def)
  next
    case False
    with upd show ?thesis
      by (auto simp: mem_CoreV1_def mem_call_def k8s_same_def k8s_stored_def
          split: list.splits bool.splits option.splits if_splits)
  qed
qed (auto simp: mem_CoreV1_def mem_object_def split: option.splits if_splits)

text \<open>A store on a cluster whose first calls fail as scheduled.\<close>

definition mem_store :: "bool list \<Rightarrow> nat \<Rightarrow> mem_world ConfigMapBridgeStorage" where
  "mem_store faults ticks =
     snd (cms_Initialize mem_CoreV1 ''rhoai'' \<lparr>mw_objects = [], mw_faults = faults, mw_ticks = ticks\<rparr>)"

lemma cms_ok_mem_store: "cms_ok (mem_store fs n)"
  unfolding mem_store_def by (rule cms_ok_Initialize) (rule coreV1_ok_mem)

definition example_body :: "string \<Rightarrow> StorageBody" where
  "example_body t = StorageBody_zero\<lparr>sb_Body := Some ''data'', sb_LastUpdateTimeSinceEpoch := t\<rparr>"

section \<open>Properties\<close>

text \<open>
  C6. What the storage tier accepted it returns: after an \<open>Upsert\<close> that reports success, a
  successful \<open>Fetch\<close> of that key gives the very body that was stored, and a \<open>Fetch\<close> of any
  other key what it gave before (the zero body for a key that is not there).
\<close>

theorem Upsert_then_Fetch:
  assumes "cms_ok c" and "cms_Upsert k b c = (None, c1)" and "cms_Fetch k' c1 = ((sb, None), c2)"
  shows "sb = (if k' = k then b else case cms_view c k' of None \<Rightarrow> StorageBody_zero | Some b' \<Rightarrow> b')"
  using assms cms.fetch_after_upsert [of c k b c1 k' sb c2] by (simp add: ConfigMapStorage_def)

theorem Upsert_then_Fetch_witness:
  "\<exists>c1 c2. cms_Upsert ''mnist_v1'' (example_body ''7'') (mem_store [False, False, True, False, True] 3) = (None, c1)
     \<and> cms_Fetch ''mnist_v1'' c1 = ((example_body ''7'', None), c2)"
proof -
  let ?c = "mem_store [False, False, True, False, True] 3"
  let ?c1 = "snd (cms_Upsert ''mnist_v1'' (example_body ''7'') ?c)"
  have up: "fst (cms_Upsert ''mnist_v1'' (example_body ''7'') ?c) = None" by code_simp
  have ft: "snd (fst (cms_Fetch ''mnist_v1'' ?c1)) = None" by code_simp
  show ?thesis
    using Upsert_then_Fetch [OF cms_ok_mem_store, of "''mnist_v1''" "example_body ''7''" _ _ ?c1
        "''mnist_v1''" "fst (fst (cms_Fetch ''mnist_v1'' ?c1))"] up ft
    by (metis prod.collapse)
qed

text \<open>
  \<open>Remove\<close> and \<open>Upsert\<close> never touch another key, whatever they report, and after a \<open>Remove\<close>
  that reports success a successful \<open>List\<close> names each of the other keys once and no more.
\<close>

theorem Remove_Upsert_frame:
  assumes "cms_ok c" and "cms_Remove k c = (e, c1)" and "cms_Upsert k b c = (e', c2)"
    and "cms_List c1 = ((ks, None), c3)"
  shows "(\<forall>k'. k' \<noteq> k \<longrightarrow> cms_view c1 k' = cms_view c k' \<and> cms_view c2 k' = cms_view c k')
    \<and> distinct ks \<and> (e = None \<longrightarrow> set ks = dom (cms_view c) - {k})"
proof -
  note rm = cms_Remove_effect [OF assms(1,2)] and up = cms_Upsert_effect [OF assms(1,3)]
  from rm have ls: "set ks = dom (cms_view c1) \<and> distinct ks"
    using cms_List_effect [OF _ assms(4)] by blast
  moreover have "e = None \<longrightarrow> dom (cms_view c1) = dom (cms_view c) - {k}" using rm by auto
  ultimately show ?thesis using rm up by auto
qed

theorem Remove_Upsert_frame_witness:
  "let c = snd (cms_Upsert ''b_v1'' (example_body ''7'')
                  (snd (cms_Upsert ''a_v1'' (example_body ''7'') (mem_store [] 5))));
       ks = fst (fst (cms_List (snd (cms_Remove ''a_v1'' c))))
   in set ks = {''b_v1''}"
proof -
  let ?c0 = "snd (cms_Upsert ''a_v1'' (example_body ''7'') (mem_store [] 5))"
  let ?c = "snd (cms_Upsert ''b_v1'' (example_body ''7'') ?c0)"
  have ok: "cms_ok ?c"
    using cms_Upsert_effect [OF cms_ok_mem_store] cms_Upsert_effect by (metis prod.collapse)
  have "fst (cms_Remove ''a_v1'' ?c) = None" "snd (fst (cms_List (snd (cms_Remove ''a_v1'' ?c)))) = None"
    by code_simp+
  then have "set (fst (fst (cms_List (snd (cms_Remove ''a_v1'' ?c))))) = dom (cms_view ?c) - {''a_v1''}"
    using Remove_Upsert_frame [OF ok, of "''a_v1''" None _ "example_body ''7''"] by (metis prod.collapse)
  moreover have "fst (fst (cms_List ?c)) = [''a_v1'', ''b_v1''] \<and> snd (fst (cms_List ?c)) = None" by code_simp
  then have "dom (cms_view ?c) = {''a_v1'', ''b_v1''}"
    using cms_List_effect [OF ok] by (metis prod.collapse empty_set list.simps(15))
  ultimately show ?thesis by (auto simp: Let_def)
qed

text \<open>
  C8. \<open>Upsert\<close> gets over transient failures: it reports success exactly when one of the tries
  the poll has time for (the first one and \<open>k8s_ticks\<close> more) succeeds.
\<close>

theorem Upsert_retries:
  assumes "cms_ok c"
  shows "fst (cms_Upsert k b c) = None \<longleftrightarrow>
    (\<exists>i \<le> k8s_ticks (cms_cl c) (cms_world c).
       fst (cms_upsert_attempt (cms_cl c) (cms_ns c) k b
              (nth_world i (cms_upsert_attempt (cms_cl c) (cms_ns c) k b) (cms_world c))))"
proof -
  have "(case map_of (cms_versionMap c) k of None \<Rightarrow> '''' | Some v \<Rightarrow> v) = ''''"
    using assms by (auto simp: cms_ok_def split: option.splits)
  then show ?thesis
    unfolding poll_immediate_None_iff [symmetric] cms_Upsert_def
    by (simp add: Let_def split: prod.splits)
qed

theorem Upsert_retries_witness:
  "fst (cms_Upsert ''mnist_v1'' (example_body ''7'') (mem_store [False, False, True, False, True] 3)) = None
   \<and> fst (cms_Upsert ''mnist_v1'' (example_body ''7'') (mem_store [False, False, True, True, True, True] 3)) \<noteq> None"
proof -
  let ?c = "mem_store [False, False, True, False, True] 3"
  let ?d = "mem_store [False, False, True, True, True, True] 3"
  have "fst (cms_upsert_attempt (cms_cl ?c) (cms_ns ?c) ''mnist_v1'' (example_body ''7'')
      (nth_world 2 (cms_upsert_attempt (cms_cl ?c) (cms_ns ?c) ''mnist_v1'' (example_body ''7'')) (cms_world ?c)))"
    "2 \<le> k8s_ticks (cms_cl ?c) (cms_world ?c)"
    by code_simp+
  moreover have "\<forall>i \<in> set [0..<Suc 3]. \<not> fst (cms_upsert_attempt (cms_cl ?d) (cms_ns ?d) ''mnist_v1'' (example_body ''7'')
      (nth_world i (cms_upsert_attempt (cms_cl ?d) (cms_ns ?d) ''mnist_v1'' (example_body ''7'')) (cms_world ?d)))"
    "k8s_ticks (cms_cl ?d) (cms_world ?d) = 3"
    by code_simp+
  ultimately show ?thesis
    unfolding Upsert_retries [OF cms_ok_mem_store] by (metis atLeastLessThan_iff le_imp_less_Suc le0 set_upt)
qed

text \<open>
  C9. The version guard never rejects anything, since \<open>versionMap\<close> is only ever given the empty
  string it was read as: an \<open>Upsert\<close> with an older epoch overwrites a newer body.
\<close>

theorem stale_Upsert_overwrites:
  assumes "cms_ok c" and "cms_Upsert k new c = (None, c1)" and "cms_Upsert k old c1 = (None, c2)"
    and "sb_LastUpdateTimeSinceEpoch old < sb_LastUpdateTimeSinceEpoch new"
  shows "cms_view c2 k = Some old"
  using cms_Upsert_effect [OF assms(1,2)] cms_Upsert_effect [OF _ assms(3)] by auto

theorem stale_Upsert_overwrites_witness:
  "let c1 = snd (cms_Upsert ''mnist_v1'' (example_body ''200'') (mem_store [] 5));
       c2 = snd (cms_Upsert ''mnist_v1'' (example_body ''100'') c1)
   in cms_view c2 ''mnist_v1'' = Some (example_body ''100'')"
proof -
  let ?c1 = "snd (cms_Upsert ''mnist_v1'' (example_body ''200'') (mem_store [] 5))"
  have "fst (cms_Upsert ''mnist_v1'' (example_body ''200'') (mem_store [] 5)) = None"
    "fst (cms_Upsert ''mnist_v1'' (example_body ''100'') ?c1) = None"
    "sb_LastUpdateTimeSinceEpoch (example_body ''100'') < sb_LastUpdateTimeSinceEpoch (example_body ''200'')"
    by code_simp+
  then show ?thesis
    using stale_Upsert_overwrites [OF cms_ok_mem_store, of "''mnist_v1''" "example_body ''200''" _ _ ?c1
        "example_body ''100''"]
    unfolding Let_def by (metis prod.collapse)
qed

end
