(* ===== verification/LocationServer.thy ===== *)
theory LocationServer
  imports Wire
begin

text \<open>
  The location service, \<^verbatim>\<open>pkg/cmd/server/location/server/server.go\<close>: it keeps the catalog
  documents the storage service pushes, one per location URI, and the model cards, one per key,
  and serves them to Backstage.

  \<^verbatim>\<open>map[string]*ImportLocation\<close> is modelled by the values the pointers lead to: every upsert
  makes a fresh pointer, which no other part of the state holds.  Each handler takes the server's
  lock before it reads or writes the maps, so a handler is one step.
\<close>

section \<open>State\<close>

record ImportLocation =
  loc_content :: bytes

record modelCardMetadata =
  mc_content :: string
  mc_lastUpdateTimeSinceEpoch :: string
  mc_updateCount :: int
  mc_needToUpdate :: bool

record ImportLocationServer =
  ils_content :: "ImportLocation go_map"
  ils_modelcards :: "modelCardMetadata go_map"
  ils_format :: NormalizerFormat

definition NewImportLocationServer :: "NormalizerFormat \<Rightarrow> ImportLocationServer" where
  "NewImportLocationServer nf = \<lparr>ils_content = [], ils_modelcards = [], ils_format = nf\<rparr>"

section \<open>Handlers\<close>

definition handleCatalogInfoGet :: "ImportLocation \<Rightarrow> gin_result" where
  "handleCatalogInfoGet il =
     (case loc_content il of
        None \<Rightarrow> gin_status StatusNotFound
      | Some content \<Rightarrow> gin_data StatusOK (RawPayload content))"

text \<open>
  The function bound to \<^verbatim>\<open>/:model/:version/:format\<close>.  Binding fails when a segment, all of
  them required, is empty.
\<close>

definition handleLocationGet ::
    "string \<Rightarrow> string \<Rightarrow> string \<Rightarrow> ImportLocationServer \<Rightarrow> gin_result" where
  "handleLocationGet Model Version Format i =
     (if Model = [] \<or> Version = [] \<or> Format = [] then gin_status StatusBadRequest
      else (let uriString = snd (BuildImportKeyAndURI Model Version (ils_format i))
            in case map_of (ils_content i) uriString of
                 None \<Rightarrow> gin_status StatusNotFound
               | Some il \<Rightarrow> handleCatalogInfoGet il))"

definition discovered_uris :: "ImportLocationServer \<Rightarrow> string list" where
  "discovered_uris i = [uri. (uri, il) \<leftarrow> ils_content i, loc_content il \<noteq> None]"

definition marshal_uris :: "string list \<Rightarrow> json" where
  "marshal_uris us = JObj [(''uris'', if us = [] then JNull else JArr (map JStr us))]"

definition handleCatalogDiscoveryGet :: "ImportLocationServer \<Rightarrow> gin_result" where
  "handleCatalogDiscoveryGet i = gin_data StatusOK (JsonPayload (Some (marshal_uris (discovered_uris i))))"

definition upsert_modelcard :: "PostBody \<Rightarrow> modelCardMetadata go_map \<Rightarrow> modelCardMetadata go_map" where
  "upsert_modelcard postBody modelcards =
     (let mcm = (case map_of modelcards (pb_ModelCardKey postBody) of
                   None \<Rightarrow> \<lparr>mc_content = pb_ModelCard postBody,
                            mc_lastUpdateTimeSinceEpoch = pb_LastUpdateTimeSinceEpoch postBody,
                            mc_updateCount = 0, mc_needToUpdate = True\<rparr>
                 | Some mcm \<Rightarrow>
                     if mc_lastUpdateTimeSinceEpoch mcm \<noteq> pb_LastUpdateTimeSinceEpoch postBody
                     then mcm\<lparr>mc_lastUpdateTimeSinceEpoch := pb_LastUpdateTimeSinceEpoch postBody,
                              mc_needToUpdate := True, mc_updateCount := 0\<rparr>
                     else mcm)
      in AList.update (pb_ModelCardKey postBody) mcm modelcards)"

text \<open>
  A failing \<^verbatim>\<open>BindJSON\<close> has recorded its error in the context before the handler records it
  again.
\<close>

definition handleLocationUpsertPost ::
    "http_request \<Rightarrow> ImportLocationServer \<Rightarrow> gin_result \<times> ImportLocationServer" where
  "handleLocationUpsertPost c u =
     (let key = gin_Query c ''key''
      in if length key = 0
         then (gin_error StatusBadRequest [Errorf ''need a 'key' parameter''], u)
         else (case gin_BindJSON c of
                 (postBody, Some err) \<Rightarrow> (gin_error StatusBadRequest [Errorf err, Errorf err], u)
               | (postBody, None) \<Rightarrow>
                   (let segs = go_split (CHR ''_'') key
                    in if length segs < 2
                       then (gin_error StatusBadRequest [Errorf (''bad key format: '' @ key)], u)
                       else (let uriString = snd (BuildImportKeyAndURI (segs ! 0) (segs ! 1) (ils_format u));
                                 il = \<lparr>loc_content = pb_Body postBody\<rparr>
                             in (gin_status StatusCreated,
                                 u\<lparr>ils_content := AList.update uriString il (ils_content u),
                                   ils_modelcards := upsert_modelcard postBody (ils_modelcards u)\<rparr>)))))"

definition handleLocationDelete ::
    "http_request \<Rightarrow> ImportLocationServer \<Rightarrow> gin_result \<times> ImportLocationServer" where
  "handleLocationDelete c u =
     (let key = gin_Query c ''key''
      in if length key = 0
         then (gin_error StatusBadRequest [Errorf ''need a 'key' parameter''], u)
         else (let segs = go_split (CHR ''_'') key
               in if length segs < 2
                  then (gin_error StatusBadRequest [Errorf (''bad key format: '' @ key)], u)
                  else (let uri = snd (BuildImportKeyAndURI (segs ! 0) (segs ! 1) (ils_format u))
                        in case map_of (ils_content u) uri of
                             None \<Rightarrow> (gin_status StatusOK, u)
                           | Some il \<Rightarrow>
                               (gin_status StatusOK,
                                u\<lparr>ils_content := AList.update uri (il\<lparr>loc_content := None\<rparr>) (ils_content u)\<rparr>))))"

definition handleModelCardGet ::
    "http_request \<Rightarrow> ImportLocationServer \<Rightarrow> gin_result \<times> ImportLocationServer" where
  "handleModelCardGet c i =
     (let key = gin_Query c KeyQueryParam
      in case map_of (ils_modelcards i) key of
           None \<Rightarrow> (gin_status StatusNotFound, i)
         | Some content \<Rightarrow>
             if \<not> mc_needToUpdate content \<and> mc_updateCount content > 10
             then (gin_status StatusNotModified, i)
             else (let content = content\<lparr>mc_needToUpdate := False,
                                         mc_updateCount := mc_updateCount content + 1\<rparr>
                   in (gin_data StatusOK (RawPayload (mc_content content)),
                       i\<lparr>ils_modelcards := AList.update key content (ils_modelcards i)\<rparr>)))"

text \<open>
  The routes registered by \<^verbatim>\<open>NewImportLocationServer\<close>; the request's URL is the path here.
  A fixed route wins over the one with parameters, whose last segment must not be empty.
\<close>

definition ils_serve :: "http_request \<Rightarrow> ImportLocationServer \<Rightarrow> gin_result \<times> ImportLocationServer" where
  "ils_serve c i =
     (case rq_method c of
        POST \<Rightarrow> if rq_url c = UpsertURI then handleLocationUpsertPost c i else (gin_status StatusNotFound, i)
      | DELETE \<Rightarrow> if rq_url c = RemoveURI then handleLocationDelete c i else (gin_status StatusNotFound, i)
      | GET \<Rightarrow>
          if rq_url c = ListURI then (handleCatalogDiscoveryGet i, i)
          else if rq_url c = ModelCardURI then handleModelCardGet c i
          else (case go_split (CHR ''/'') (rq_url c) of
                  [e, Model, Version, Format] \<Rightarrow>
                    if e = [] \<and> Format \<noteq> [] then (handleLocationGet Model Version Format i, i)
                    else (gin_status StatusNotFound, i)
                | _ \<Rightarrow> (gin_status StatusNotFound, i)))"

section \<open>Reachable states\<close>

inductive ils_reachable :: "NormalizerFormat \<Rightarrow> ImportLocationServer \<Rightarrow> bool" for nf where
  ils_init: "ils_reachable nf (NewImportLocationServer nf)"
| ils_request: "ils_reachable nf i \<Longrightarrow> ils_serve c i = (g, i') \<Longrightarrow> ils_reachable nf i'"

text \<open>What the service serves at each URI.\<close>

definition ils_view :: "ImportLocationServer \<Rightarrow> string \<Rightarrow> bytes" where
  "ils_view i uri = (case map_of (ils_content i) uri of None \<Rightarrow> None | Some il \<Rightarrow> loc_content il)"

definition modelcard_ok :: "modelCardMetadata \<Rightarrow> bool" where
  "modelcard_ok m \<longleftrightarrow> 0 \<le> mc_updateCount m \<and> mc_updateCount m \<le> 11
     \<and> (mc_needToUpdate m \<longleftrightarrow> mc_updateCount m = 0)"

definition ils_ok :: "ImportLocationServer \<Rightarrow> bool" where
  "ils_ok i \<longleftrightarrow> distinct (map fst (ils_content i)) \<and> distinct (map fst (ils_modelcards i))
     \<and> (\<forall>k m. map_of (ils_modelcards i) k = Some m \<longrightarrow> modelcard_ok m)"

section \<open>Effect of the handlers\<close>

text \<open>The handlers in terms of \<^const>\<open>rekey\<close>, which the proofs below split.\<close>

lemma handleLocationUpsertPost_rekey:
  "handleLocationUpsertPost c u =
     (if gin_Query c ''key'' = [] then (gin_error StatusBadRequest [Errorf ''need a 'key' parameter''], u)
      else (case gin_BindJSON c of
              (pb, Some err) \<Rightarrow> (gin_error StatusBadRequest [Errorf err, Errorf err], u)
            | (pb, None) \<Rightarrow>
                (case rekey (ils_format u) (gin_Query c ''key'') of
                   None \<Rightarrow> (gin_error StatusBadRequest [Errorf (''bad key format: '' @ gin_Query c ''key'')], u)
                 | Some (k, uri) \<Rightarrow>
                     (gin_status StatusCreated,
                      u\<lparr>ils_content := AList.update uri \<lparr>loc_content = pb_Body pb\<rparr> (ils_content u),
                        ils_modelcards := upsert_modelcard pb (ils_modelcards u)\<rparr>))))"
  unfolding handleLocationUpsertPost_def rekey_def
  by (auto simp: Let_def split: prod.splits option.splits)

lemma handleLocationDelete_rekey:
  "handleLocationDelete c u =
     (if gin_Query c ''key'' = [] then (gin_error StatusBadRequest [Errorf ''need a 'key' parameter''], u)
      else (case rekey (ils_format u) (gin_Query c ''key'') of
              None \<Rightarrow> (gin_error StatusBadRequest [Errorf (''bad key format: '' @ gin_Query c ''key'')], u)
            | Some (k, uri) \<Rightarrow>
                (case map_of (ils_content u) uri of
                   None \<Rightarrow> (gin_status StatusOK, u)
                 | Some il \<Rightarrow>
                     (gin_status StatusOK,
                      u\<lparr>ils_content := AList.update uri (il\<lparr>loc_content := None\<rparr>) (ils_content u)\<rparr>))))"
  unfolding handleLocationDelete_def rekey_def
  by (auto simp: Let_def split: prod.splits option.splits)

lemma ils_view_modelcards [simp]: "ils_view (i\<lparr>ils_modelcards := m\<rparr>) = ils_view i"
  by (simp add: ils_view_def fun_eq_iff)

lemma ils_view_update [simp]:
  "ils_view (i\<lparr>ils_content := AList.update uri il l\<rparr>) = (ils_view (i\<lparr>ils_content := l\<rparr>))(uri := loc_content il)"
  by (auto simp: ils_view_def fun_eq_iff)

lemma ils_view_absent: "map_of (ils_content u) uri = None \<Longrightarrow> (ils_view u)(uri := None) = ils_view u"
  by (auto simp: ils_view_def fun_eq_iff)

lemma handleLocationUpsertPost_effect:
  assumes "handleLocationUpsertPost c u = (g, u')"
  shows "(gr_status g = StatusCreated \<and> (\<exists>pb k uri. gin_BindJSON c = (pb, None)
            \<and> rekey (ils_format u) (gin_Query c ''key'') = Some (k, uri)
            \<and> ils_view u' = (ils_view u)(uri := pb_Body pb)
            \<and> ils_modelcards u' = upsert_modelcard pb (ils_modelcards u)))
    \<or> (gr_status g = StatusBadRequest \<and> u' = u)"
  using assms unfolding handleLocationUpsertPost_rekey
  by (auto simp: gin_defs split: if_splits prod.splits option.splits)

lemma handleLocationDelete_effect:
  assumes "handleLocationDelete c u = (g, u')"
  shows "ils_modelcards u' = ils_modelcards u \<and>
   ((gr_status g = StatusOK \<and> (\<exists>k uri. rekey (ils_format u) (gin_Query c ''key'') = Some (k, uri)
            \<and> ils_view u' = (ils_view u)(uri := None)))
    \<or> (gr_status g = StatusBadRequest \<and> u' = u))"
  using assms unfolding handleLocationDelete_rekey
  by (auto simp: gin_defs ils_view_absent split: if_splits prod.splits option.splits)

lemma handleModelCardGet_view [simp]: "ils_view (snd (handleModelCardGet c i)) = ils_view i"
  by (auto simp: handleModelCardGet_def Let_def split: option.splits)

text \<open>\<open>ils_serve\<close>, by cases on the handler that ran.\<close>

lemma ils_serve_cases:
  assumes "ils_serve c i = (g, i')"
  obtains (Upsert) "rq_method c = POST" "handleLocationUpsertPost c i = (g, i')"
  | (Delete) "rq_method c = DELETE" "handleLocationDelete c i = (g, i')"
  | (Card) "rq_method c = GET" "handleModelCardGet c i = (g, i')"
  | (Read) "i' = i"
  using assms
  by (cases "rq_method c") (auto simp: ils_serve_def split: if_splits list.splits)

section \<open>Invariant\<close>

lemma modelcard_ok_upsert:
  assumes "\<forall>k m. map_of cards k = Some m \<longrightarrow> modelcard_ok m"
  shows "\<forall>k m. map_of (upsert_modelcard pb cards) k = Some m \<longrightarrow> modelcard_ok m"
  using assms by (auto simp: upsert_modelcard_def Let_def modelcard_ok_def split: option.splits)

lemma distinct_upsert_modelcard [simp]:
  "distinct (map fst cards) \<Longrightarrow> distinct (map fst (upsert_modelcard pb cards))"
  by (auto simp: upsert_modelcard_def Let_def)

lemma modelcard_ok_get:
  "modelcard_ok m \<Longrightarrow> mc_needToUpdate m \<or> \<not> mc_updateCount m > 10 \<Longrightarrow>
   modelcard_ok (m\<lparr>mc_needToUpdate := False, mc_updateCount := mc_updateCount m + 1\<rparr>)"
  by (auto simp: modelcard_ok_def)

lemma ils_ok_serve:
  assumes "ils_ok i" and "ils_serve c i = (g, i')"
  shows "ils_ok i'"
  using assms(2)
proof (cases rule: ils_serve_cases)
  case Upsert
  from Upsert(2) assms(1) show ?thesis
    unfolding handleLocationUpsertPost_rekey
    using modelcard_ok_upsert [of "ils_modelcards i"]
    by (auto simp: ils_ok_def split: if_splits prod.splits option.splits)
next
  case Delete
  from Delete(2) assms(1) show ?thesis
    unfolding handleLocationDelete_rekey
    by (auto simp: ils_ok_def split: if_splits prod.splits option.splits)
next
  case Card
  from Card(2) assms(1) modelcard_ok_get show ?thesis
    by (auto simp: handleModelCardGet_def Let_def ils_ok_def split: option.splits if_splits)
qed (use assms(1) in simp)

lemma ils_ok_reachable: "ils_reachable nf i \<Longrightarrow> ils_ok i"
proof (induction rule: ils_reachable.induct)
  case ils_init
  show ?case by (simp add: ils_ok_def NewImportLocationServer_def)
qed (rule ils_ok_serve)

lemma set_discovered_uris:
  "ils_ok i \<Longrightarrow> set (discovered_uris i) = {uri. ils_view i uri \<noteq> None}"
proof -
  assume "ils_ok i"
  then have "(uri, il) \<in> set (ils_content i) \<longleftrightarrow> map_of (ils_content i) uri = Some il" for uri il
    by (simp add: ils_ok_def map_of_eq_Some_iff)
  then show ?thesis
    by (auto simp: discovered_uris_def ils_view_def split: option.splits) force
qed

text \<open>A \<open>GET\<close> of a location URI answers with what the view has there.\<close>

lemma handleLocationGet_view:
  assumes "Model \<noteq> []" "Version \<noteq> []" "Format \<noteq> []"
    and "snd (BuildImportKeyAndURI Model Version (ils_format i)) = uri"
  shows "handleLocationGet Model Version Format i =
    (case ils_view i uri of None \<Rightarrow> gin_status StatusNotFound | Some b \<Rightarrow> gin_data StatusOK (RawPayload b))"
  using assms by (auto simp: handleLocationGet_def Let_def ils_view_def handleCatalogInfoGet_def split: option.splits)

text \<open>How often in a row a model card is asked for, and the statuses of the answers.\<close>

fun modelcard_gets :: "nat \<Rightarrow> http_request \<Rightarrow> ImportLocationServer \<Rightarrow> gin_result list \<times> ImportLocationServer" where
  "modelcard_gets 0 c i = ([], i)"
| "modelcard_gets (Suc n) c i =
     (case handleModelCardGet c i of
        (g, i') \<Rightarrow> (case modelcard_gets n c i' of (gs, i'') \<Rightarrow> (g # gs, i'')))"

lemma fst_modelcard_gets_Suc:
  "handleModelCardGet c i = (g, i') \<Longrightarrow> fst (modelcard_gets (Suc n) c i) = g # fst (modelcard_gets n c i')"
  by (simp split: prod.split)

lemma modelcard_gets_done:
  assumes "map_of (ils_modelcards i) (gin_Query c KeyQueryParam) = Some m"
    and "\<not> mc_needToUpdate m" and "mc_updateCount m = 11"
  shows "modelcard_gets n c i = (replicate n (gin_status StatusNotModified), i)"
proof (induction n)
  case (Suc n)
  then show ?case using assms by (simp add: handleModelCardGet_def Let_def)
qed simp

lemma modelcard_gets_count:
  assumes "map_of (ils_modelcards i) (gin_Query c KeyQueryParam) = Some m"
    and "modelcard_ok m"
  shows "fst (modelcard_gets n c i) =
     replicate (min n (nat (11 - mc_updateCount m))) (gin_data StatusOK (RawPayload (mc_content m)))
     @ replicate (n - nat (11 - mc_updateCount m)) (gin_status StatusNotModified)"
  using assms
proof (induction n arbitrary: i m)
  case (Suc n)
  show ?case
  proof (cases "mc_updateCount m = 11")
    case True
    with Suc.prems have "\<not> mc_needToUpdate m" by (simp add: modelcard_ok_def)
    with True Suc.prems(1) modelcard_gets_done [of i c m "Suc n"] show ?thesis by simp
  next
    case False
    let ?m = "m\<lparr>mc_needToUpdate := False, mc_updateCount := mc_updateCount m + 1\<rparr>"
    let ?i = "i\<lparr>ils_modelcards := AList.update (gin_Query c KeyQueryParam) ?m (ils_modelcards i)\<rparr>"
    from False Suc.prems(2) have le: "\<not> mc_updateCount m > 10" by (simp add: modelcard_ok_def)
    then have ok: "modelcard_ok ?m" using Suc.prems(2) by (simp add: modelcard_ok_def)
    have get: "handleModelCardGet c i = (gin_data StatusOK (RawPayload (mc_content m)), ?i)"
      using Suc.prems(1) le by (simp add: handleModelCardGet_def Let_def)
    obtain d where "nat (11 - mc_updateCount m) = Suc d" "nat (11 - mc_updateCount ?m) = d"
      using le by (cases "nat (11 - mc_updateCount m)") auto
    then show ?thesis
      using ok Suc.IH [of ?i ?m] unfolding fst_modelcard_gets_Suc [OF get] by simp
  qed
qed simp

section \<open>Location paths\<close>

definition path_segment :: "string \<Rightarrow> bool" where
  "path_segment s \<longleftrightarrow> s \<noteq> [] \<and> CHR ''/'' \<notin> set s \<and> CHR ''_'' \<notin> set s \<and> CHR '' '' \<notin> set s"

lemma snd_BuildImportKeyAndURI:
  "path_segment m \<Longrightarrow> path_segment v \<Longrightarrow> \<exists>fn. fn \<noteq> [] \<and> CHR ''/'' \<notin> set fn \<and>
     snd (BuildImportKeyAndURI m v fmt) = CHR ''/'' # (m @ CHR ''/'' # (v @ CHR ''/'' # fn))"
  by (cases "fmt = JsonArrayForamt")
    (simp_all add: BuildImportKeyAndURI_def Let_def path_segment_def remove_char_id)

lemma go_split_path:
  assumes "path_segment m" "path_segment v" "CHR ''/'' \<notin> set fn"
  shows "go_split (CHR ''/'') (CHR ''/'' # (m @ CHR ''/'' # (v @ CHR ''/'' # fn))) = [[], m, v, fn]"
  using assms by (simp add: path_segment_def go_split_append go_split_no_sep)

lemma fixed_route_segments:
  "length (go_split (CHR ''/'') ListURI) = 2" "length (go_split (CHR ''/'') ModelCardURI) = 2"
  by (simp_all add: uri_defs)

text \<open>A \<open>GET\<close> of the URI of a model version, whatever the format in its last segment.\<close>

lemma ils_serve_get_location:
  assumes "path_segment m" "path_segment v" and "rq_method c = GET"
    and "rq_url c = snd (BuildImportKeyAndURI m v fmt)"
  shows "ils_serve c i =
    (case ils_view i (snd (BuildImportKeyAndURI m v (ils_format i))) of
       None \<Rightarrow> gin_status StatusNotFound | Some b \<Rightarrow> gin_data StatusOK (RawPayload b), i)"
proof -
  obtain fn where fn: "fn \<noteq> []" and uri: "go_split (CHR ''/'') (rq_url c) = [[], m, v, fn]"
    using snd_BuildImportKeyAndURI [OF assms(1,2), of fmt] go_split_path [OF assms(1,2)] assms(4) by auto
  then have "rq_url c \<noteq> ListURI" "rq_url c \<noteq> ModelCardURI"
    using fixed_route_segments by auto
  with fn uri assms(1,2,3) handleLocationGet_view [of m v fn i] show ?thesis
    by (simp add: ils_serve_def path_segment_def)
qed

lemma rekey_path_segments:
  "path_segment m \<Longrightarrow> path_segment v \<Longrightarrow> rekey fmt (m @ ''_'' @ v) = Some (BuildImportKeyAndURI m v fmt)"
  by (simp add: path_segment_def rekey_two go_split_no_sep)

section \<open>Properties\<close>

text \<open>
  C10. A document posted for a model version, with names that have no underscore, slash or space, is what
  the location service then serves at the URI of that version (and nothing, if the posted document is
  null), whatever format the URI names; the documents of all other URIs are left alone.
\<close>

theorem posted_document_is_served:
  assumes "path_segment m" and "path_segment v"
    and "rq_method c = POST" and "rq_url c = UpsertURI"
    and "gin_Query c ''key'' = m @ ''_'' @ v" and "gin_BindJSON c = (pb, None)"
    and "ils_serve c i = (g, i1)"
    and "rq_method c' = GET" and "rq_url c' = snd (BuildImportKeyAndURI m v fmt)"
  shows "g = gin_status StatusCreated
    \<and> ils_serve c' i1 = (case pb_Body pb of None \<Rightarrow> gin_status StatusNotFound
                                         | Some b \<Rightarrow> gin_data StatusOK (RawPayload b), i1)
    \<and> (\<forall>uri. uri \<noteq> snd (BuildImportKeyAndURI m v (ils_format i)) \<longrightarrow> ils_view i1 uri = ils_view i uri)"
proof -
  let ?uri = "snd (BuildImportKeyAndURI m v (ils_format i))"
  have "rekey (ils_format i) (gin_Query c ''key'') = Some (BuildImportKeyAndURI m v (ils_format i))"
    unfolding assms(5) by (rule rekey_path_segments) (rule assms)+
  then have "g = gin_status StatusCreated \<and> ils_format i1 = ils_format i
      \<and> ils_view i1 = (ils_view i)(?uri := pb_Body pb)"
    using assms(3-7) by (auto simp: ils_serve_def handleLocationUpsertPost_rekey split: prod.splits)
  then show ?thesis
    using ils_serve_get_location [OF assms(1,2,8,9), of i1] by simp
qed

definition example_upsert :: "PostBody \<Rightarrow> http_request" where
  "example_upsert pb = \<lparr>rq_method = POST, rq_url = ''/upsert'', rq_query = [(''key'', ''mnist_v1'')],
     rq_token = '''', rq_body = JsonPayload (Some (marshal_PostBody pb))\<rparr>"

definition example_get :: "http_method \<Rightarrow> string \<Rightarrow> string \<Rightarrow> http_request" where
  "example_get m path key = \<lparr>rq_method = m, rq_url = path, rq_query = [(''key'', key)],
     rq_token = '''', rq_body = NoPayload\<rparr>"

definition example_post :: "string \<Rightarrow> string \<Rightarrow> PostBody" where
  "example_post t mcard = \<lparr>pb_Body = Some ''{}'', pb_LastUpdateTimeSinceEpoch = t,
     pb_ModelCardKey = ''mnist'', pb_ModelCard = mcard\<rparr>"

lemma example_request_simps [simp]:
  "rq_method (example_upsert pb) = POST" "rq_url (example_upsert pb) = UpsertURI"
  "gin_Query (example_upsert pb) ''key'' = ''mnist_v1''" "gin_BindJSON (example_upsert pb) = (pb, None)"
  "rq_method (example_get m path key) = m" "rq_url (example_get m path key) = path"
  "gin_Query (example_get m path key) ''key'' = key"
  by (simp_all add: example_upsert_def example_get_def gin_Query_def gin_BindJSON_def uri_defs)

lemma example_segments: "path_segment ''mnist''" "path_segment ''v1''"
  by (simp_all add: path_segment_def)

lemma example_uri: "snd (BuildImportKeyAndURI ''mnist'' ''v1'' fmt) =
    (if fmt = JsonArrayForamt then ''/mnist/v1/model-catalog.json'' else ''/mnist/v1/catalog-info.yaml'')"
  by (simp add: BuildImportKeyAndURI_def Let_def remove_char_def)

theorem posted_document_is_served_witness:
  "fst (ils_serve (example_get GET ''/mnist/v1/model-catalog.json'' '''')
      (snd (ils_serve (example_upsert (example_post ''7'' ''card'')) (NewImportLocationServer JsonArrayForamt))))
   = gin_data StatusOK (RawPayload ''{}'')"
  using posted_document_is_served [OF example_segments,
      of "example_upsert (example_post ''7'' ''card'')" "example_post ''7'' ''card''"
        "NewImportLocationServer JsonArrayForamt" _ _
        "example_get GET ''/mnist/v1/model-catalog.json'' ''''" JsonArrayForamt]
  by (simp add: example_uri example_post_def) (metis fst_conv prod.collapse)

text \<open>
  C11. Deleting a model version, with names that have no underscore, slash or space, makes its URI a 404
  and takes it off the list; the documents of all other URIs and the model cards are left alone.
\<close>

theorem deleted_document_is_gone:
  assumes "ils_ok i" and "path_segment m" and "path_segment v"
    and "rq_method c = DELETE" and "rq_url c = RemoveURI"
    and "gin_Query c ''key'' = m @ ''_'' @ v" and "ils_serve c i = (g, i1)"
    and "rq_method c' = GET" and "rq_url c' = snd (BuildImportKeyAndURI m v fmt)"
  shows "g = gin_status StatusOK
    \<and> ils_serve c' i1 = (gin_status StatusNotFound, i1)
    \<and> set (discovered_uris i1) = set (discovered_uris i) - {snd (BuildImportKeyAndURI m v (ils_format i))}
    \<and> ils_modelcards i1 = ils_modelcards i"
proof -
  let ?uri = "snd (BuildImportKeyAndURI m v (ils_format i))"
  have "rekey (ils_format i) (gin_Query c ''key'') = Some (BuildImportKeyAndURI m v (ils_format i))"
    unfolding assms(6) by (rule rekey_path_segments) (rule assms)+
  then have del: "g = gin_status StatusOK \<and> ils_format i1 = ils_format i \<and> ils_modelcards i1 = ils_modelcards i
      \<and> ils_view i1 = (ils_view i)(?uri := None)"
    using assms(4-7)
    by (auto simp: ils_serve_def handleLocationDelete_rekey ils_view_absent split: prod.splits option.splits)
  have "ils_ok i1" using assms(1,7) by (rule ils_ok_serve)
  with del assms(1) have "set (discovered_uris i1) = set (discovered_uris i) - {?uri}"
    by (auto simp: set_discovered_uris)
  with del show ?thesis
    using ils_serve_get_location [OF assms(2,3,8,9), of i1] by simp
qed

theorem deleted_document_is_gone_witness:
  "let i = snd (ils_serve (example_upsert (example_post ''7'' ''card'')) (NewImportLocationServer JsonArrayForamt));
       i1 = snd (ils_serve (example_get DELETE RemoveURI ''mnist_v1'') i)
   in discovered_uris i = [''/mnist/v1/model-catalog.json''] \<and> discovered_uris i1 = []"
proof -
  let ?i = "snd (ils_serve (example_upsert (example_post ''7'' ''card'')) (NewImportLocationServer JsonArrayForamt))"
  have "ils_ok ?i"
    using ils_ok_reachable ils_reachable.intros by (metis prod.collapse)
  moreover have "discovered_uris ?i = [''/mnist/v1/model-catalog.json'']" by code_simp
  moreover have "ils_format ?i = JsonArrayForamt" by code_simp
  ultimately show ?thesis
    using deleted_document_is_gone [OF _ example_segments, of ?i "example_get DELETE RemoveURI ''mnist_v1''"
        "fst (ils_serve (example_get DELETE RemoveURI ''mnist_v1'') ?i)"
        "snd (ils_serve (example_get DELETE RemoveURI ''mnist_v1'') ?i)"
        "example_get GET ''/mnist/v1/model-catalog.json'' ''''" JsonArrayForamt]
    unfolding Let_def by (simp only: example_request_simps example_uri) simp
qed

text \<open>
  C12. After a post with a new epoch, the next eleven requests for the model card are answered
  with it and every later one with 304, until the epoch changes again.  The card served is the
  first one ever posted under the key: a later post does not replace its text.
\<close>

theorem modelcard_served_eleven_times:
  assumes "handleLocationUpsertPost c i = (gin_status StatusCreated, i1)" and "gin_BindJSON c = (pb, None)"
    and "\<And>m. map_of (ils_modelcards i) (pb_ModelCardKey pb) = Some m \<Longrightarrow>
      mc_lastUpdateTimeSinceEpoch m \<noteq> pb_LastUpdateTimeSinceEpoch pb"
    and "gin_Query c' KeyQueryParam = pb_ModelCardKey pb"
  shows "fst (modelcard_gets n c' i1) =
    (let mcard = (case map_of (ils_modelcards i) (pb_ModelCardKey pb) of
                   None \<Rightarrow> pb_ModelCard pb | Some m \<Rightarrow> mc_content m)
     in replicate (min n 11) (gin_data StatusOK (RawPayload mcard))
        @ replicate (n - 11) (gin_status StatusNotModified))"
proof -
  obtain m where m: "map_of (ils_modelcards i1) (pb_ModelCardKey pb) = Some m"
    and count: "mc_updateCount m = 0" and need: "mc_needToUpdate m"
    and content: "mc_content m = (case map_of (ils_modelcards i) (pb_ModelCardKey pb) of
        None \<Rightarrow> pb_ModelCard pb | Some m \<Rightarrow> mc_content m)"
  proof -
    have "ils_modelcards i1 = upsert_modelcard pb (ils_modelcards i)"
      using handleLocationUpsertPost_effect [OF assms(1)] assms(2) by (auto simp: gin_defs status_defs)
    then show thesis
      using assms(3) that by (auto simp: upsert_modelcard_def Let_def split: option.splits)
  qed
  then have "modelcard_ok m" by (simp add: modelcard_ok_def)
  then show ?thesis
    using modelcard_gets_count [of i1 c' m n] m count content assms(4) by simp
qed

theorem modelcard_served_eleven_times_witness:
  "let i0 = snd (handleLocationUpsertPost (example_upsert (example_post ''7'' ''old'')) (NewImportLocationServer JsonArrayForamt));
       i1 = snd (handleLocationUpsertPost (example_upsert (example_post ''8'' ''new'')) i0)
   in fst (modelcard_gets 12 (example_get GET ModelCardURI ''mnist'') i1)
      = replicate 11 (gin_data StatusOK (RawPayload ''old'')) @ [gin_status StatusNotModified]"
proof -
  let ?i0 = "snd (handleLocationUpsertPost (example_upsert (example_post ''7'' ''old'')) (NewImportLocationServer JsonArrayForamt))"
  let ?h = "handleLocationUpsertPost (example_upsert (example_post ''8'' ''new'')) ?i0"
  have card: "map_of (ils_modelcards ?i0) ''mnist'' = Some \<lparr>mc_content = ''old'', mc_lastUpdateTimeSinceEpoch = ''7'',
      mc_updateCount = 0, mc_needToUpdate = True\<rparr>" by code_simp
  have "fst ?h = gin_status StatusCreated" by code_simp
  then have "?h = (gin_status StatusCreated, snd ?h)" by (metis prod.collapse)
  from modelcard_served_eleven_times [OF this, of "example_post ''8'' ''new''" "example_get GET ModelCardURI ''mnist''" 12]
  show ?thesis
    using card by (simp add: Let_def example_post_def KeyQueryParam_def)
qed

text \<open>
  C13. In every state the service can reach, whatever requests it was sent: the list names each
  URI that has a document once and no other, and each model card has been served at most eleven
  times since its last change and waits to be served exactly if it has not been.
\<close>

theorem location_service_invariant:
  assumes "ils_reachable nf i"
  shows "distinct (discovered_uris i)
    \<and> (\<forall>uri. uri \<in> set (discovered_uris i) \<longleftrightarrow> ils_view i uri \<noteq> None)
    \<and> (\<forall>k m. map_of (ils_modelcards i) k = Some m \<longrightarrow>
         0 \<le> mc_updateCount m \<and> mc_updateCount m \<le> 11 \<and> (mc_needToUpdate m \<longleftrightarrow> mc_updateCount m = 0))"
proof -
  have ok: "ils_ok i" using assms by (rule ils_ok_reachable)
  have "distinct (map fst l) \<Longrightarrow> distinct [uri. (uri, il) \<leftarrow> l, loc_content il \<noteq> None]"
    for l :: "ImportLocation go_map"
  proof (induction l)
    case (Cons x l)
    then show ?case by (cases x) force
  qed simp
  then have "distinct (discovered_uris i)"
    using ok unfolding discovered_uris_def ils_ok_def by blast
  with ok show ?thesis
    unfolding set_discovered_uris [OF ok] by (simp add: ils_ok_def modelcard_ok_def)
qed

theorem location_service_invariant_witness:
  "discovered_uris (snd (ils_serve (example_upsert (example_post ''7'' ''card'')) (NewImportLocationServer JsonArrayForamt)))
     = [''/mnist/v1/model-catalog.json'']
   \<and> ils_view (snd (ils_serve (example_upsert (example_post ''7'' ''card'')) (NewImportLocationServer JsonArrayForamt)))
       ''/mnist/v1/model-catalog.json'' \<noteq> None"
proof -
  let ?i = "snd (ils_serve (example_upsert (example_post ''7'' ''card'')) (NewImportLocationServer JsonArrayForamt))"
  have uris: "discovered_uris ?i = [''/mnist/v1/model-catalog.json'']" by code_simp
  have "ils_reachable JsonArrayForamt ?i"
    using ils_reachable.intros by (metis prod.collapse)
  from location_service_invariant [OF this] uris show ?thesis by (metis list.set_intros(1))
qed

end
