(* ===== verification/LocationClient.thy ===== *)
theory LocationClient
  imports LocationServer
begin

text \<open>
  The client of the location service, \<^verbatim>\<open>pkg/cmd/server/location/client/rest.go\<close>, over a transport
  that carries HTTP requests; the contract \<open>location_service\<close> the storage service relies on; and
  the proof that the client keeps it when its requests reach the server of \<open>LocationServer\<close>.

  The HTTP library (resty) is not part of the program: a \<open>transport\<close> is any function that takes a
  request and a world to an error or a response and a new world.  The message the Go methods
  also return, a \<^verbatim>\<open>%#v\<close> dump of the response object that is only logged, is left out.
\<close>

section \<open>The client\<close>

record BridgeLocationRESTClient =
  blc_HostURL :: string
  blc_UpsertURL :: string
  blc_RemoveURL :: string
  blc_Token :: string

definition SetupBridgeLocationRESTClient :: "string \<Rightarrow> string \<Rightarrow> BridgeLocationRESTClient" where
  "SetupBridgeLocationRESTClient hostURL token =
     \<lparr>blc_HostURL = hostURL, blc_UpsertURL = hostURL @ UpsertURI, blc_RemoveURL = hostURL @ RemoveURI,
      blc_Token = token\<rparr>"

definition client_result :: "(string + http_response) \<times> 'w \<Rightarrow> (nat \<times> go_error) \<times> 'w" where
  "client_result x =
     (case x of
        (Inl err, w) \<Rightarrow> ((StatusInternalServerError, Some err), w)
      | (Inr resp, w) \<Rightarrow> ((rs_status resp, None), w))"

definition location_UpsertModel ::
    "'w transport \<Rightarrow> BridgeLocationRESTClient \<Rightarrow> string \<Rightarrow> PostBody \<Rightarrow> 'w \<Rightarrow> (nat \<times> go_error) \<times> 'w" where
  "location_UpsertModel send b importKey body w =
     client_result (send \<lparr>rq_method = POST, rq_url = blc_UpsertURL b, rq_query = [(KeyQueryParam, importKey)],
       rq_token = blc_Token b, rq_body = JsonPayload (Some (marshal_PostBody body))\<rparr> w)"

definition location_RemoveModel ::
    "'w transport \<Rightarrow> BridgeLocationRESTClient \<Rightarrow> string \<Rightarrow> 'w \<Rightarrow> (nat \<times> go_error) \<times> 'w" where
  "location_RemoveModel send b key w =
     client_result (send \<lparr>rq_method = DELETE, rq_url = blc_RemoveURL b, rq_query = [(KeyQueryParam, key)],
       rq_token = blc_Token b, rq_body = NoPayload\<rparr> w)"

section \<open>The contract\<close>

text \<open>
  For a service seen as a map from URIs to documents: a call that is answered with 200 or 201 has
  set or cleared the document at the URI of its key; any other outcome has done so or nothing.
  A push that is answered at all, for a well-formed key, is answered with 200 or 201.
\<close>

locale location_service =
  fixes up :: "string \<Rightarrow> PostBody \<Rightarrow> 'l \<Rightarrow> (nat \<times> go_error) \<times> 'l"
    and rm :: "string \<Rightarrow> 'l \<Rightarrow> (nat \<times> go_error) \<times> 'l"
    and lview :: "'l \<Rightarrow> string \<Rightarrow> bytes"
    and linv :: "'l \<Rightarrow> bool"
    and fmt :: NormalizerFormat
  assumes up_keeps: "linv l \<Longrightarrow> up k pb l = (r, l') \<Longrightarrow> linv l' \<and>
      (lview l' = lview l \<or> (\<exists>k' uri. rekey fmt k = Some (k', uri) \<and> lview l' = (lview l)(uri := pb_Body pb)))"
    and up_effect: "linv l \<Longrightarrow> up k pb l = ((rc, None), l') \<Longrightarrow> rc = StatusCreated \<or> rc = StatusOK \<Longrightarrow>
      (\<exists>k' uri. rekey fmt k = Some (k', uri) \<and> lview l' = (lview l)(uri := pb_Body pb))"
    and up_accepts: "linv l \<Longrightarrow> up k pb l = ((rc, None), l') \<Longrightarrow> rekey fmt k = Some (k', uri) \<Longrightarrow>
      rc = StatusCreated \<or> rc = StatusOK"
    and rm_keeps: "linv l \<Longrightarrow> rm k l = (r, l') \<Longrightarrow> linv l' \<and>
      (lview l' = lview l \<or> (\<exists>k' uri. rekey fmt k = Some (k', uri) \<and> lview l' = (lview l)(uri := None)))"
    and rm_effect: "linv l \<Longrightarrow> rm k l = ((rc, None), l') \<Longrightarrow> rc = StatusOK \<or> rc = StatusCreated \<Longrightarrow>
      (\<exists>k' uri. rekey fmt k = Some (k', uri) \<and> lview l' = (lview l)(uri := None))"
begin

lemma up_serves:
  assumes "linv l" "up k pb l = ((rc, None), l')" "rc = StatusCreated \<or> rc = StatusOK"
    and "rekey fmt k = Some (k', uri)"
  shows "lview l' uri = pb_Body pb" and "uri' \<noteq> uri \<Longrightarrow> lview l' uri' = lview l uri'"
  using up_effect [OF assms(1-3)] assms(4) by auto

lemma up_frame:
  assumes "linv l" "up k pb l = (r, l')" "\<forall>k'. rekey fmt k \<noteq> Some (k', uri)"
  shows "lview l' uri = lview l uri"
  using up_keeps [OF assms(1,2)] assms(3) by (auto simp: fun_upd_apply)

lemma rm_frame:
  assumes "linv l" "rm k l = (r, l')" "\<forall>k'. rekey fmt k \<noteq> Some (k', uri)"
  shows "lview l' uri = lview l uri"
  using rm_keeps [OF assms(1,2)] assms(3) by (auto simp: fun_upd_apply)

lemma rm_never_adds:
  assumes "linv l" "rm k l = (r, l')"
  shows "lview l' uri = lview l uri \<or> lview l' uri = None"
  using rm_keeps [OF assms(1,2)] by (metis fun_upd_apply)

end

section \<open>The client connected to the server\<close>

text \<open>
  The network delivers a request to the server at its host, or loses the request, or loses the
  reply.  The schedule says which; when it is used up every request is delivered.
\<close>

datatype delivery = Delivered | RequestLost | ReplyLost

record location_net =
  ln_host :: string
  ln_server :: ImportLocationServer
  ln_schedule :: "delivery list"

definition net_serve :: "http_request \<Rightarrow> location_net \<Rightarrow> (string + http_response) \<times> location_net" where
  "net_serve rq n =
     (if has_prefix (rq_url rq) (ln_host n)
      then (case ils_serve (rq\<lparr>rq_url := drop (length (ln_host n)) (rq_url rq)\<rparr>) (ln_server n) of
              (g, i) \<Rightarrow> (Inr (gin_response g), n\<lparr>ln_server := i\<rparr>))
      else (Inl ''no such host'', n))"

definition net_send :: "location_net transport" where
  "net_send rq n =
     (let d = (case ln_schedule n of [] \<Rightarrow> Delivered | d # _ \<Rightarrow> d);
          n = n\<lparr>ln_schedule := tl (ln_schedule n)\<rparr>
      in case d of
           Delivered \<Rightarrow> net_serve rq n
         | RequestLost \<Rightarrow> (Inl ''connection refused'', n)
         | ReplyLost \<Rightarrow> (Inl ''EOF'', snd (net_serve rq n)))"

definition net_view :: "location_net \<Rightarrow> string \<Rightarrow> bytes" where
  "net_view n = ils_view (ln_server n)"

definition net_ok :: "NormalizerFormat \<Rightarrow> location_net \<Rightarrow> bool" where
  "net_ok fmt n \<longleftrightarrow> ils_format (ln_server n) = fmt"

lemma ils_serve_format: "ils_serve c i = (g, i') \<Longrightarrow> ils_format i' = ils_format i"
  by (erule ils_serve_cases)
    (auto simp: handleLocationUpsertPost_rekey handleLocationDelete_rekey handleModelCardGet_def Let_def
      split: if_splits prod.splits option.splits)

lemma net_serve_effect:
  assumes "net_serve rq n = (r, n')"
  shows "net_ok fmt n' = net_ok fmt n
    \<and> (ln_server n' = ln_server n \<and> (\<forall>resp. r \<noteq> Inr resp)
       \<or> (\<exists>g. ils_serve (rq\<lparr>rq_url := drop (length (ln_host n)) (rq_url rq)\<rparr>) (ln_server n) = (g, ln_server n')
              \<and> r = Inr (gin_response g)))"
  using assms
  by (auto simp: net_serve_def net_ok_def ils_serve_format split: if_splits prod.splits)

lemma net_send_effect:
  assumes "net_send rq n = (r, n')"
  shows "net_ok fmt n' = net_ok fmt n
    \<and> (ln_server n' = ln_server n \<and> (\<forall>resp. r \<noteq> Inr resp)
       \<or> (\<exists>g. ils_serve (rq\<lparr>rq_url := drop (length (ln_host n)) (rq_url rq)\<rparr>) (ln_server n) = (g, ln_server n')
              \<and> (\<forall>resp. r = Inr resp \<longrightarrow> resp = gin_response g)))"
proof -
  let ?n = "n\<lparr>ln_schedule := tl (ln_schedule n)\<rparr>"
  have "net_ok fmt ?n = net_ok fmt n" by (simp add: net_ok_def)
  then show ?thesis
    using assms net_serve_effect [of rq ?n "fst (net_serve rq ?n)" "snd (net_serve rq ?n)" fmt]
    by (auto simp: net_send_def Let_def split: list.splits delivery.splits)
qed

text \<open>Both calls reach the route they are meant for, with the key and the body they were given.\<close>

lemma location_UpsertModel_effect:
  assumes "net_ok fmt n"
    and "location_UpsertModel net_send (SetupBridgeLocationRESTClient (ln_host n) tok) k pb n = ((rc, e), n')"
  shows "net_ok fmt n'
    \<and> (net_view n' = net_view n \<and> \<not> (e = None \<and> (rc = StatusCreated \<or> rc = StatusOK))
       \<or> (\<exists>k' uri. rekey fmt k = Some (k', uri) \<and> net_view n' = (net_view n)(uri := pb_Body pb)))"
proof -
  define rq where "rq = \<lparr>rq_method = POST, rq_url = ln_host n @ UpsertURI, rq_query = [(KeyQueryParam, k)],
    rq_token = tok, rq_body = JsonPayload (Some (marshal_PostBody pb))\<rparr>"
  obtain r where send: "net_send rq n = (r, n')"
    and res: "(rc, e) = (case r of Inl err \<Rightarrow> (StatusInternalServerError, Some err) | Inr resp \<Rightarrow> (rs_status resp, None))"
    using assms(2)
    by (auto simp: location_UpsertModel_def SetupBridgeLocationRESTClient_def client_result_def rq_def
        split: prod.splits sum.splits)
  let ?rq = "rq\<lparr>rq_url := drop (length (ln_host n)) (rq_url rq)\<rparr>"
  have key: "gin_Query ?rq ''key'' = k" "gin_BindJSON ?rq = (pb, None)"
    by (simp_all add: rq_def gin_Query_def gin_BindJSON_def KeyQueryParam_def)
  have serve: "ils_serve ?rq i = handleLocationUpsertPost ?rq i" for i
    by (simp add: ils_serve_def rq_def)
  from net_send_effect [OF send, of fmt] assms(1) have ok: "net_ok fmt n'" by simp
  from net_send_effect [OF send, of fmt]
  consider (lost) "ln_server n' = ln_server n" "\<forall>resp. r \<noteq> Inr resp"
    | (served) g where "ils_serve ?rq (ln_server n) = (g, ln_server n')"
        "\<forall>resp. r = Inr resp \<longrightarrow> resp = gin_response g"
    by blast
  then show ?thesis
  proof cases
    case lost
    then show ?thesis using ok res by (auto simp: net_view_def split: sum.splits)
  next
    case served
    have "rc = gr_status g" if "e = None"
      using res served(2) that by (auto simp: gin_response_def split: sum.splits)
    moreover have "handleLocationUpsertPost ?rq (ln_server n) = (g, ln_server n')"
      using served(1) serve by simp
    note handleLocationUpsertPost_effect [OF this, unfolded key net_view_def [symmetric]]
    ultimately show ?thesis
      using ok assms(1) by (auto simp: net_view_def net_ok_def status_defs)
  qed
qed

lemma location_UpsertModel_accepts:
  assumes "net_ok fmt n" and "rekey fmt k = Some (k', uri)"
    and "location_UpsertModel net_send (SetupBridgeLocationRESTClient (ln_host n) tok) k pb n = ((rc, None), n')"
  shows "rc = StatusCreated"
proof -
  define rq where "rq = \<lparr>rq_method = POST, rq_url = ln_host n @ UpsertURI, rq_query = [(KeyQueryParam, k)],
    rq_token = tok, rq_body = JsonPayload (Some (marshal_PostBody pb))\<rparr>"
  obtain resp where send: "net_send rq n = (Inr resp, n')" and rc: "rc = rs_status resp"
    using assms(3)
    by (auto simp: location_UpsertModel_def SetupBridgeLocationRESTClient_def client_result_def rq_def
        split: prod.splits sum.splits)
  let ?rq = "rq\<lparr>rq_url := drop (length (ln_host n)) (rq_url rq)\<rparr>"
  have key: "gin_Query ?rq ''key'' = k" "gin_BindJSON ?rq = (pb, None)" "k \<noteq> []"
    using assms(2) by (auto simp: rq_def gin_Query_def gin_BindJSON_def KeyQueryParam_def rekey_def)
  obtain g where "ils_serve ?rq (ln_server n) = (g, ln_server n')" "resp = gin_response g"
    using net_send_effect [OF send, of fmt] by auto
  then show ?thesis
    using key rc assms(1,2)
    by (auto simp: ils_serve_def rq_def handleLocationUpsertPost_rekey net_ok_def gin_defs split: prod.splits)
qed

lemma location_RemoveModel_effect:
  assumes "net_ok fmt n"
    and "location_RemoveModel net_send (SetupBridgeLocationRESTClient (ln_host n) tok) k n = ((rc, e), n')"
  shows "net_ok fmt n'
    \<and> (net_view n' = net_view n \<and> \<not> (e = None \<and> (rc = StatusCreated \<or> rc = StatusOK))
       \<or> (\<exists>k' uri. rekey fmt k = Some (k', uri) \<and> net_view n' = (net_view n)(uri := None)))"
proof -
  define rq where "rq = \<lparr>rq_method = DELETE, rq_url = ln_host n @ RemoveURI, rq_query = [(KeyQueryParam, k)],
    rq_token = tok, rq_body = NoPayload\<rparr>"
  obtain r where send: "net_send rq n = (r, n')"
    and res: "(rc, e) = (case r of Inl err \<Rightarrow> (StatusInternalServerError, Some err) | Inr resp \<Rightarrow> (rs_status resp, None))"
    using assms(2)
    by (auto simp: location_RemoveModel_def SetupBridgeLocationRESTClient_def client_result_def rq_def
        split: prod.splits sum.splits)
  let ?rq = "rq\<lparr>rq_url := drop (length (ln_host n)) (rq_url rq)\<rparr>"
  have key: "gin_Query ?rq ''key'' = k"
    by (simp add: rq_def gin_Query_def KeyQueryParam_def)
  have serve: "ils_serve ?rq i = handleLocationDelete ?rq i" for i
    by (simp add: ils_serve_def rq_def)
  from net_send_effect [OF send, of fmt] assms(1) have ok: "net_ok fmt n'" by simp
  from net_send_effect [OF send, of fmt]
  consider (lost) "ln_server n' = ln_server n" "\<forall>resp. r \<noteq> Inr resp"
    | (served) g where "ils_serve ?rq (ln_server n) = (g, ln_server n')"
        "\<forall>resp. r = Inr resp \<longrightarrow> resp = gin_response g"
    by blast
  then show ?thesis
  proof cases
    case lost
    then show ?thesis using ok res by (auto simp: net_view_def split: sum.splits)
  next
    case served
    have "rc = gr_status g" if "e = None"
      using res served(2) that by (auto simp: gin_response_def split: sum.splits)
    moreover have "handleLocationDelete ?rq (ln_server n) = (g, ln_server n')"
      using served(1) serve by simp
    note handleLocationDelete_effect [OF this, unfolded key net_view_def [symmetric]]
    ultimately show ?thesis
      using ok assms(1) by (auto simp: net_view_def net_ok_def status_defs)
  qed
qed

definition net_inv :: "string \<Rightarrow> NormalizerFormat \<Rightarrow> location_net \<Rightarrow> bool" where
  "net_inv host fmt n \<longleftrightarrow> ln_host n = host \<and> net_ok fmt n"

lemma net_send_host: "net_send rq n = (r, n') \<Longrightarrow> ln_host n' = ln_host n"
  by (auto simp: net_send_def net_serve_def Let_def split: delivery.splits if_splits prod.splits)

lemma client_result_host:
  "client_result (net_send rq n) = (r, n') \<Longrightarrow> ln_host n' = ln_host n"
  by (auto simp: client_result_def split: prod.splits sum.splits dest: net_send_host)

lemmas client_host = location_UpsertModel_def location_RemoveModel_def client_result_host

interpretation net: location_service
  "location_UpsertModel net_send (SetupBridgeLocationRESTClient host tok)"
  "location_RemoveModel net_send (SetupBridgeLocationRESTClient host tok)"
  net_view "net_inv host fmt" fmt
  for host tok fmt
proof unfold_locales
  fix l k pb r l'
  assume inv: "net_inv host fmt l"
    and call: "location_UpsertModel net_send (SetupBridgeLocationRESTClient host tok) k pb l = (r, l')"
  then have "ln_host l' = ln_host l" by (auto simp: client_host)
  with inv call location_UpsertModel_effect [of fmt l tok k pb "fst r" "snd r" l']
  show "net_inv host fmt l' \<and> (net_view l' = net_view l
      \<or> (\<exists>k' uri. rekey fmt k = Some (k', uri) \<and> net_view l' = (net_view l)(uri := pb_Body pb)))"
    by (auto simp: net_inv_def)
next
  fix l k r l'
  assume inv: "net_inv host fmt l"
    and call: "location_RemoveModel net_send (SetupBridgeLocationRESTClient host tok) k l = (r, l')"
  then have "ln_host l' = ln_host l" by (auto simp: client_host)
  with inv call location_RemoveModel_effect [of fmt l tok k "fst r" "snd r" l']
  show "net_inv host fmt l' \<and> (net_view l' = net_view l
      \<or> (\<exists>k' uri. rekey fmt k = Some (k', uri) \<and> net_view l' = (net_view l)(uri := None)))"
    by (auto simp: net_inv_def)
next
  fix l k pb rc l'
  assume "net_inv host fmt l" "rc = StatusCreated \<or> rc = StatusOK"
    and "location_UpsertModel net_send (SetupBridgeLocationRESTClient host tok) k pb l = ((rc, None), l')"
  then show "\<exists>k' uri. rekey fmt k = Some (k', uri) \<and> net_view l' = (net_view l)(uri := pb_Body pb)"
    using location_UpsertModel_effect [of fmt l tok k pb rc None l'] by (simp add: net_inv_def)
next
  fix l k pb rc l' k' uri
  assume "net_inv host fmt l" "rekey fmt k = Some (k', uri)"
    and "location_UpsertModel net_send (SetupBridgeLocationRESTClient host tok) k pb l = ((rc, None), l')"
  then show "rc = StatusCreated \<or> rc = StatusOK"
    using location_UpsertModel_accepts [of fmt l k k' uri tok pb rc l'] by (simp add: net_inv_def)
next
  fix l k rc l'
  assume "net_inv host fmt l" "rc = StatusOK \<or> rc = StatusCreated"
    and "location_RemoveModel net_send (SetupBridgeLocationRESTClient host tok) k l = ((rc, None), l')"
  then show "\<exists>k' uri. rekey fmt k = Some (k', uri) \<and> net_view l' = (net_view l)(uri := None)"
    using location_RemoveModel_effect [of fmt l tok k rc None l'] by (auto simp: net_inv_def)
qed

section \<open>Property\<close>

text \<open>
  Over a network that may lose any request or reply, a push of a document that the client
  reports as done (status 200 or 201 and no error) is what the location service then serves at
  the URI of its key, and no push, done or failed, touches the document of another URI.
\<close>

theorem pushed_document_is_served:
  assumes "ils_format (ln_server n) = fmt" and "rekey fmt k = Some (k', uri)"
    and "location_UpsertModel net_send (SetupBridgeLocationRESTClient (ln_host n) tok) k pb n = ((rc, e), n')"
  shows "(e = None \<and> (rc = StatusCreated \<or> rc = StatusOK) \<longrightarrow> net_view n' uri = pb_Body pb)
    \<and> (\<forall>uri'. uri' \<noteq> uri \<longrightarrow> net_view n' uri' = net_view n uri')"
proof -
  have inv: "net_inv (ln_host n) fmt n" using assms(1) by (simp add: net_inv_def net_ok_def)
  from net.up_frame [OF this assms(3)] assms(2) net.up_serves(1) [OF inv _ _ assms(2)] assms(3)
  show ?thesis by auto
qed

definition example_net :: "delivery list \<Rightarrow> location_net" where
  "example_net ds = \<lparr>ln_host = ''http://localhost:9090'', ln_server = NewImportLocationServer JsonArrayForamt,
     ln_schedule = ds\<rparr>"

theorem pushed_document_is_served_witness:
  "net_view (snd (location_UpsertModel net_send (SetupBridgeLocationRESTClient ''http://localhost:9090'' '''')
      ''mnist_v1'' (example_post ''7'' '''') (example_net []))) ''/mnist/v1/model-catalog.json'' = Some ''{}''"
proof -
  let ?call = "location_UpsertModel net_send (SetupBridgeLocationRESTClient (ln_host (example_net [])) '''')
      ''mnist_v1'' (example_post ''7'' '''') (example_net [])"
  have "fst ?call = (StatusCreated, None)" by code_simp
  then have call: "?call = ((StatusCreated, None), snd ?call)" by (metis prod.collapse)
  have "ils_format (ln_server (example_net [])) = JsonArrayForamt"
    "rekey JsonArrayForamt ''mnist_v1'' = Some (''mnist_v1'', ''/mnist/v1/model-catalog.json'')"
    by code_simp+
  from pushed_document_is_served [OF this call] show ?thesis
    by (simp add: example_net_def example_post_def)
qed

end
