(* ===== verification/StorageServer.thy ===== *)
theory StorageServer
  imports ConfigMapStore LocationClient Backstage
begin

text \<open>
  The storage service, \<^verbatim>\<open>pkg/cmd/server/storage/server.go\<close>: it keeps the catalog documents in the
  storage tier, pushes them to the location service, and imports their locations into Backstage.

  Outside the program are the cluster (the REST configuration and the route of Backstage) and
  the network to Backstage; both are calls on one world, collected in \<open>BkstgEnv\<close>.  Each handler is
  one step: two requests for one key at a time are not modelled.
\<close>

section \<open>Finding Backstage\<close>

record route =
  rt_Labels :: "string go_map"
  rt_Host :: string

record 'b BkstgEnv =
  be_GetRESTConfig :: "'b \<Rightarrow> go_error \<times> 'b"
  be_Routes :: "string \<Rightarrow> 'b \<Rightarrow> (string + route list) \<times> 'b"
  be_BackstageUrl :: string
  be_PodNS :: string
  be_send :: "'b transport"

definition strip_crlf :: "string \<Rightarrow> string" where
  "strip_crlf s = remove_char (CHR 0x0A) (remove_char (CHR 0x0D) s)"

text \<open>The last route whose label names Backstage gives the URL.\<close>

definition backstage_route :: "route list \<Rightarrow> string" where
  "backstage_route routes =
     foldl (\<lambda>bkstgURL r.
       case map_of (rt_Labels r) ''app.kubernetes.io/name'' of
         None \<Rightarrow> bkstgURL
       | Some v \<Rightarrow> if contains v ''backstage'' then ''https://'' @ rt_Host r else bkstgURL) [] routes"

definition GetBackstageURL :: "'b BkstgEnv \<Rightarrow> 'b \<Rightarrow> string \<times> 'b" where
  "GetBackstageURL env b =
     (let bkstgURL = strip_crlf (be_BackstageUrl env)
      in if length bkstgURL = 0
         then (case be_Routes env (strip_crlf (be_PodNS env)) b of
                 (Inl err, b') \<Rightarrow> ('''', b')
               | (Inr routes, b') \<Rightarrow> (backstage_route routes, b'))
         else (bkstgURL, b))"

section \<open>The server\<close>

text \<open>What a server is set up with, and its state.\<close>

record ('s, 'l, 'b) StorageDeps =
  sd_st :: "'s BridgeStorage"
  sd_UpsertModel :: "string \<Rightarrow> PostBody \<Rightarrow> 'l \<Rightarrow> (nat \<times> go_error) \<times> 'l"
  sd_RemoveModel :: "string \<Rightarrow> 'l \<Rightarrow> (nat \<times> go_error) \<times> 'l"
  sd_HostURL :: string
  sd_env :: "'b BkstgEnv"
  sd_bkstgToken :: string
  sd_format :: NormalizerFormat
  sd_pushToRHDH :: bool

definition sd_bkstg :: "('s, 'l, 'b) StorageDeps \<Rightarrow> BackstageRESTClientWrapper \<Rightarrow> 'b BackstageImport" where
  "sd_bkstg D w = BackstageREST (be_send (sd_env D)) w"

record ('s, 'l, 'b) StorageRESTServer =
  ss_st :: 's
  ss_pushedLocations :: "StorageBody go_map"
  ss_locations :: 'l
  ss_bkstg :: "BackstageRESTClientWrapper option"
  ss_world :: 'b

definition setupBkstg ::
    "('s, 'l, 'b) StorageDeps \<Rightarrow> ('s, 'l, 'b) StorageRESTServer \<Rightarrow> bool \<times> ('s, 'l, 'b) StorageRESTServer" where
  "setupBkstg D s =
     (case ss_bkstg s of
        Some _ \<Rightarrow> (True, s)
      | None \<Rightarrow>
          (case be_GetRESTConfig (sd_env D) (ss_world s) of
             (Some err, b) \<Rightarrow> (False, s\<lparr>ss_world := b\<rparr>)
           | (None, b) \<Rightarrow>
               (case GetBackstageURL (sd_env D) b of
                  (bkstgURL, b') \<Rightarrow>
                    if length bkstgURL > 0
                    then (True, s\<lparr>ss_world := b',
                            ss_bkstg := Some (SetupBackstageRESTClient bkstgURL (sd_bkstgToken D) False False)\<rparr>)
                    else (False, s\<lparr>ss_world := b'\<rparr>))))"

definition NewStorageRESTServer ::
    "('s, 'l, 'b) StorageDeps \<Rightarrow> 's \<Rightarrow> 'l \<Rightarrow> 'b \<Rightarrow> ('s, 'l, 'b) StorageRESTServer" where
  "NewStorageRESTServer D st l b =
     snd (setupBkstg D \<lparr>ss_st = st, ss_pushedLocations = [], ss_locations = l, ss_bkstg = None, ss_world = b\<rparr>)"

text \<open>
  \<^verbatim>\<open>*types.StorageBody\<close>: a pointer into the cache, which holds one pointer per key and no pointer
  under two keys, or a pointer to a body only the handler has.
\<close>

datatype sb_ref = Cached string | Fresh StorageBody

definition sb_deref :: "('s, 'l, 'b) StorageRESTServer \<Rightarrow> sb_ref \<Rightarrow> StorageBody" where
  "sb_deref s r =
     (case r of
        Fresh sb \<Rightarrow> sb
      | Cached k \<Rightarrow> (case map_of (ss_pushedLocations s) k of None \<Rightarrow> StorageBody_zero | Some sb \<Rightarrow> sb))"

definition sb_assign ::
    "(StorageBody \<Rightarrow> StorageBody) \<Rightarrow> ('s, 'l, 'b) StorageRESTServer \<Rightarrow> sb_ref
      \<Rightarrow> sb_ref \<times> ('s, 'l, 'b) StorageRESTServer" where
  "sb_assign f s r =
     (case r of
        Fresh sb \<Rightarrow> (Fresh (f sb), s)
      | Cached k \<Rightarrow>
          (Cached k, s\<lparr>ss_pushedLocations := AList.update k (f (sb_deref s r)) (ss_pushedLocations s)\<rparr>))"

text \<open>\<open>None\<close> is the run-time panic of a call on the nil interface \<^verbatim>\<open>s.bkstg\<close>.\<close>

definition sync ::
    "('s, 'l, 'b) StorageDeps \<Rightarrow> string \<Rightarrow> ('s, 'l, 'b) StorageRESTServer
      \<Rightarrow> (sb_ref \<times> go_error) option \<times> ('s, 'l, 'b) StorageRESTServer" where
  "sync D key s =
     (if (case map_of (ss_pushedLocations s) key of None \<Rightarrow> False | Some sb \<Rightarrow> sb_LocationIDValid sb)
      then (Some (Cached key, None), s)
      else (case bs_Fetch (sd_st D) key (ss_st s) of
              ((ssb, err), st) \<Rightarrow>
                (let s = s\<lparr>ss_st := st\<rparr>
                 in if err = None \<and> length (sb_LocationId ssb) > 0
                    then (case ss_bkstg s of
                            None \<Rightarrow> (None, s)
                          | Some w \<Rightarrow>
                              (case bi_GetLocation (sd_bkstg D w) (sb_LocationId ssb) (ss_world s) of
                                 ((_, None), b) \<Rightarrow>
                                   (Some (Cached key, None),
                                    s\<lparr>ss_world := b,
                                      ss_pushedLocations := AList.update key (ssb\<lparr>sb_LocationIDValid := True\<rparr>)
                                        (ss_pushedLocations s)\<rparr>)
                               | ((_, Some _), b) \<Rightarrow>
                                   (case bs_Remove (sd_st D) key (ss_st s) of
                                      (err, st') \<Rightarrow>
                                        (Some (Fresh StorageBody_zero, err),
                                         s\<lparr>ss_world := b, ss_st := st',
                                           ss_pushedLocations := AList.delete key (ss_pushedLocations s)\<rparr>))))
                    else (Some (Fresh ssb, err), s))))"

definition del :: "string \<Rightarrow> ('s, 'l, 'b) StorageRESTServer \<Rightarrow> ('s, 'l, 'b) StorageRESTServer" where
  "del key s = s\<lparr>ss_pushedLocations := AList.delete key (ss_pushedLocations s)\<rparr>"

section \<open>POST /currentkeyset\<close>

definition purge_key ::
    "('s, 'l, 'b) StorageDeps \<Rightarrow> string \<Rightarrow> ('s, 'l, 'b) StorageRESTServer
      \<Rightarrow> handler_error option \<times> ('s, 'l, 'b) StorageRESTServer" where
  "purge_key D k s =
     (case bs_Fetch (sd_st D) k (ss_st s) of
        ((sb, _), st) \<Rightarrow>
          (case bs_Remove (sd_st D) k st of
             (Some err, st') \<Rightarrow> (Some (Errorf err), s\<lparr>ss_st := st'\<rparr>)
           | (None, st') \<Rightarrow>
               (let s = del k (s\<lparr>ss_st := st'\<rparr>);
                    (bkstAvailable, s) = setupBkstg D s;
                    s = (case ss_bkstg s of
                           Some w \<Rightarrow>
                             if length (sb_LocationId sb) > 0 \<and> bkstAvailable
                             then s\<lparr>ss_world := snd (bi_DeleteLocation (sd_bkstg D w) (sb_LocationId sb) (ss_world s))\<rparr>
                             else s
                         | None \<Rightarrow> s)
                in case sd_RemoveModel D k (ss_locations s) of
                     ((rc, Some err), l) \<Rightarrow> (Some (Errorf err), s\<lparr>ss_locations := l\<rparr>)
                   | ((rc, None), l) \<Rightarrow>
                       if rc \<noteq> StatusOK \<and> rc \<noteq> StatusCreated
                       then (Some (ErrorfDump (''bad rc removing from storage key '' @ show_nat rc @ '': '')),
                             s\<lparr>ss_locations := l\<rparr>)
                       else (None, s\<lparr>ss_locations := l\<rparr>))))"

fun purge_keys ::
    "('s, 'l, 'b) StorageDeps \<Rightarrow> string list \<Rightarrow> string list \<Rightarrow> handler_error list
      \<Rightarrow> ('s, 'l, 'b) StorageRESTServer \<Rightarrow> handler_error list \<times> ('s, 'l, 'b) StorageRESTServer" where
  "purge_keys D keyHash [] errors s = (errors, s)"
| "purge_keys D keyHash (k # ks) errors s =
     (if k \<in> set keyHash then purge_keys D keyHash ks errors s
      else (case purge_key D k s of
              (None, s') \<Rightarrow> purge_keys D keyHash ks errors s'
            | (Some e, s') \<Rightarrow> purge_keys D keyHash ks (errors @ [e]) s'))"

definition posted_keys :: "http_request \<Rightarrow> string list" where
  "posted_keys c =
     (let key = gin_Query c KeyQueryParam
      in if length key > 0 then go_split (CHR '','') key else [])"

definition handleCatalogCurrentKeySetPost ::
    "('s, 'l, 'b) StorageDeps \<Rightarrow> http_request \<Rightarrow> ('s, 'l, 'b) StorageRESTServer
      \<Rightarrow> gin_result \<times> ('s, 'l, 'b) StorageRESTServer" where
  "handleCatalogCurrentKeySetPost D c s =
     (case bs_List (sd_st D) (ss_st s) of
        ((_, Some err), st) \<Rightarrow> (gin_error StatusInternalServerError [Errorf err], s\<lparr>ss_st := st\<rparr>)
      | ((currentKeys, None), st) \<Rightarrow>
          (case purge_keys D (posted_keys c) currentKeys [] (s\<lparr>ss_st := st\<rparr>) of
             (errors, s') \<Rightarrow>
               if length errors > 0
               then (gin_error StatusInternalServerError [ErrorfDump (show_nat (length errors) @ '' errors: '')], s')
               else (gin_status StatusOK, s')))"

section \<open>POST /upsert\<close>

text \<open>The last store, with the id and target of the location.  \<open>errs\<close> are the errors so far.\<close>

definition upsert_finish ::
    "('s, 'l, 'b) StorageDeps \<Rightarrow> string \<Rightarrow> sb_ref \<Rightarrow> handler_error list \<Rightarrow> ('s, 'l, 'b) StorageRESTServer
      \<Rightarrow> gin_result \<times> ('s, 'l, 'b) StorageRESTServer" where
  "upsert_finish D key sb errs s =
     (case bs_Upsert (sd_st D) key (sb_deref s sb) (ss_st s) of
        (Some err, st) \<Rightarrow>
          (gin_error StatusInternalServerError
             (errs @ [Errorf (''error upserting to storage key '' @ key @ '' POST body plus backstage ID: '' @ err)]),
           s\<lparr>ss_st := st\<rparr>)
      | (None, st) \<Rightarrow> (gin_error StatusCreated errs, s\<lparr>ss_st := st\<rparr>))"

definition upsert_import ::
    "('s, 'l, 'b) StorageDeps \<Rightarrow> string \<Rightarrow> string \<Rightarrow> sb_ref \<Rightarrow> handler_error list \<Rightarrow> ('s, 'l, 'b) StorageRESTServer
      \<Rightarrow> gin_result \<times> ('s, 'l, 'b) StorageRESTServer" where
  "upsert_import D key uri sb errs s =
     (case setupBkstg D s of
        (available, s) \<Rightarrow>
          (case ss_bkstg s of
             None \<Rightarrow> upsert_finish D key sb errs s
           | Some w \<Rightarrow>
               if \<not> available \<or> \<not> sd_pushToRHDH D then upsert_finish D key sb errs s
               else (case bi_ImportLocation (sd_bkstg D w) (sd_HostURL D @ uri) (ss_world s) of
                       ((_, Some err), b) \<Rightarrow> (gin_error StatusCreated errs, s\<lparr>ss_world := b\<rparr>)
                     | ((impResp, None), b) \<Rightarrow>
                         (let s = s\<lparr>ss_world := b\<rparr>
                          in case ParseImportLocationMap impResp of
                               (retID, retTarget, rok) \<Rightarrow>
                                 if \<not> rok
                                 then (gin_error StatusBadRequest
                                         (errs @ [ErrorfDump ''parsing of import location return had an issue: '']), s)
                                 else (case sb_assign (\<lambda>b. b\<lparr>sb_LocationId := retID, sb_LocationTarget := retTarget\<rparr>) s sb of
                                         (sb, s) \<Rightarrow> upsert_finish D key sb errs s)))))"

text \<open>Whether Backstage still has the location; \<open>None\<close> is a panic again.\<close>

definition still_pushed ::
    "('s, 'l, 'b) StorageDeps \<Rightarrow> sb_ref \<Rightarrow> ('s, 'l, 'b) StorageRESTServer
      \<Rightarrow> bool option \<times> ('s, 'l, 'b) StorageRESTServer" where
  "still_pushed D sb s =
     (case ss_bkstg s of
        None \<Rightarrow> (None, s)
      | Some w \<Rightarrow>
          (case bi_GetLocation (sd_bkstg D w) (sb_LocationId (sb_deref s sb)) (ss_world s) of
             ((locationMap, err), b) \<Rightarrow>
               (Some (if err \<noteq> None \<or> length locationMap = 0 then False
                      else snd (snd (ParseImportLocationMap locationMap))),
                s\<lparr>ss_world := b\<rparr>)))"

text \<open>The part after the push to the location service, whose bad status does not end the handler.\<close>

definition upsert_backstage ::
    "('s, 'l, 'b) StorageDeps \<Rightarrow> string \<Rightarrow> string \<Rightarrow> bool \<Rightarrow> sb_ref \<Rightarrow> handler_error list
      \<Rightarrow> ('s, 'l, 'b) StorageRESTServer \<Rightarrow> gin_result \<times> ('s, 'l, 'b) StorageRESTServer" where
  "upsert_backstage D key uri alreadyPushed sb errs s =
     (if \<not> alreadyPushed then upsert_import D key uri sb errs s
      else (case still_pushed D sb s of
              (None, s) \<Rightarrow> (gin_error StatusInternalServerError errs, s)
            | (Some True, s) \<Rightarrow> (gin_error StatusOK errs, s)
            | (Some False, s) \<Rightarrow> upsert_import D key uri sb errs s))"

definition upsert_push ::
    "('s, 'l, 'b) StorageDeps \<Rightarrow> string \<Rightarrow> string \<Rightarrow> PostBody \<Rightarrow> bool \<Rightarrow> sb_ref
      \<Rightarrow> ('s, 'l, 'b) StorageRESTServer \<Rightarrow> gin_result \<times> ('s, 'l, 'b) StorageRESTServer" where
  "upsert_push D key uri postBody alreadyPushed sb s =
     (case sd_UpsertModel D key postBody (ss_locations s) of
        ((rc, Some err), l) \<Rightarrow>
          (gin_error StatusInternalServerError
             [ErrorfDump (''error upserting to bridge uri '' @ uri @ '' POST body: msg '')], s\<lparr>ss_locations := l\<rparr>)
      | ((rc, None), l) \<Rightarrow>
          (let errs = (if rc \<noteq> StatusCreated \<and> rc \<noteq> StatusOK
                       then [ErrorfDump (''error upserting to bridge uri '' @ uri @ '' POST body: msg '')] else [])
           in upsert_backstage D key uri alreadyPushed sb errs (s\<lparr>ss_locations := l\<rparr>)))"

definition upsert_store ::
    "('s, 'l, 'b) StorageDeps \<Rightarrow> string \<Rightarrow> string \<Rightarrow> string \<Rightarrow> PostBody
      \<Rightarrow> ('s, 'l, 'b) StorageRESTServer \<Rightarrow> gin_result \<times> ('s, 'l, 'b) StorageRESTServer" where
  "upsert_store D key uri reconcilerType postBody s =
     (case sync D key s of
        (None, s) \<Rightarrow> (gin_status StatusInternalServerError, s)
      | (Some (sb, Some err), s) \<Rightarrow> (gin_status StatusInternalServerError, s)
      | (Some (sb, None), s) \<Rightarrow>
          (let alreadyPushed = length (sb_LocationId (sb_deref s sb)) > 0
           in case sb_assign (\<lambda>b. b\<lparr>sb_Body := pb_Body postBody, sb_ReconcilerType := reconcilerType\<rparr>) s sb of
                (sb, s) \<Rightarrow>
                  (case bs_Upsert (sd_st D) key (sb_deref s sb) (ss_st s) of
                     (Some err, st) \<Rightarrow>
                       (gin_error StatusInternalServerError
                          [Errorf (''error upserting to storage key '' @ key @ '' POST body: '' @ err)], s\<lparr>ss_st := st\<rparr>)
                   | (None, st) \<Rightarrow> upsert_push D key uri postBody alreadyPushed sb (s\<lparr>ss_st := st\<rparr>))))"

definition handleCatalogUpsertPost ::
    "('s, 'l, 'b) StorageDeps \<Rightarrow> http_request \<Rightarrow> ('s, 'l, 'b) StorageRESTServer
      \<Rightarrow> gin_result \<times> ('s, 'l, 'b) StorageRESTServer" where
  "handleCatalogUpsertPost D c s =
     (let key = gin_Query c KeyQueryParam;
          reconcilerType = gin_Query c TypeQueryParam
      in if length key = 0
         then (gin_error StatusBadRequest [Errorf ''need a 'key' parameter''], s)
         else (case gin_BindJSON c of
                 (postBody, Some err) \<Rightarrow>
                   (gin_error StatusBadRequest [Errorf err, Errorf (''error reading POST body: '' @ err)], s)
               | (postBody, None) \<Rightarrow>
                   (case rekey (sd_format D) key of
                      None \<Rightarrow> (gin_error StatusBadRequest [Errorf (''bad key format: '' @ key)], s)
                    | Some (key, uri) \<Rightarrow> upsert_store D key uri reconcilerType postBody s)))"

section \<open>GET /list and GET /fetch\<close>

definition handleCatalogList ::
    "('s, 'l, 'b) StorageDeps \<Rightarrow> ('s, 'l, 'b) StorageRESTServer \<Rightarrow> gin_result \<times> ('s, 'l, 'b) StorageRESTServer" where
  "handleCatalogList D s =
     (case bs_List (sd_st D) (ss_st s) of
        ((_, Some err), st) \<Rightarrow>
          (gin_error StatusInternalServerError [Errorf (''error listing location keys: '' @ err)], s\<lparr>ss_st := st\<rparr>)
      | ((keys, None), st) \<Rightarrow>
          (gin_data StatusOK (JsonPayload (Some (JObj [(''keys'', JArr (map JStr keys))]))), s\<lparr>ss_st := st\<rparr>))"

definition handleCatalogFetch ::
    "('s, 'l, 'b) StorageDeps \<Rightarrow> http_request \<Rightarrow> ('s, 'l, 'b) StorageRESTServer
      \<Rightarrow> gin_result \<times> ('s, 'l, 'b) StorageRESTServer" where
  "handleCatalogFetch D c s =
     (let key = gin_Query c KeyQueryParam
      in if length key = 0
         then (gin_error StatusBadRequest [Errorf ''need a 'key' parameter''], s)
         else (case bs_Fetch (sd_st D) key (ss_st s) of
                 ((sb, _), st) \<Rightarrow>
                   (gin_data StatusOK (JsonPayload (Some (marshal_StorageBody sb))), s\<lparr>ss_st := st\<rparr>)))"

definition ss_serve ::
    "('s, 'l, 'b) StorageDeps \<Rightarrow> http_request \<Rightarrow> ('s, 'l, 'b) StorageRESTServer
      \<Rightarrow> gin_result \<times> ('s, 'l, 'b) StorageRESTServer" where
  "ss_serve D c s =
     (case rq_method c of
        POST \<Rightarrow>
          if rq_url c = UpsertURI then handleCatalogUpsertPost D c s
          else if rq_url c = CurrentKeySetURI then handleCatalogCurrentKeySetPost D c s
          else (gin_status StatusNotFound, s)
      | GET \<Rightarrow>
          if rq_url c = ListURI then handleCatalogList D s
          else if rq_url c = FetchURI then handleCatalogFetch D c s
          else (gin_status StatusNotFound, s)
      | DELETE \<Rightarrow> (gin_status StatusNotFound, s))"

section \<open>What the services promise each other\<close>

text \<open>
  The laws of the storage tier and of the location client together; \<open>sview\<close> is what the storage
  tier holds for each key, \<open>lview\<close> what the location service serves at each URI.
\<close>

locale storage_deps = st: bridge_storage "sd_st D" sview sinv
    + loc: location_service "sd_UpsertModel D" "sd_RemoveModel D" lview linv "sd_format D"
  for D :: "('s, 'l, 'b) StorageDeps"
    and sview :: "'s \<Rightarrow> string \<Rightarrow> StorageBody option" and sinv :: "'s \<Rightarrow> bool"
    and lview :: "'l \<Rightarrow> string \<Rightarrow> bytes" and linv :: "'l \<Rightarrow> bool"

text \<open>The cache holds validated bodies only, one per key.\<close>

definition cache_ok :: "('s, 'l, 'b) StorageRESTServer \<Rightarrow> bool" where
  "cache_ok s \<longleftrightarrow> distinct (map fst (ss_pushedLocations s))
     \<and> (\<forall>k b. map_of (ss_pushedLocations s) k = Some b \<longrightarrow> sb_LocationIDValid b)"

text \<open>A reference the handler of \<open>k\<close> holds: into the cache only at \<open>k\<close>, where there is an entry.\<close>

definition ref_ok :: "string \<Rightarrow> ('s, 'l, 'b) StorageRESTServer \<Rightarrow> sb_ref \<Rightarrow> bool" where
  "ref_ok k s r \<longleftrightarrow>
     (case r of Fresh _ \<Rightarrow> True | Cached k' \<Rightarrow> k' = k \<and> map_of (ss_pushedLocations s) k \<noteq> None)"

text \<open>Same storage tier, location service and cache: only Backstage was talked to.\<close>

definition same_data :: "('s, 'l, 'b) StorageRESTServer \<Rightarrow> ('s, 'l, 'b) StorageRESTServer \<Rightarrow> bool" where
  "same_data s s' \<longleftrightarrow> ss_st s' = ss_st s \<and> ss_locations s' = ss_locations s
     \<and> ss_pushedLocations s' = ss_pushedLocations s"

lemma setupBkstg_same: "setupBkstg D s = (a, s') \<Longrightarrow> same_data s s' \<and> (a \<longleftrightarrow> ss_bkstg s' \<noteq> None)"
  by (auto simp: setupBkstg_def same_data_def split: option.splits prod.splits if_splits)

lemma still_pushed_same: "still_pushed D r s = (a, s') \<Longrightarrow> same_data s s'"
  by (auto simp: still_pushed_def same_data_def split: option.splits prod.splits)

lemma sb_assign_effect:
  assumes "sb_assign f s r = (r', s')" "ref_ok k s r"
  shows "ss_st s' = ss_st s" "ss_locations s' = ss_locations s" "ss_bkstg s' = ss_bkstg s" "ss_world s' = ss_world s"
    "sb_deref s' r' = f (sb_deref s r)" "ref_ok k s' r'"
    "k' \<noteq> k \<Longrightarrow> map_of (ss_pushedLocations s') k' = map_of (ss_pushedLocations s) k'"
    "cache_ok s \<Longrightarrow> (\<And>b. sb_LocationIDValid (f b) = sb_LocationIDValid b) \<Longrightarrow> cache_ok s'"
  using assms
  by (auto simp: sb_assign_def ref_ok_def sb_deref_def cache_ok_def simp del: map_of_eq_Some_iff
      split: sb_ref.splits if_splits)

lemma data_simps [simp]:
  "sb_deref (s\<lparr>ss_locations := l\<rparr>) r = sb_deref s r" "ref_ok k (s\<lparr>ss_locations := l\<rparr>) r = ref_ok k s r"
  "cache_ok (s\<lparr>ss_locations := l\<rparr>) = cache_ok s"
  "sb_deref (s\<lparr>ss_st := st\<rparr>) r = sb_deref s r" "ref_ok k (s\<lparr>ss_st := st\<rparr>) r = ref_ok k s r"
  "cache_ok (s\<lparr>ss_st := st\<rparr>) = cache_ok s"
  by (simp_all add: sb_deref_def ref_ok_def cache_ok_def split: sb_ref.splits)

lemma same_data_simps:
  "same_data s s' \<Longrightarrow> ss_st s' = ss_st s" "same_data s s' \<Longrightarrow> ss_locations s' = ss_locations s"
  "same_data s s' \<Longrightarrow> ss_pushedLocations s' = ss_pushedLocations s"
  "same_data s s' \<Longrightarrow> sb_deref s' r = sb_deref s r" "same_data s s' \<Longrightarrow> ref_ok k s' r = ref_ok k s r"
  "same_data s s' \<Longrightarrow> cache_ok s' = cache_ok s"
  by (simp_all add: same_data_def sb_deref_def ref_ok_def cache_ok_def split: sb_ref.splits)

section \<open>The upsert handler\<close>

text \<open>Once the body is stored and pushed, an answer of 200 or 201 adds no error.\<close>

lemma upsert_finish_status:
  "upsert_finish D k r errs s = (g, s') \<Longrightarrow> gr_status g = StatusOK \<or> gr_status g = StatusCreated \<Longrightarrow> gr_errors g = errs"
  by (auto simp: upsert_finish_def gin_defs status_defs split: prod.splits option.splits)

lemma upsert_import_status:
  "upsert_import D k uri r errs s = (g, s') \<Longrightarrow> gr_status g = StatusOK \<or> gr_status g = StatusCreated \<Longrightarrow> gr_errors g = errs"
  unfolding upsert_import_def
  by (auto simp: gin_error_def Let_def status_defs split: prod.splits option.splits if_splits
      dest: upsert_finish_status [unfolded status_defs])

lemma upsert_backstage_status:
  "upsert_backstage D k uri a r errs s = (g, s') \<Longrightarrow> gr_status g = StatusOK \<or> gr_status g = StatusCreated \<Longrightarrow> gr_errors g = errs"
  unfolding upsert_backstage_def
  by (auto simp: gin_error_def status_defs split: prod.splits option.splits if_splits bool.splits
      dest: upsert_import_status [unfolded status_defs])

definition posted_body :: "PostBody \<Rightarrow> string \<Rightarrow> string \<Rightarrow> StorageBody \<Rightarrow> bool" where
  "posted_body pb ty ep b \<longleftrightarrow> sb_Body b = pb_Body pb \<and> sb_ReconcilerType b = ty
     \<and> sb_LastUpdateTimeSinceEpoch b = ep"

context storage_deps
begin

lemma sync_effect:
  assumes inv: "sinv (ss_st s)" and sync: "sync D k s = (r, s')"
  shows "sinv (ss_st s')" "ss_locations s' = ss_locations s" "ss_bkstg s' = ss_bkstg s"
    "k' \<noteq> k \<Longrightarrow> sview (ss_st s') k' = sview (ss_st s) k'"
    "k' \<noteq> k \<Longrightarrow> map_of (ss_pushedLocations s') k' = map_of (ss_pushedLocations s) k'"
    "cache_ok s \<Longrightarrow> cache_ok s'"
    "r = Some (sb, e) \<Longrightarrow> ref_ok k s' sb"
    "sview (ss_st s') k = sview (ss_st s) k \<or> sview (ss_st s') k = None"
proof -
  obtain ssb err st where f: "bs_Fetch (sd_st D) k (ss_st s) = ((ssb, err), st)" by (metis prod.collapse)
  obtain err' st' where r: "bs_Remove (sd_st D) k st = (err', st')" by fastforce
  have fk: "sinv st" "sview st = sview (ss_st s)" using st.fetch_keeps [OF inv f] by auto
  have rk: "sinv st'" "\<And>k'. k' \<noteq> k \<Longrightarrow> sview st' k' = sview (ss_st s) k'"
    "sview st' k = sview (ss_st s) k \<or> sview st' k = None"
    using st.remove_keeps [OF fk(1) r] fk(2) by auto
  note facts = fk rk inv f r
  show "sinv (ss_st s')" "ss_locations s' = ss_locations s" "ss_bkstg s' = ss_bkstg s"
    "k' \<noteq> k \<Longrightarrow> sview (ss_st s') k' = sview (ss_st s) k'"
    "k' \<noteq> k \<Longrightarrow> map_of (ss_pushedLocations s') k' = map_of (ss_pushedLocations s) k'"
    "cache_ok s \<Longrightarrow> cache_ok s'"
    "r = Some (sb, e) \<Longrightarrow> ref_ok k s' sb"
    "sview (ss_st s') k = sview (ss_st s) k \<or> sview (ss_st s') k = None"
    using sync facts
    by (auto simp: sync_def Let_def cache_ok_def ref_ok_def split: option.splits prod.splits if_splits)
qed

lemma upsert_finish_effect:
  assumes inv: "sinv (ss_st s)" and fin: "upsert_finish D k r errs s = (g, s')"
  shows "sinv (ss_st s')" "ss_locations s' = ss_locations s" "ss_pushedLocations s' = ss_pushedLocations s"
    "k' \<noteq> k \<Longrightarrow> sview (ss_st s') k' = sview (ss_st s) k'"
    "sview (ss_st s') k = sview (ss_st s) k \<or> sview (ss_st s') k = Some (sb_deref s r)"
    "gr_errors g = [] \<Longrightarrow> errs = []"
proof -
  obtain e st where u: "bs_Upsert (sd_st D) k (sb_deref s r) (ss_st s) = (e, st)" by fastforce
  with st.upsert_keeps [OF inv u] fin
  show "sinv (ss_st s')" "ss_locations s' = ss_locations s" "ss_pushedLocations s' = ss_pushedLocations s"
    "k' \<noteq> k \<Longrightarrow> sview (ss_st s') k' = sview (ss_st s) k'"
    "sview (ss_st s') k = sview (ss_st s) k \<or> sview (ss_st s') k = Some (sb_deref s r)"
    "gr_errors g = [] \<Longrightarrow> errs = []"
    by (auto simp: upsert_finish_def gin_defs split: option.splits)
qed

text \<open>
  What holds from the first store on: the storage tier has a body with the posted document and
  reconciler type, and so has the reference the handler works with.
\<close>

definition stored :: "PostBody \<Rightarrow> string \<Rightarrow> string \<Rightarrow> string \<Rightarrow> sb_ref \<Rightarrow> ('s, 'l, 'b) StorageRESTServer \<Rightarrow> bool" where
  "stored pb ty ep k r s \<longleftrightarrow> ref_ok k s r \<and> posted_body pb ty ep (sb_deref s r)
     \<and> (\<exists>b. sview (ss_st s) k = Some b \<and> posted_body pb ty ep b)"

lemma stored_same: "same_data s s' \<Longrightarrow> stored pb ty ep k r s' = stored pb ty ep k r s"
  by (simp add: stored_def same_data_simps)

lemma upsert_finish_stored:
  assumes "sinv (ss_st s)" "upsert_finish D k r errs s = (g, s')" "stored pb ty ep k r s"
  shows "\<exists>b. sview (ss_st s') k = Some b \<and> posted_body pb ty ep b"
  using upsert_finish_effect(5) [OF assms(1,2)] assms(3) by (auto simp: stored_def)

text \<open>One step of the handler after the first store: what it keeps and what it establishes.\<close>

definition finishes :: "PostBody \<Rightarrow> string \<Rightarrow> string \<Rightarrow> string \<Rightarrow> handler_error list
    \<Rightarrow> ('s, 'l, 'b) StorageRESTServer \<Rightarrow> gin_result \<times> ('s, 'l, 'b) StorageRESTServer \<Rightarrow> bool" where
  "finishes pb ty ep k errs s gs \<longleftrightarrow> (case gs of (g, s') \<Rightarrow>
     sinv (ss_st s') \<and> ss_locations s' = ss_locations s
     \<and> (\<forall>k'. k' \<noteq> k \<longrightarrow> sview (ss_st s') k' = sview (ss_st s) k'
          \<and> map_of (ss_pushedLocations s') k' = map_of (ss_pushedLocations s) k')
     \<and> (cache_ok s \<longrightarrow> cache_ok s')
     \<and> (\<exists>b. sview (ss_st s') k = Some b \<and> posted_body pb ty ep b)
     \<and> (gr_errors g = [] \<longrightarrow> errs = []))"

lemma finishes_same_start: "same_data s0 s \<Longrightarrow> finishes pb ty ep k errs s gs \<Longrightarrow> finishes pb ty ep k errs s0 gs"
  by (auto simp: finishes_def same_data_simps)

lemma finishes_stop:
  assumes "sinv (ss_st s)" "stored pb ty ep k r s" "same_data s s'" "gr_errors g = [] \<longrightarrow> errs = []"
  shows "finishes pb ty ep k errs s (g, s')"
  using assms by (simp add: finishes_def stored_def same_data_simps)

lemma finishes_finish:
  assumes "sinv (ss_st s)" "stored pb ty ep k r s"
  shows "finishes pb ty ep k errs s (upsert_finish D k r errs s)"
proof -
  obtain g s' where u: "upsert_finish D k r errs s = (g, s')" by fastforce
  show ?thesis
    using upsert_finish_effect [OF assms(1) u] upsert_finish_stored [OF assms(1) u assms(2)] u
    by (auto simp: finishes_def cache_ok_def)
qed

lemma finishes_assign:
  assumes "sb_assign f s r = (r', s1)" "sinv (ss_st s)" "stored pb ty ep k r s"
    and "\<And>b. posted_body pb ty ep (f b) = posted_body pb ty ep b" "\<And>b. sb_LocationIDValid (f b) = sb_LocationIDValid b"
  shows "finishes pb ty ep k errs s (upsert_finish D k r' errs s1)"
proof -
  have ref: "ref_ok k s r" using assms(3) by (simp add: stored_def)
  note as = sb_assign_effect [OF assms(1) ref]
  have "stored pb ty ep k r' s1" "sinv (ss_st s1)"
    using assms(2,3,4) as(1,5,6) by (simp_all add: stored_def)
  with finishes_finish [OF this(2,1), of errs] as(1,2,7) as(8) [OF _ assms(5)] show ?thesis
    by (auto simp: finishes_def split: prod.splits)
qed

lemma finishes_import:
  assumes inv: "sinv (ss_st s)" and st: "stored pb ty ep k r s"
  shows "finishes pb ty ep k errs s (upsert_import D k uri r errs s)"
proof -
  obtain a s1 where set: "setupBkstg D s = (a, s1)" by fastforce
  note same = setupBkstg_same [OF set, THEN conjunct1]
  have inv1: "sinv (ss_st s1)" and st1: "stored pb ty ep k r s1"
    using inv st same by (simp_all add: same_data_simps stored_same)
  have "finishes pb ty ep k errs s1 (upsert_import D k uri r errs s)"
  proof (cases "ss_bkstg s1 = None \<or> \<not> a \<or> \<not> sd_pushToRHDH D")
    case True
    then have "upsert_import D k uri r errs s = upsert_finish D k r errs s1"
      by (auto simp: upsert_import_def set split: option.splits)
    then show ?thesis using finishes_finish [OF inv1 st1] by simp
  next
    case False
    then obtain w where w: "ss_bkstg s1 = Some w" "a" "sd_pushToRHDH D" by auto
    obtain m e b where imp: "bi_ImportLocation (sd_bkstg D w) (sd_HostURL D @ uri) (ss_world s1) = ((m, e), b)"
      by (metis prod.collapse)
    let ?s2 = "s1\<lparr>ss_world := b\<rparr>"
    have same2: "same_data s1 ?s2" by (simp add: same_data_def)
    have inv2: "sinv (ss_st ?s2)" and st2: "stored pb ty ep k r ?s2"
      using inv1 st1 same2 by (simp_all add: stored_same)
    obtain i t ok where p: "ParseImportLocationMap m = (i, t, ok)" by (metis prod.collapse)
    obtain r' s3 where as: "sb_assign (\<lambda>b. b\<lparr>sb_LocationId := i, sb_LocationTarget := t\<rparr>) ?s2 r = (r', s3)"
      by fastforce
    have "finishes pb ty ep k errs ?s2 (upsert_finish D k r' errs s3)"
      by (rule finishes_assign [OF as inv2 st2]) (simp_all add: posted_body_def)
    from finishes_same_start [OF same2 this] finishes_stop [OF inv1 st1 same2] w set imp p as show ?thesis
      by (auto simp: upsert_import_def Let_def gin_error_def split: option.splits)
  qed
  then show ?thesis by (rule finishes_same_start [OF same])
qed

lemma finishes_backstage:
  assumes inv: "sinv (ss_st s)" and st: "stored pb ty ep k r s"
  shows "finishes pb ty ep k errs s (upsert_backstage D k uri already r errs s)"
proof (cases already)
  case True
  obtain a s1 where sp: "still_pushed D r s = (a, s1)" by fastforce
  note same = still_pushed_same [OF sp]
  have inv1: "sinv (ss_st s1)" and st1: "stored pb ty ep k r s1"
    using inv st same by (simp_all add: same_data_simps stored_same)
  from finishes_same_start [OF same finishes_import [OF inv1 st1]] finishes_stop [OF inv st same] sp True
  show ?thesis by (auto simp: upsert_backstage_def gin_error_def split: option.splits bool.splits)
next
  case False
  then show ?thesis using finishes_import [OF inv st] by (simp add: upsert_backstage_def)
qed

lemma finishes_locations:
  "finishes pb ty ep k errs s (g, s') \<Longrightarrow> ss_locations s' = ss_locations s"
  by (simp add: finishes_def)

text \<open>
  The push: the location service has at most the document at \<open>uri\<close> changed, and has the posted one
  if no error is reported at the end.
\<close>

lemma upsert_push_effect:
  assumes inv: "sinv (ss_st s)" "linv (ss_locations s)" and st: "stored pb ty ep k r s"
    and key: "rekey (sd_format D) k = Some (k0, uri)"
    and push: "upsert_push D k uri pb already r s = (g, s')"
  shows "finishes pb ty ep k [] (s\<lparr>ss_locations := ss_locations s'\<rparr>) (g, s')"
    "linv (ss_locations s')"
    "u \<noteq> uri \<Longrightarrow> lview (ss_locations s') u = lview (ss_locations s) u"
    "gr_errors g = [] \<Longrightarrow> lview (ss_locations s') uri = pb_Body pb"
    "gr_status g = StatusOK \<or> gr_status g = StatusCreated \<Longrightarrow> gr_errors g = []"
    "lview (ss_locations s') uri = lview (ss_locations s) uri \<or> lview (ss_locations s') uri = pb_Body pb"
proof -
  obtain rc e l where up: "sd_UpsertModel D k pb (ss_locations s) = ((rc, e), l)" by (metis prod.collapse)
  let ?s = "s\<lparr>ss_locations := l\<rparr>"
  have inv1: "sinv (ss_st ?s)" and st1: "stored pb ty ep k r ?s"
    using inv st by (simp_all add: stored_def)
  let ?errs = "if rc \<noteq> StatusCreated \<and> rc \<noteq> StatusOK
     then [ErrorfDump (''error upserting to bridge uri '' @ uri @ '' POST body: msg '')] else []"
  note keeps = loc.up_keeps [OF inv(2) up] and frame = loc.up_frame [OF inv(2) up]
  show "gr_errors g = []" if "gr_status g = StatusOK \<or> gr_status g = StatusCreated"
  proof (cases e)
    case None
    then have "?errs = []" using loc.up_accepts [OF inv(2) _ key] up by auto
    then show ?thesis
      using push up None that upsert_backstage_status [of D k uri already r "?errs" ?s g s']
      by (simp add: upsert_push_def Let_def split: if_splits)
  next
    case (Some err)
    then show ?thesis using push up that by (auto simp: upsert_push_def gin_defs status_defs)
  qed
  have fin: "finishes pb ty ep k (if e = None then ?errs else []) ?s (g, s') \<and> (e \<noteq> None \<longrightarrow> gr_errors g \<noteq> [])"
  proof (cases e)
    case None
    then show ?thesis
      using push up finishes_backstage [OF inv1 st1, of ?errs uri already] by (simp add: upsert_push_def Let_def)
  next
    case (Some err)
    then show ?thesis
      using push up finishes_stop [OF inv1 st1, of ?s g "[]"]
      by (auto simp: upsert_push_def same_data_def gin_error_def)
  qed
  then have locs: "ss_locations s' = l" using finishes_locations by fastforce
  from fin show "finishes pb ty ep k [] (s\<lparr>ss_locations := ss_locations s'\<rparr>) (g, s')"
    by (auto simp: finishes_def locs)
  show "linv (ss_locations s')" using keeps locs by simp
  show "lview (ss_locations s') uri = lview (ss_locations s) uri \<or> lview (ss_locations s') uri = pb_Body pb"
    using keeps key locs by auto
  show "u \<noteq> uri \<Longrightarrow> lview (ss_locations s') u = lview (ss_locations s) u"
    using frame [of u] key locs by simp
  show "lview (ss_locations s') uri = pb_Body pb" if "gr_errors g = []"
  proof -
    have "e = None" "rc = StatusCreated \<or> rc = StatusOK"
      using fin that by (auto simp: finishes_def split: if_splits)
    with loc.up_serves(1) [OF inv(2) _ _ key] up show ?thesis by (auto simp: locs)
  qed
qed

lemma upsert_store_effect:
  assumes inv: "sinv (ss_st s)" "linv (ss_locations s)"
    and key: "rekey (sd_format D) k = Some (k0, uri)"
    and up: "upsert_store D k uri ty pb s = (g, s')"
  shows "sinv (ss_st s') \<and> linv (ss_locations s') \<and> (cache_ok s \<longrightarrow> cache_ok s')
    \<and> (\<forall>k'. k' \<noteq> k \<longrightarrow> sview (ss_st s') k' = sview (ss_st s) k'
         \<and> map_of (ss_pushedLocations s') k' = map_of (ss_pushedLocations s) k')
    \<and> (\<forall>u. u \<noteq> uri \<longrightarrow> lview (ss_locations s') u = lview (ss_locations s) u)
    \<and> (lview (ss_locations s') uri = lview (ss_locations s) uri \<or> lview (ss_locations s') uri = pb_Body pb)
    \<and> (sview (ss_st s') k = sview (ss_st s) k \<or> sview (ss_st s') k = None
        \<or> (\<exists>b. sview (ss_st s') k = Some b \<and> sb_Body b = pb_Body pb))
    \<and> (gr_status g = StatusOK \<or> gr_status g = StatusCreated \<longrightarrow>
         (\<exists>b sb s1. sview (ss_st s') k = Some b \<and> sync D k s = (Some (sb, None), s1)
            \<and> posted_body pb ty (sb_LastUpdateTimeSinceEpoch (sb_deref s1 sb)) b)
         \<and> lview (ss_locations s') uri = pb_Body pb)"
proof -
  obtain x s1 where sync: "sync D k s = (x, s1)" by fastforce
  note sy = sync_effect [OF inv(1) sync]
  show ?thesis
  proof (cases "\<exists>sb. x = Some (sb, None)")
    case False
    then have "s' = s1 \<and> gr_status g = StatusInternalServerError"
      using up sync by (auto simp: upsert_store_def gin_defs split: option.splits)
    then show ?thesis using sy inv(2) by (auto simp: status_defs)
  next
    case True
    then obtain sb where x: "x = Some (sb, None)" ..
    then have ref: "ref_ok k s1 sb" using sy(7) by blast
    let ?f = "\<lambda>b. b\<lparr>sb_Body := pb_Body pb, sb_ReconcilerType := ty\<rparr>"
    obtain r s2 where as: "sb_assign ?f s1 sb = (r, s2)" by fastforce
    note asg = sb_assign_effect [OF as ref]
    obtain e st where u: "bs_Upsert (sd_st D) k (sb_deref s2 r) (ss_st s2) = (e, st)" by fastforce
    let ?s3 = "s2\<lparr>ss_st := st\<rparr>"
    have inv2: "sinv (ss_st s2)" using sy(1) asg(1) by simp
    note keeps = st.upsert_keeps [OF inv2 u]
    have frame: "\<forall>k'. k' \<noteq> k \<longrightarrow> sview st k' = sview (ss_st s) k'
         \<and> map_of (ss_pushedLocations ?s3) k' = map_of (ss_pushedLocations s) k'"
      using keeps sy(4,5) asg(1,7) by auto
    have cache: "cache_ok s \<longrightarrow> cache_ok ?s3"
      using sy(6) asg(8) by simp
    have inv3: "sinv (ss_st ?s3)" "linv (ss_locations ?s3)"
      using keeps inv(2) sy(2) asg(2) by simp_all
    have locs3: "ss_locations ?s3 = ss_locations s" using sy(2) asg(2) by simp
    have own: "sview st k = sview (ss_st s) k \<or> sview st k = None \<or> (\<exists>b. sview st k = Some b \<and> sb_Body b = pb_Body pb)"
      using keeps sy(8) asg(1,5) by auto
    show ?thesis
    proof (cases e)
      case (Some err)
      then have "s' = ?s3 \<and> gr_status g = StatusInternalServerError"
        using up sync x as u by (auto simp: upsert_store_def Let_def gin_defs)
      then show ?thesis using frame cache inv3 locs3 own by (simp add: status_defs)
    next
      case None
      let ?ep = "sb_LastUpdateTimeSinceEpoch (sb_deref s1 sb)"
      have st3: "stored pb ty ?ep k r ?s3"
        using asg(5,6) st.upsert_effect [OF inv2 u [unfolded None]]
        by (simp add: stored_def posted_body_def)
      obtain already where push: "upsert_push D k uri pb already r ?s3 = (g, s')"
        using up sync x as u None by (auto simp: upsert_store_def Let_def)
      note eff = upsert_push_effect [OF inv3 st3 key push]
      have st': "sinv (ss_st s')" "cache_ok ?s3 \<longrightarrow> cache_ok s'"
        "\<exists>b. sview (ss_st s') k = Some b \<and> posted_body pb ty ?ep b"
        "\<forall>k'. k' \<noteq> k \<longrightarrow> sview (ss_st s') k' = sview st k'
          \<and> map_of (ss_pushedLocations s') k' = map_of (ss_pushedLocations ?s3) k'"
        using eff(1) by (simp_all add: finishes_def)
      show ?thesis
        using st' eff(2-6) frame cache sync x unfolding locs3 posted_body_def by auto
    qed
  qed
qed

end

section \<open>The key set handler\<close>

context storage_deps
begin

lemma purge_key_effect:
  assumes inv: "sinv (ss_st s)" "linv (ss_locations s)" and purge: "purge_key D k s = (e, s')"
  shows "sinv (ss_st s')" "linv (ss_locations s')"
    "k' \<noteq> k \<Longrightarrow> sview (ss_st s') k' = sview (ss_st s) k'"
    "k' \<noteq> k \<Longrightarrow> map_of (ss_pushedLocations s') k' = map_of (ss_pushedLocations s) k'"
    "cache_ok s \<Longrightarrow> cache_ok s'"
    "sview (ss_st s') k = sview (ss_st s) k \<or> sview (ss_st s') k = None"
    "lview (ss_locations s') u = lview (ss_locations s) u \<or> lview (ss_locations s') u = None"
    "\<forall>k'. rekey (sd_format D) k \<noteq> Some (k', u) \<Longrightarrow> lview (ss_locations s') u = lview (ss_locations s) u"
    "e = None \<Longrightarrow> sview (ss_st s') k = None"
    "e = None \<Longrightarrow> rekey (sd_format D) k = Some (k', u) \<Longrightarrow> lview (ss_locations s') u = None"
proof -
  obtain sb er st where f: "bs_Fetch (sd_st D) k (ss_st s) = ((sb, er), st)" by (metis prod.collapse)
  have fk: "sinv st" "sview st = sview (ss_st s)" using st.fetch_keeps [OF inv(1) f] by auto
  obtain er' st' where r: "bs_Remove (sd_st D) k st = (er', st')" by fastforce
  note rk = st.remove_keeps [OF fk(1) r, unfolded fk(2)] and re = st.remove_effect [OF fk(1), of k st', unfolded fk(2)]
  let ?s1 = "del k (s\<lparr>ss_st := st'\<rparr>)"
  obtain a s2 where set: "setupBkstg D ?s1 = (a, s2)" by fastforce
  note same = setupBkstg_same [OF set, THEN conjunct1]
  obtain s3 where s3: "same_data ?s1 s3" and s3': "er' = None \<Longrightarrow> purge_key D k s =
      (case sd_RemoveModel D k (ss_locations s3) of
         ((rc, Some err), l) \<Rightarrow> (Some (Errorf err), s3\<lparr>ss_locations := l\<rparr>)
       | ((rc, None), l) \<Rightarrow>
           if rc \<noteq> StatusOK \<and> rc \<noteq> StatusCreated
           then (Some (ErrorfDump (''bad rc removing from storage key '' @ show_nat rc @ '': '')), s3\<lparr>ss_locations := l\<rparr>)
           else (None, s3\<lparr>ss_locations := l\<rparr>))"
  proof -
    let ?s3 = "case ss_bkstg s2 of
        Some w \<Rightarrow> if length (sb_LocationId sb) > 0 \<and> a
                  then s2\<lparr>ss_world := snd (bi_DeleteLocation (sd_bkstg D w) (sb_LocationId sb) (ss_world s2))\<rparr>
                  else s2
      | None \<Rightarrow> s2"
    have "same_data ?s1 ?s3" using same by (simp add: same_data_def split: option.splits)
    then show thesis using that [of ?s3] f r set by (simp add: purge_key_def Let_def)
  qed
  obtain rc e2 l where rm: "sd_RemoveModel D k (ss_locations s3) = ((rc, e2), l)" by (metis prod.collapse)
  have locs3: "ss_locations s3 = ss_locations s" and st3: "ss_st s3 = st'"
    and push3: "ss_pushedLocations s3 = AList.delete k (ss_pushedLocations s)"
    using s3 by (simp_all add: same_data_def del_def)
  note lk = loc.rm_keeps [OF inv(2) rm [unfolded locs3]] and le = loc.rm_effect [OF inv(2), of k rc l]
  note lf = loc.rm_frame [OF inv(2) rm [unfolded locs3]] and ln = loc.rm_never_adds [OF inv(2) rm [unfolded locs3]]
  have cases: "(s' = s\<lparr>ss_st := st'\<rparr> \<and> e \<noteq> None) \<or> (er' = None \<and> s' = s3\<lparr>ss_locations := l\<rparr>
      \<and> (e = None \<longrightarrow> e2 = None \<and> (rc = StatusOK \<or> rc = StatusCreated)))"
    using purge f r s3' rm
    by (cases er') (auto simp: purge_key_def split: option.splits if_splits)
  show "sinv (ss_st s')" using cases rk st3 by auto
  show "linv (ss_locations s')" using cases inv(2) lk by auto
  show "k' \<noteq> k \<Longrightarrow> sview (ss_st s') k' = sview (ss_st s) k'" using cases rk st3 by auto
  show "k' \<noteq> k \<Longrightarrow> map_of (ss_pushedLocations s') k' = map_of (ss_pushedLocations s) k'"
    using cases push3 by auto
  show "cache_ok s \<Longrightarrow> cache_ok s'"
    using cases push3 by (auto simp: cache_ok_def simp del: map_of_eq_Some_iff split: if_splits)
  show "sview (ss_st s') k = sview (ss_st s) k \<or> sview (ss_st s') k = None" using cases rk st3 by auto
  show "lview (ss_locations s') u = lview (ss_locations s) u \<or> lview (ss_locations s') u = None"
    using cases ln [of u] by auto
  show "\<forall>k'. rekey (sd_format D) k \<noteq> Some (k', u) \<Longrightarrow> lview (ss_locations s') u = lview (ss_locations s) u"
    using cases lf [of u] by auto
  show "e = None \<Longrightarrow> sview (ss_st s') k = None" using cases re r st3 by auto
  show "e = None \<Longrightarrow> rekey (sd_format D) k = Some (k', u) \<Longrightarrow> lview (ss_locations s') u = None"
    using cases le rm locs3 by auto
qed

text \<open>
  Over the whole list: what is posted is left alone, nothing is ever added, and if no error is
  recorded then everything listed and not posted is gone, from the store and from the location
  service.
\<close>

lemma purge_keys_effect:
  assumes "sinv (ss_st s)" "linv (ss_locations s)" "purge_keys D K ks es s = (es', s')"
  shows "sinv (ss_st s') \<and> linv (ss_locations s') \<and> (cache_ok s \<longrightarrow> cache_ok s')
    \<and> (\<forall>k. k \<in> set K \<or> k \<notin> set ks \<longrightarrow> sview (ss_st s') k = sview (ss_st s) k
          \<and> map_of (ss_pushedLocations s') k = map_of (ss_pushedLocations s) k)
    \<and> (\<forall>k. sview (ss_st s') k = sview (ss_st s) k \<or> sview (ss_st s') k = None)
    \<and> (\<forall>u. lview (ss_locations s') u = lview (ss_locations s) u \<or> lview (ss_locations s') u = None)
    \<and> (\<forall>u. (\<forall>k \<in> set ks - set K. \<forall>k'. rekey (sd_format D) k \<noteq> Some (k', u)) \<longrightarrow>
          lview (ss_locations s') u = lview (ss_locations s) u)
    \<and> (es' = [] \<longrightarrow> es = [] \<and> (\<forall>k \<in> set ks - set K. sview (ss_st s') k = None
          \<and> (\<forall>k' u. rekey (sd_format D) k = Some (k', u) \<longrightarrow> lview (ss_locations s') u = None)))"
  using assms
proof (induction ks arbitrary: es s)
  case (Cons k ks)
  show ?case
  proof (cases "k \<in> set K")
    case True
    then show ?thesis using Cons.IH [OF Cons.prems(1,2), of es] Cons.prems(3) by auto
  next
    case False
    obtain e s1 where p: "purge_key D k s = (e, s1)" by fastforce
    note eff = purge_key_effect [OF Cons.prems(1,2) p]
    let ?es = "case e of None \<Rightarrow> es | Some x \<Rightarrow> es @ [x]"
    have rest: "purge_keys D K ks ?es s1 = (es', s')"
      using Cons.prems(3) p False by (auto split: option.splits)
    note ih = Cons.IH [OF eff(1,2) rest]
    have none: "?es = [] \<longleftrightarrow> e = None \<and> es = []" by (cases e) auto
    have A: "\<forall>x. x \<in> set K \<or> x \<notin> set (k # ks) \<longrightarrow> sview (ss_st s') x = sview (ss_st s) x
          \<and> map_of (ss_pushedLocations s') x = map_of (ss_pushedLocations s) x"
      using ih eff(3,4) False by (metis list.set_intros(1,2))
    have B: "\<forall>x. sview (ss_st s') x = sview (ss_st s) x \<or> sview (ss_st s') x = None"
      using ih eff(3,6) by metis
    have C: "\<forall>u. lview (ss_locations s') u = lview (ss_locations s) u \<or> lview (ss_locations s') u = None"
      using ih eff(7) by metis
    have E: "\<forall>u. (\<forall>x \<in> set (k # ks) - set K. \<forall>k'. rekey (sd_format D) x \<noteq> Some (k', u)) \<longrightarrow>
          lview (ss_locations s') u = lview (ss_locations s) u"
      using ih eff(8) False by simp
    have F: "es' = [] \<longrightarrow> es = [] \<and> (\<forall>x \<in> set (k # ks) - set K. sview (ss_st s') x = None
          \<and> (\<forall>k' u. rekey (sd_format D) x = Some (k', u) \<longrightarrow> lview (ss_locations s') u = None))"
    proof
      assume "es' = []"
      then have e: "e = None" "es = []" and r: "\<forall>x \<in> set ks - set K. sview (ss_st s') x = None
          \<and> (\<forall>k' u. rekey (sd_format D) x = Some (k', u) \<longrightarrow> lview (ss_locations s') u = None)"
        using ih none by blast+
      moreover have "sview (ss_st s') k = None" using eff(9) [OF e(1)] ih by metis
      moreover have "lview (ss_locations s') u = None" if "rekey (sd_format D) k = Some (k', u)" for k' u
        using eff(10) [OF e(1) that] ih by metis
      ultimately show "es = [] \<and> (\<forall>x \<in> set (k # ks) - set K. sview (ss_st s') x = None
          \<and> (\<forall>k' u. rekey (sd_format D) x = Some (k', u) \<longrightarrow> lview (ss_locations s') u = None))"
        by auto
    qed
    show ?thesis using A B C E F ih eff(5) by blast
  qed
qed auto

lemma currentkeyset_effect:
  assumes inv: "sinv (ss_st s)" "linv (ss_locations s)"
    and h: "handleCatalogCurrentKeySetPost D c s = (g, s')"
  shows "sinv (ss_st s') \<and> linv (ss_locations s') \<and> (cache_ok s \<longrightarrow> cache_ok s')
    \<and> (\<forall>k \<in> set (posted_keys c). sview (ss_st s') k = sview (ss_st s) k
          \<and> map_of (ss_pushedLocations s') k = map_of (ss_pushedLocations s) k)
    \<and> (\<forall>k. sview (ss_st s') k = sview (ss_st s) k \<or> sview (ss_st s') k = None)
    \<and> (\<forall>u. lview (ss_locations s') u = lview (ss_locations s) u \<or> lview (ss_locations s') u = None)
    \<and> (\<forall>u. (\<forall>k \<in> dom (sview (ss_st s)) - set (posted_keys c). \<forall>k'. rekey (sd_format D) k \<noteq> Some (k', u)) \<longrightarrow>
          lview (ss_locations s') u = lview (ss_locations s) u)
    \<and> (gr_status g = StatusOK \<longleftrightarrow> gr_errors g = [])
    \<and> (gr_status g = StatusOK \<longrightarrow> (\<forall>k. k \<notin> set (posted_keys c) \<longrightarrow> sview (ss_st s') k = None)
          \<and> (\<forall>k k' u. k \<in> dom (sview (ss_st s)) - set (posted_keys c) \<longrightarrow> rekey (sd_format D) k = Some (k', u)
               \<longrightarrow> lview (ss_locations s') u = None))"
proof -
  obtain ks e st where ls: "bs_List (sd_st D) (ss_st s) = ((ks, e), st)" by (metis prod.collapse)
  note keeps = st.list_keeps [OF inv(1) ls]
  show ?thesis
  proof (cases e)
    case (Some err)
    then have "s' = s\<lparr>ss_st := st\<rparr>" "gr_status g \<noteq> StatusOK" "gr_errors g \<noteq> []"
      using h ls by (auto simp: handleCatalogCurrentKeySetPost_def gin_defs status_defs)
    then show ?thesis using keeps inv(2) by simp
  next
    case None
    note lv = st.list_value [OF inv(1) ls [unfolded None]]
    obtain es s1 where pk: "purge_keys D (posted_keys c) ks [] (s\<lparr>ss_st := st\<rparr>) = (es, s1)" by fastforce
    have inv1: "sinv (ss_st (s\<lparr>ss_st := st\<rparr>))" "linv (ss_locations (s\<lparr>ss_st := st\<rparr>))"
      using keeps inv(2) by simp_all
    note eff = purge_keys_effect [OF inv1 pk]
    have s': "s' = s1" and g: "gr_status g = StatusOK \<longleftrightarrow> es = []" "gr_errors g = [] \<longleftrightarrow> es = []"
      using h ls None pk by (auto simp: handleCatalogCurrentKeySetPost_def gin_defs status_defs split: if_splits)
    have view: "sview st = sview (ss_st s)" and dom: "set ks = dom (sview (ss_st s))" using keeps lv by auto
    have gone: "sview (ss_st s1) k = None" if "es = []" "k \<notin> set (posted_keys c)" for k
      using eff that dom view by (cases "k \<in> dom (sview (ss_st s))") auto
    have gone': "lview (ss_locations s1) u = None"
      if "es = []" "k \<in> dom (sview (ss_st s)) - set (posted_keys c)" "rekey (sd_format D) k = Some (k', u)" for k k' u
      using eff that dom by blast
    show ?thesis
      unfolding s' g using eff gone gone' by (auto simp: dom view)
  qed
qed

lemma currentkeyset_facts:
  assumes "sinv (ss_st s)" "linv (ss_locations s)" "handleCatalogCurrentKeySetPost D c s = (g, s')"
  shows "\<forall>k \<in> set (posted_keys c). sview (ss_st s') k = sview (ss_st s) k"
    "dom (sview (ss_st s')) \<subseteq> dom (sview (ss_st s))"
    "\<forall>k \<in> dom (sview (ss_st s)) - set (posted_keys c). \<forall>k'. rekey (sd_format D) k \<noteq> Some (k', u) \<Longrightarrow>
       lview (ss_locations s') u = lview (ss_locations s) u"
    "gr_status g = StatusOK \<longleftrightarrow> gr_errors g = []"
    "gr_status g = StatusOK \<Longrightarrow> dom (sview (ss_st s')) = dom (sview (ss_st s)) \<inter> set (posted_keys c)"
    "gr_status g = StatusOK \<Longrightarrow> k \<in> dom (sview (ss_st s)) \<Longrightarrow> k \<notin> set (posted_keys c) \<Longrightarrow>
       rekey (sd_format D) k = Some (k', u) \<Longrightarrow> lview (ss_locations s') u = None"
proof -
  note e = currentkeyset_effect [OF assms]
  from e have posted: "\<forall>k \<in> set (posted_keys c). sview (ss_st s') k = sview (ss_st s) k
      \<and> map_of (ss_pushedLocations s') k = map_of (ss_pushedLocations s) k"
    by (elim conjE)
  then show kept: "\<forall>k \<in> set (posted_keys c). sview (ss_st s') k = sview (ss_st s) k" by simp
  from e have "\<forall>k. sview (ss_st s') k = sview (ss_st s) k \<or> sview (ss_st s') k = None" by (elim conjE)
  then show sub: "dom (sview (ss_st s')) \<subseteq> dom (sview (ss_st s))" by (metis domIff subsetI)
  from e have "\<forall>u. (\<forall>k \<in> dom (sview (ss_st s)) - set (posted_keys c). \<forall>k'. rekey (sd_format D) k \<noteq> Some (k', u)) \<longrightarrow>
      lview (ss_locations s') u = lview (ss_locations s) u" by (elim conjE)
  then show "\<forall>k \<in> dom (sview (ss_st s)) - set (posted_keys c). \<forall>k'. rekey (sd_format D) k \<noteq> Some (k', u) \<Longrightarrow>
       lview (ss_locations s') u = lview (ss_locations s) u" by simp
  from e show "gr_status g = StatusOK \<longleftrightarrow> gr_errors g = []" by (elim conjE)
  from e have ok: "gr_status g = StatusOK \<longrightarrow> (\<forall>k. k \<notin> set (posted_keys c) \<longrightarrow> sview (ss_st s') k = None)
      \<and> (\<forall>k k' u. k \<in> dom (sview (ss_st s)) - set (posted_keys c) \<longrightarrow> rekey (sd_format D) k = Some (k', u)
           \<longrightarrow> lview (ss_locations s') u = None)" by (elim conjE)
  then show "gr_status g = StatusOK \<Longrightarrow> k \<in> dom (sview (ss_st s)) \<Longrightarrow> k \<notin> set (posted_keys c) \<Longrightarrow>
       rekey (sd_format D) k = Some (k', u) \<Longrightarrow> lview (ss_locations s') u = None" by blast
  show "dom (sview (ss_st s')) = dom (sview (ss_st s)) \<inter> set (posted_keys c)" if "gr_status g = StatusOK"
  proof (rule set_eqI)
    fix k
    show "k \<in> dom (sview (ss_st s')) \<longleftrightarrow> k \<in> dom (sview (ss_st s)) \<inter> set (posted_keys c)"
      using kept ok that by (cases "k \<in> set (posted_keys c)") (simp_all add: domIff)
  qed
qed

end

section \<open>The service as deployed\<close>

text \<open>The storage service on the ConfigMap tier, with the location client over a lossy network.\<close>

definition StorageService ::
    "string \<Rightarrow> string \<Rightarrow> 'b BkstgEnv \<Rightarrow> string \<Rightarrow> NormalizerFormat \<Rightarrow> bool
      \<Rightarrow> ('w ConfigMapBridgeStorage, location_net, 'b) StorageDeps" where
  "StorageService bridgeURL bridgeToken env bkstgToken nf push =
     (let b = SetupBridgeLocationRESTClient bridgeURL bridgeToken
      in \<lparr>sd_st = ConfigMapStorage, sd_UpsertModel = location_UpsertModel net_send b,
          sd_RemoveModel = location_RemoveModel net_send b, sd_HostURL = blc_HostURL b, sd_env = env,
          sd_bkstgToken = bkstgToken, sd_format = nf, sd_pushToRHDH = push\<rparr>)"

lemma StorageService_format [simp]: "sd_format (StorageService h t env bt nf push) = nf"
  by (simp add: StorageService_def Let_def)

interpretation svc: storage_deps "StorageService h t env bt nf push" cms_view cms_ok net_view "net_inv h nf"
  for h t env bt nf push
  unfolding storage_deps_def StorageService_def Let_def
  using cms.bridge_storage_axioms net.location_service_axioms by simp

text \<open>The services are up: the cluster behaves, and the location service is where it should be.\<close>

definition services_ok ::
    "string \<Rightarrow> NormalizerFormat \<Rightarrow> ('w ConfigMapBridgeStorage, location_net, 'b) StorageRESTServer \<Rightarrow> bool" where
  "services_ok h nf s \<longleftrightarrow> cms_ok (ss_st s) \<and> net_inv h nf (ss_locations s) \<and> cache_ok s"

lemma services_ok_new:
  "cms_ok st \<Longrightarrow> net_inv h nf l \<Longrightarrow> services_ok h nf (NewStorageRESTServer D st l b)"
proof -
  assume ok: "cms_ok st" "net_inv h nf l"
  let ?s = "\<lparr>ss_st = st, ss_pushedLocations = [], ss_locations = l, ss_bkstg = None, ss_world = b\<rparr>"
  have "same_data ?s (NewStorageRESTServer D st l b)"
    using setupBkstg_same [of D ?s "fst (setupBkstg D ?s)" "snd (setupBkstg D ?s)"]
    by (simp add: NewStorageRESTServer_def)
  with ok show ?thesis by (simp add: services_ok_def same_data_def cache_ok_def)
qed

lemma handleCatalogUpsertPost_rekey:
  assumes "gin_BindJSON c = (pb, None)" and "rekey (sd_format D) (gin_Query c KeyQueryParam) = Some (k, uri)"
  shows "handleCatalogUpsertPost D c s = upsert_store D k uri (gin_Query c TypeQueryParam) pb s"
proof -
  have "gin_Query c KeyQueryParam \<noteq> []" using assms(2) by (auto simp: rekey_def)
  then show ?thesis using assms by (simp add: handleCatalogUpsertPost_def Let_def)
qed

lemma handleCatalogUpsertPost_bad:
  assumes "snd (gin_BindJSON c) \<noteq> None \<or> rekey (sd_format D) (gin_Query c KeyQueryParam) = None"
    and "handleCatalogUpsertPost D c s = (g, s')"
  shows "gr_status g = StatusBadRequest \<and> s' = s"
  using assms by (auto simp: handleCatalogUpsertPost_def Let_def gin_defs split: prod.splits option.splits if_splits)

text \<open>The handlers keep the services up.\<close>

lemma services_ok_upsert_store:
  assumes "services_ok h nf s" "rekey nf k = Some (k0, uri)"
    and "upsert_store (StorageService h t env bt nf push) k uri ty pb s = (g, s')"
  shows "services_ok h nf s'"
  using svc.upsert_store_effect [OF _ _ _ assms(3)] assms(1,2) by (auto simp: services_ok_def)

lemma services_ok_post:
  assumes "services_ok h nf s"
  shows "services_ok h nf (snd (handleCatalogUpsertPost (StorageService h t env bt nf push) c s))"
proof -
  let ?D = "StorageService h t env bt nf push"
  obtain pb e where bind: "gin_BindJSON c = (pb, e)" by fastforce
  obtain g s' where r: "handleCatalogUpsertPost ?D c s = (g, s')" by fastforce
  show ?thesis
  proof (cases "e \<noteq> None \<or> rekey nf (gin_Query c KeyQueryParam) = None")
    case True
    then show ?thesis using handleCatalogUpsertPost_bad [OF _ r] bind r assms by simp
  next
    case False
    then obtain k uri where key: "rekey nf (gin_Query c KeyQueryParam) = Some (k, uri)" by auto
    with False bind r have "upsert_store ?D k uri (gin_Query c TypeQueryParam) pb s = (g, s')"
      using handleCatalogUpsertPost_rekey [of c pb ?D k uri s] by simp
    from services_ok_upsert_store [OF assms rekey_rekey [OF key] this] r show ?thesis by simp
  qed
qed

lemma services_ok_keyset:
  assumes "services_ok h nf s"
  shows "services_ok h nf (snd (handleCatalogCurrentKeySetPost (StorageService h t env bt nf push) c s))"
proof -
  obtain g s' where r: "handleCatalogCurrentKeySetPost (StorageService h t env bt nf push) c s = (g, s')"
    by fastforce
  from assms svc.currentkeyset_effect [OF _ _ r] r show ?thesis by (simp add: services_ok_def)
qed

text \<open>What an accepted post has done.\<close>

lemma accepted_post_effect:
  assumes "services_ok h nf s" and "gin_BindJSON c = (pb, None)"
    and "rekey nf (gin_Query c KeyQueryParam) = Some (k, uri)"
    and "handleCatalogUpsertPost (StorageService h t env bt nf push) c s = (g, s')"
    and "gr_status g = StatusOK \<or> gr_status g = StatusCreated"
  shows "(\<exists>b. cms_view (ss_st s') k = Some b \<and> sb_Body b = pb_Body pb
             \<and> sb_ReconcilerType b = gin_Query c TypeQueryParam)
    \<and> net_view (ss_locations s') uri = pb_Body pb"
proof -
  let ?D = "StorageService h t env bt nf push"
  have up: "upsert_store ?D k uri (gin_Query c TypeQueryParam) pb s = (g, s')"
    using assms(2-4) handleCatalogUpsertPost_rekey [of c pb ?D k uri s] by simp
  have "rekey (sd_format ?D) k = Some (k, uri)" using assms(3) by (simp add: rekey_rekey)
  from svc.upsert_store_effect [OF _ _ this up] assms(1,5) show ?thesis
    by (auto simp: services_ok_def posted_body_def)
qed

section \<open>Properties\<close>

text \<open>A Backstage for the examples: it counts its locations and knows each by one id.\<close>

definition example_env :: "nat BkstgEnv" where
  "example_env = \<lparr>
     be_GetRESTConfig = (\<lambda>n. (None, n)),
     be_Routes = (\<lambda>_ n. (Inr [\<lparr>rt_Labels = [(''app.kubernetes.io/name'', ''backstage'')], rt_Host = ''rhdh''\<rparr>], n)),
     be_BackstageUrl = '''', be_PodNS = ''ns'',
     be_send = (\<lambda>rq n.
       let doc = [(''id'', JStr ''loc-1''), (''target'', JStr ''t'')]
       in case rq_method rq of
            POST \<Rightarrow> (Inr \<lparr>rs_status = 201, rs_body = JsonPayload (Some (JObj [(''location'', JObj doc)]))\<rparr>, Suc n)
          | GET \<Rightarrow> (Inr \<lparr>rs_status = (if n > 0 then 200 else 404), rs_body = JsonPayload (Some (JObj doc))\<rparr>, n)
          | DELETE \<Rightarrow> (Inr \<lparr>rs_status = 204, rs_body = NoPayload\<rparr>, n - 1))\<rparr>"

definition example_host :: string where
  "example_host = ''http://localhost:9090''"

definition example_service :: "(mem_world ConfigMapBridgeStorage, location_net, nat) StorageDeps" where
  "example_service = StorageService example_host '''' example_env '''' JsonArrayForamt True"

definition example_server ::
    "delivery list \<Rightarrow> (mem_world ConfigMapBridgeStorage, location_net, nat) StorageRESTServer" where
  "example_server ds = NewStorageRESTServer example_service (mem_store [] 5) (example_net ds) 0"

definition example_storage_post :: "string \<Rightarrow> string \<Rightarrow> http_request" where
  "example_storage_post key t = \<lparr>rq_method = POST, rq_url = UpsertURI,
     rq_query = [(KeyQueryParam, key), (TypeQueryParam, KubeflowNormalizer)], rq_token = '''',
     rq_body = JsonPayload (Some (marshal_PostBody (example_post t '''')))\<rparr>"

definition example_keyset :: "string \<Rightarrow> http_request" where
  "example_keyset keys = \<lparr>rq_method = POST, rq_url = CurrentKeySetURI, rq_query = [(KeyQueryParam, keys)],
     rq_token = '''', rq_body = NoPayload\<rparr>"

lemma services_ok_example: "services_ok example_host JsonArrayForamt (example_server ds)"
  unfolding example_server_def
  by (rule services_ok_new [OF cms_ok_mem_store])
    (simp add: net_inv_def net_ok_def example_net_def example_host_def NewImportLocationServer_def)

lemma example_storage_post_simps [simp]:
  "gin_BindJSON (example_storage_post key t) = (example_post t '''', None)"
  "gin_Query (example_storage_post key t) KeyQueryParam = key"
  "gin_Query (example_storage_post key t) TypeQueryParam = KubeflowNormalizer"
  by (simp_all add: example_storage_post_def gin_BindJSON_def gin_Query_def KeyQueryParam_def TypeQueryParam_def)

lemma example_key: "rekey JsonArrayForamt ''mnist_v1'' = Some (''mnist_v1'', ''/mnist/v1/model-catalog.json'')"
  by code_simp

text \<open>
  C17. A post that the storage service answers with 200 or 201 has stored the document with
  the reconciler type under the key and has made the location service serve it at the URI of the
  key, whatever requests the network lost and whatever Backstage answered.
\<close>

theorem accepted_post_is_stored_and_served:
  assumes "services_ok h nf s" and "gin_BindJSON c = (pb, None)"
    and "rekey nf (gin_Query c KeyQueryParam) = Some (k, uri)"
    and "handleCatalogUpsertPost (StorageService h t env bt nf push) c s = (g, s')"
    and "gr_status g = StatusOK \<or> gr_status g = StatusCreated"
  shows "(\<exists>b. cms_view (ss_st s') k = Some b \<and> sb_Body b = pb_Body pb
             \<and> sb_ReconcilerType b = gin_Query c TypeQueryParam)
    \<and> net_view (ss_locations s') uri = pb_Body pb"
  using assms by (rule accepted_post_effect)

theorem accepted_post_is_stored_and_served_witness:
  "let r = handleCatalogUpsertPost example_service (example_storage_post ''mnist_v1'' ''7'') (example_server [])
   in gr_status (fst r) = StatusCreated
      \<and> net_view (ss_locations (snd r)) ''/mnist/v1/model-catalog.json'' = Some ''{}''"
proof -
  let ?r = "handleCatalogUpsertPost example_service (example_storage_post ''mnist_v1'' ''7'') (example_server [])"
  have g: "fst ?r = gin_status StatusCreated" by code_simp
  then have "?r = (gin_status StatusCreated, snd ?r)" by (metis prod.collapse)
  from accepted_post_is_stored_and_served [OF services_ok_example _ _ this [unfolded example_service_def],
      of "example_post ''7'' ''''" "''mnist_v1''" "''/mnist/v1/model-catalog.json''"]
  show ?thesis
    unfolding Let_def g using example_key by (simp add: gin_defs status_defs example_post_def example_service_def)
qed

text \<open>What a post leaves alone.\<close>

lemma post_frame:
  assumes "services_ok h nf s"
    and "handleCatalogUpsertPost (StorageService h t env bt nf push) c s = (g, s')"
  shows "services_ok h nf s'
    \<and> (\<forall>k. (\<forall>uri. rekey nf (gin_Query c KeyQueryParam) \<noteq> Some (k, uri)) \<longrightarrow>
          cms_view (ss_st s') k = cms_view (ss_st s) k)
    \<and> (\<forall>uri. (\<forall>k. rekey nf (gin_Query c KeyQueryParam) \<noteq> Some (k, uri)) \<longrightarrow>
          net_view (ss_locations s') uri = net_view (ss_locations s) uri)
    \<and> (snd (gin_BindJSON c) \<noteq> None \<or> rekey nf (gin_Query c KeyQueryParam) = None \<longrightarrow>
          gr_status g = StatusBadRequest \<and> s' = s)"
proof -
  let ?D = "StorageService h t env bt nf push"
  obtain pb e where bind: "gin_BindJSON c = (pb, e)" by fastforce
  show ?thesis
  proof (cases "e \<noteq> None \<or> rekey nf (gin_Query c KeyQueryParam) = None")
    case True
    then have "gr_status g = StatusBadRequest \<and> s' = s"
      using handleCatalogUpsertPost_bad [OF _ assms(2)] bind by simp
    then show ?thesis using assms(1) by simp
  next
    case False
    then obtain k uri where key: "rekey nf (gin_Query c KeyQueryParam) = Some (k, uri)" by auto
    with False bind have up: "upsert_store ?D k uri (gin_Query c TypeQueryParam) pb s = (g, s')"
      using assms(2) handleCatalogUpsertPost_rekey [of c pb ?D k uri s] by simp
    have "rekey (sd_format ?D) k = Some (k, uri)" using key by (simp add: rekey_rekey)
    from svc.upsert_store_effect [OF _ _ this up] assms(1) False key bind show ?thesis
      by (auto simp: services_ok_def)
  qed
qed

text \<open>Where a document comes from that is served, or a body that is stored, after a request.\<close>

lemma post_provenance:
  assumes "services_ok h nf s"
    and "handleCatalogUpsertPost (StorageService h t env bt nf push) c s = (g, s')"
  shows "net_view (ss_locations s') uri = Some doc \<Longrightarrow> net_view (ss_locations s) uri = Some doc
      \<or> (\<exists>pb k. gin_BindJSON c = (pb, None) \<and> rekey nf (gin_Query c KeyQueryParam) = Some (k, uri) \<and> pb_Body pb = Some doc)"
    and "cms_view (ss_st s') k = Some b \<Longrightarrow> cms_view (ss_st s) k = Some b
      \<or> (\<exists>pb uri. gin_BindJSON c = (pb, None) \<and> rekey nf (gin_Query c KeyQueryParam) = Some (k, uri) \<and> pb_Body pb = sb_Body b)"
proof -
  let ?D = "StorageService h t env bt nf push"
  obtain pb e where bind: "gin_BindJSON c = (pb, e)" by fastforce
  have "(net_view (ss_locations s') uri = Some doc \<longrightarrow> net_view (ss_locations s) uri = Some doc
      \<or> (\<exists>pb k. gin_BindJSON c = (pb, None) \<and> rekey nf (gin_Query c KeyQueryParam) = Some (k, uri) \<and> pb_Body pb = Some doc))
    \<and> (cms_view (ss_st s') k = Some b \<longrightarrow> cms_view (ss_st s) k = Some b
      \<or> (\<exists>pb uri. gin_BindJSON c = (pb, None) \<and> rekey nf (gin_Query c KeyQueryParam) = Some (k, uri) \<and> pb_Body pb = sb_Body b))"
  proof (cases "e \<noteq> None \<or> rekey nf (gin_Query c KeyQueryParam) = None")
    case True
    then have "s' = s" using handleCatalogUpsertPost_bad [OF _ assms(2)] bind by simp
    then show ?thesis by simp
  next
    case False
    then obtain k0 uri0 where key: "rekey nf (gin_Query c KeyQueryParam) = Some (k0, uri0)" by auto
    with False bind have up: "upsert_store ?D k0 uri0 (gin_Query c TypeQueryParam) pb s = (g, s')"
      using assms(2) handleCatalogUpsertPost_rekey [of c pb ?D k0 uri0 s] by simp
    have key': "rekey (sd_format ?D) k0 = Some (k0, uri0)" using key by (simp add: rekey_rekey)
    have inv: "cms_ok (ss_st s)" "net_inv h nf (ss_locations s)" using assms(1) by (simp_all add: services_ok_def)
    note eff = svc.upsert_store_effect [OF inv key' up]
    have served: "net_view (ss_locations s') uri = net_view (ss_locations s) uri
        \<or> uri = uri0 \<and> net_view (ss_locations s') uri = pb_Body pb"
      using eff [THEN conjunct2, THEN conjunct2, THEN conjunct2, THEN conjunct2, THEN conjunct1]
        eff [THEN conjunct2, THEN conjunct2, THEN conjunct2, THEN conjunct2, THEN conjunct2, THEN conjunct1]
      by (cases "uri = uri0") simp_all
    have stored: "cms_view (ss_st s') k = cms_view (ss_st s) k \<or> cms_view (ss_st s') k = None
        \<or> k = k0 \<and> (\<exists>b. cms_view (ss_st s') k = Some b \<and> sb_Body b = pb_Body pb)"
      using eff [THEN conjunct2, THEN conjunct2, THEN conjunct2, THEN conjunct1]
        eff [THEN conjunct2, THEN conjunct2, THEN conjunct2, THEN conjunct2, THEN conjunct2, THEN conjunct2, THEN conjunct1]
      by (cases "k = k0") simp_all
    have new: "\<exists>pb k. gin_BindJSON c = (pb, None) \<and> rekey nf (gin_Query c KeyQueryParam) = Some (k, uri0) \<and> pb_Body pb = d"
      "\<exists>pb uri. gin_BindJSON c = (pb, None) \<and> rekey nf (gin_Query c KeyQueryParam) = Some (k0, uri) \<and> pb_Body pb = d"
      if "pb_Body pb = d" for d
      using that False key bind by auto
    from served stored show ?thesis using new [of "Some doc"] new [of "sb_Body b"] by auto
  qed
  then show "net_view (ss_locations s') uri = Some doc \<Longrightarrow> net_view (ss_locations s) uri = Some doc
      \<or> (\<exists>pb k. gin_BindJSON c = (pb, None) \<and> rekey nf (gin_Query c KeyQueryParam) = Some (k, uri) \<and> pb_Body pb = Some doc)"
    and "cms_view (ss_st s') k = Some b \<Longrightarrow> cms_view (ss_st s) k = Some b
      \<or> (\<exists>pb uri. gin_BindJSON c = (pb, None) \<and> rekey nf (gin_Query c KeyQueryParam) = Some (k, uri) \<and> pb_Body pb = sb_Body b)"
    by simp_all
qed

lemma keyset_provenance:
  assumes "services_ok h nf s"
    and "handleCatalogCurrentKeySetPost (StorageService h t env bt nf push) c s = (g, s')"
  shows "net_view (ss_locations s') uri = Some doc \<Longrightarrow> net_view (ss_locations s) uri = Some doc"
    and "cms_view (ss_st s') k = Some b \<Longrightarrow> cms_view (ss_st s) k = Some b"
proof -
  have inv: "cms_ok (ss_st s)" "net_inv h nf (ss_locations s)" using assms(1) by (simp_all add: services_ok_def)
  note eff = svc.currentkeyset_effect [OF inv assms(2)]
  have "\<forall>u. net_view (ss_locations s') u = net_view (ss_locations s) u \<or> net_view (ss_locations s') u = None"
    "\<forall>k. cms_view (ss_st s') k = cms_view (ss_st s) k \<or> cms_view (ss_st s') k = None"
    by (rule eff [THEN conjunct2, THEN conjunct2, THEN conjunct2, THEN conjunct2, THEN conjunct2, THEN conjunct1], rule eff [THEN conjunct2, THEN conjunct2, THEN conjunct2, THEN conjunct2, THEN conjunct1])
  then show "net_view (ss_locations s') uri = Some doc \<Longrightarrow> net_view (ss_locations s) uri = Some doc"
    and "cms_view (ss_st s') k = Some b \<Longrightarrow> cms_view (ss_st s) k = Some b"
    by (metis option.distinct(1))+
qed

text \<open>
  C18. Whatever a post is answered with, it changes at most its own key and its own URI: every
  other key keeps its stored body, every other URI its document; a post with a bad key or a bad
  body changes nothing at all.
\<close>

theorem post_touches_one_key:
  assumes "services_ok h nf s"
    and "handleCatalogUpsertPost (StorageService h t env bt nf push) c s = (g, s')"
  shows "services_ok h nf s'
    \<and> (\<forall>k. (\<forall>uri. rekey nf (gin_Query c KeyQueryParam) \<noteq> Some (k, uri)) \<longrightarrow>
          cms_view (ss_st s') k = cms_view (ss_st s) k)
    \<and> (\<forall>uri. (\<forall>k. rekey nf (gin_Query c KeyQueryParam) \<noteq> Some (k, uri)) \<longrightarrow>
          net_view (ss_locations s') uri = net_view (ss_locations s) uri)
    \<and> (snd (gin_BindJSON c) \<noteq> None \<or> rekey nf (gin_Query c KeyQueryParam) = None \<longrightarrow>
          gr_status g = StatusBadRequest \<and> s' = s)"
  using assms by (rule post_frame)

theorem post_touches_one_key_witness:
  "let s1 = snd (handleCatalogUpsertPost example_service (example_storage_post ''mnist_v1'' ''7'') (example_server []));
       s2 = snd (handleCatalogUpsertPost example_service (example_storage_post ''mnist_v2'' ''7'') s1)
   in cms_view (ss_st s2) ''mnist_v1'' = cms_view (ss_st s1) ''mnist_v1''"
proof -
  let ?s1 = "snd (handleCatalogUpsertPost example_service (example_storage_post ''mnist_v1'' ''7'') (example_server []))"
  have "services_ok example_host JsonArrayForamt ?s1"
    unfolding example_service_def by (intro services_ok_post services_ok_example)
  moreover have "rekey JsonArrayForamt ''mnist_v2'' = Some (''mnist_v2'', ''/mnist/v2/model-catalog.json'')"
    by code_simp
  ultimately show ?thesis
    using post_touches_one_key [of example_host JsonArrayForamt ?s1 "''''" example_env "''''" True
        "example_storage_post ''mnist_v2'' ''7''"]
    unfolding Let_def example_service_def by (simp add: prod_eq_iff)
qed

text \<open>
  C19. A current key set that is answered with 200 leaves exactly the posted keys that were
  stored, their bodies unchanged, and has cleared the document at the URI of every purged key; it
  is answered with 200 exactly if no error was recorded.  Whatever the answer, a posted key is
  never touched, nothing is added, and the documents of all other URIs than those
  of the keys to be purged stay.
\<close>

theorem current_key_set_purges_the_rest:
  assumes "services_ok h nf s"
    and "handleCatalogCurrentKeySetPost (StorageService h t env bt nf push) c s = (g, s')"
  shows "(\<forall>k \<in> set (posted_keys c). cms_view (ss_st s') k = cms_view (ss_st s) k)
    \<and> dom (cms_view (ss_st s')) \<subseteq> dom (cms_view (ss_st s))
    \<and> (\<forall>uri. (\<forall>k \<in> dom (cms_view (ss_st s)) - set (posted_keys c). \<forall>k'. rekey nf k \<noteq> Some (k', uri)) \<longrightarrow>
         net_view (ss_locations s') uri = net_view (ss_locations s) uri)
    \<and> (gr_status g = StatusOK \<longleftrightarrow> gr_errors g = [])
    \<and> (gr_status g = StatusOK \<longrightarrow>
         dom (cms_view (ss_st s')) = dom (cms_view (ss_st s)) \<inter> set (posted_keys c)
         \<and> (\<forall>k \<in> dom (cms_view (ss_st s)) - set (posted_keys c). \<forall>k' uri.
              rekey nf k = Some (k', uri) \<longrightarrow> net_view (ss_locations s') uri = None))"
proof -
  have inv: "cms_ok (ss_st s)" "net_inv h nf (ss_locations s)" using assms(1) by (simp_all add: services_ok_def)
  note facts = svc.currentkeyset_facts [OF inv assms(2), unfolded StorageService_format]
  have "\<forall>k \<in> dom (cms_view (ss_st s)) - set (posted_keys c). \<forall>k' uri.
      rekey nf k = Some (k', uri) \<longrightarrow> net_view (ss_locations s') uri = None" if "gr_status g = StatusOK"
    using facts(6) [OF that] by blast
  with facts(1,2,3,4,5) show ?thesis by blast
qed

theorem current_key_set_purges_the_rest_witness:
  "let s = (example_server [])\<lparr>ss_st := snd (cms_Upsert ''b_v1'' (example_body ''7'')
                  (snd (cms_Upsert ''a_v1'' (example_body ''7'') (mem_store [] 5))))\<rparr>;
       s1 = snd (handleCatalogCurrentKeySetPost example_service (example_keyset ''b_v1,c_v1'') s)
   in dom (cms_view (ss_st s1)) = dom (cms_view (ss_st s)) \<inter> {''b_v1'', ''c_v1''}"
proof -
  let ?st = "snd (cms_Upsert ''b_v1'' (example_body ''7'') (snd (cms_Upsert ''a_v1'' (example_body ''7'') (mem_store [] 5))))"
  let ?s = "(example_server [])\<lparr>ss_st := ?st\<rparr>"
  let ?h = "handleCatalogCurrentKeySetPost example_service (example_keyset ''b_v1,c_v1'') ?s"
  have "cms_ok ?st"
    using cms_Upsert_effect [OF cms_ok_mem_store] cms_Upsert_effect by (metis prod.collapse)
  then have ok: "services_ok example_host JsonArrayForamt ?s"
    using services_ok_example [of "[]"] by (simp add: services_ok_def)
  have "gr_status (fst ?h) = StatusOK" by code_simp
  moreover have "posted_keys (example_keyset ''b_v1,c_v1'') = [''b_v1'', ''c_v1'']" by code_simp
  moreover note current_key_set_purges_the_rest [where t = "''''" and env = example_env and bt = "''''" and push = True,
      OF ok prod.collapse [symmetric], folded example_service_def]
  ultimately have "dom (cms_view (ss_st (snd ?h))) = dom (cms_view (ss_st ?s)) \<inter> set [''b_v1'', ''c_v1'']" by metis
  then show ?thesis unfolding Let_def by (simp only: list.set)
qed

text \<open>Key sets received one after the other.\<close>

fun keysets ::
    "('s, 'l, 'b) StorageDeps \<Rightarrow> http_request list \<Rightarrow> ('s, 'l, 'b) StorageRESTServer
      \<Rightarrow> ('s, 'l, 'b) StorageRESTServer" where
  "keysets D [] s = s"
| "keysets D (c # cs) s = keysets D cs (snd (handleCatalogCurrentKeySetPost D c s))"

text \<open>A document no stored key leads to stays, whatever key sets come.\<close>

lemma unreachable_document_stays:
  assumes "services_ok h nf s" and "net_view (ss_locations s) uri = Some doc"
    and "\<forall>k \<in> dom (cms_view (ss_st s)). \<forall>k'. rekey nf k \<noteq> Some (k', uri)"
  shows "net_view (ss_locations (keysets (StorageService h t env bt nf push) cs s)) uri = Some doc"
  using assms
proof (induction cs arbitrary: s)
  case (Cons c cs)
  let ?D = "StorageService h t env bt nf push"
  obtain g s1 where h: "handleCatalogCurrentKeySetPost ?D c s = (g, s1)" by fastforce
  have inv: "cms_ok (ss_st s)" "net_inv h nf (ss_locations s)" using Cons.prems(1) by (simp_all add: services_ok_def)
  note facts = svc.currentkeyset_facts [OF inv h, unfolded StorageService_format]
  have "services_ok h nf s1"
    using services_ok_keyset [OF Cons.prems(1), of t env bt push c] h by simp
  moreover from Cons.prems(3)
  have "\<forall>k \<in> dom (cms_view (ss_st s)) - set (posted_keys c). \<forall>k'. rekey nf k \<noteq> Some (k', uri)" by simp
  from facts(3) [OF this] Cons.prems(2) have "net_view (ss_locations s1) uri = Some doc" by simp
  moreover from facts(2) Cons.prems(3) have "\<forall>k \<in> dom (cms_view (ss_st s1)). \<forall>k'. rekey nf k \<noteq> Some (k', uri)" by blast
  ultimately show ?case using Cons.IH h by simp
qed simp

lemma purge_keys_skip: "set ks \<subseteq> set K \<Longrightarrow> purge_keys D K ks es s = (es, s)"
  by (induction ks) auto

lemma purge_keys_one:
  assumes "distinct ks" and "set ks - set K = {k}"
  shows "purge_keys D K ks es s = (case purge_key D k s of (None, s') \<Rightarrow> (es, s') | (Some e, s') \<Rightarrow> (es @ [e], s'))"
  using assms
proof (induction ks)
  case (Cons x ks)
  show ?case
  proof (cases "x \<in> set K")
    case True
    then have "set ks - set K = {k}" using Cons.prems(2) by auto
    with True Cons show ?thesis by simp
  next
    case False
    then have "x = k" using Cons.prems(2) by auto
    moreover have "set ks \<subseteq> set K"
    proof
      fix y
      assume "y \<in> set ks"
      with Cons.prems \<open>x = k\<close> show "y \<in> set K" by (cases "y = k") auto
    qed
    ultimately show ?thesis using False by (simp add: purge_keys_skip split: prod.split option.split)
  qed
qed simp

text \<open>A removal whose request to the location service is lost, after the store has let go of the key.\<close>

lemma RemoveModel_lost:
  "ln_schedule n = RequestLost # ds \<Longrightarrow>
   \<exists>rc err. location_RemoveModel net_send b k n = ((rc, Some err), n\<lparr>ln_schedule := ds\<rparr>)"
  by (simp add: location_RemoveModel_def client_result_def net_send_def Let_def)

lemma purge_key_lost:
  assumes "cms_Fetch k (ss_st s) = (r, st1)" and "cms_Remove k st1 = (None, st2)"
    and "ln_schedule (ss_locations s) = RequestLost # ds" and "D = StorageService h t env bt nf push"
  shows "\<exists>e s'. purge_key D k s = (Some e, s') \<and> ss_st s' = st2
    \<and> ss_locations s' = (ss_locations s)\<lparr>ln_schedule := ds\<rparr>"
proof -
  obtain sb er where r: "r = (sb, er)" by fastforce
  let ?s1 = "del k (s\<lparr>ss_st := st2\<rparr>)"
  obtain a s2 where set: "setupBkstg D ?s1 = (a, s2)" by fastforce
  note same = setupBkstg_same [OF set, THEN conjunct1]
  let ?s3 = "case ss_bkstg s2 of
      Some w \<Rightarrow> if length (sb_LocationId sb) > 0 \<and> a
                then s2\<lparr>ss_world := snd (bi_DeleteLocation (sd_bkstg D w) (sb_LocationId sb) (ss_world s2))\<rparr>
                else s2
    | None \<Rightarrow> s2"
  have s3: "ss_locations ?s3 = ss_locations s" "ss_st ?s3 = st2"
    using same by (simp_all add: same_data_def del_def split: option.splits)
  obtain rc err where "sd_RemoveModel D k (ss_locations ?s3) = ((rc, Some err), (ss_locations s)\<lparr>ln_schedule := ds\<rparr>)"
    using RemoveModel_lost [OF assms(3), of "SetupBridgeLocationRESTClient h t" k] s3(1)
    unfolding assms(4) by (auto simp: StorageService_def Let_def)
  moreover have "bs_Fetch (sd_st D) k (ss_st s) = (r, st1)" "bs_Remove (sd_st D) k st1 = (None, st2)"
    using assms(1,2,4) by (simp_all add: StorageService_def ConfigMapStorage_def Let_def)
  ultimately have "purge_key D k s = (Some (Errorf err), ?s3\<lparr>ss_locations := (ss_locations s)\<lparr>ln_schedule := ds\<rparr>\<rparr>)"
    using set r by (simp add: purge_key_def Let_def)
  with s3(2) show ?thesis by simp
qed

text \<open>
  C20. The removal of a key that the network loses on its way to the location service is not made up
  for.  The store lets go of the key before the location service is told, so when the one request
  that would have told it is lost, the key set is answered with 500, the key is gone from the store,
  its document is still served, and no later key set, whatever it lists and is answered, clears it.
\<close>

theorem lost_removal_is_never_retried:
  assumes "services_ok h nf s" and "ln_schedule (ss_locations s) = RequestLost # ds"
    and "dom (cms_view (ss_st s)) - set (posted_keys c) = {k}"
    and "rekey nf k = Some (k', uri)" and "net_view (ss_locations s) uri = Some doc"
    and "\<forall>j \<in> dom (cms_view (ss_st s)) - {k}. \<forall>j'. rekey nf j \<noteq> Some (j', uri)"
    and "cms_List (ss_st s) = ((ks, None), st1)" and "cms_Fetch k st1 = (r, st2)" and "cms_Remove k st2 = (None, st3)"
    and "handleCatalogCurrentKeySetPost (StorageService h t env bt nf push) c s = (g, s')"
  shows "gr_status g = StatusInternalServerError
    \<and> cms_view (ss_st s') = (cms_view (ss_st s))(k := None)
    \<and> net_view (ss_locations s') uri = Some doc
    \<and> net_view (ss_locations (keysets (StorageService h t env bt nf push) cs s')) uri = Some doc"
proof -
  let ?D = "StorageService h t env bt nf push"
  have ok: "cms_ok (ss_st s)" using assms(1) by (simp add: services_ok_def)
  note ls = cms_List_effect [OF ok assms(7)]
  then have st1: "cms_ok st1" "cms_view st1 = cms_view (ss_st s)" and ks: "distinct ks" "set ks = dom (cms_view (ss_st s))"
    by simp_all
  have st2: "cms_ok st2" "cms_view st2 = cms_view (ss_st s)"
    using cms_Fetch_effect [OF st1(1), of k "fst r" "snd r" st2] assms(8) st1(2) by simp_all
  from cms_Remove_effect [OF st2(1) assms(9)] st2(2)
  have st3: "cms_view st3 = (cms_view (ss_st s))(k := None)" by simp
  obtain e s1 where p: "purge_key ?D k (s\<lparr>ss_st := st1\<rparr>) = (Some e, s1)" "ss_st s1 = st3"
      "ss_locations s1 = (ss_locations s)\<lparr>ln_schedule := ds\<rparr>"
    using purge_key_lost [of k "s\<lparr>ss_st := st1\<rparr>" r st2 st3 ds ?D h t env bt nf push] assms(2,8,9) by auto
  have list: "bs_List (sd_st ?D) (ss_st s) = ((ks, None), st1)"
    using assms(7) by (simp add: StorageService_def ConfigMapStorage_def Let_def)
  have "purge_keys ?D (posted_keys c) ks [] (s\<lparr>ss_st := st1\<rparr>) = ([e], s1)"
    using purge_keys_one [OF ks(1), of "posted_keys c" k ?D "[]" "s\<lparr>ss_st := st1\<rparr>"] assms(3) ks(2) p(1) by simp
  with assms(10) list have g: "gr_status g = StatusInternalServerError" and s': "s' = s1"
    by (auto simp: handleCatalogCurrentKeySetPost_def gin_error_def)
  have view: "cms_view (ss_st s') = (cms_view (ss_st s))(k := None)" using s' p(2) st3 by simp
  have doc: "net_view (ss_locations s') uri = Some doc" using s' p(3) assms(5) by (simp add: net_view_def)
  have "services_ok h nf s'"
    using services_ok_keyset [OF assms(1), of t env bt push c] assms(10) by simp
  moreover from view assms(6) have "\<forall>j \<in> dom (cms_view (ss_st s')). \<forall>j'. rekey nf j \<noteq> Some (j', uri)"
    by (auto split: if_splits)
  ultimately show ?thesis
    using g view doc unreachable_document_stays [OF _ doc] by simp
qed

theorem lost_removal_is_never_retried_witness:
  "let s1 = (example_server [])\<lparr>
         ss_st := snd (cms_Upsert ''mnist_v1'' (example_body ''7'') (mem_store [] 5)),
         ss_locations := snd (location_UpsertModel net_send (SetupBridgeLocationRESTClient example_host '''')
             ''mnist_v1'' (example_post ''7'' '''') (example_net [Delivered, RequestLost]))\<rparr>;
       s2 = snd (handleCatalogCurrentKeySetPost example_service (example_keyset '''') s1);
       s3 = keysets example_service [example_keyset '''', example_keyset ''mnist_v1'', example_keyset ''''] s2
   in cms_view (ss_st s2) ''mnist_v1'' = None
     \<and> net_view (ss_locations s3) ''/mnist/v1/model-catalog.json'' = Some ''{}''"
proof -
  let ?st = "snd (cms_Upsert ''mnist_v1'' (example_body ''7'') (mem_store [] 5))"
  let ?l = "snd (location_UpsertModel net_send (SetupBridgeLocationRESTClient example_host '''')
             ''mnist_v1'' (example_post ''7'' '''') (example_net [Delivered, RequestLost]))"
  let ?s1 = "(example_server [])\<lparr>ss_st := ?st, ss_locations := ?l\<rparr>"
  let ?st1 = "snd (cms_List ?st)" and ?c = "example_keyset ''''"
  have "net_inv example_host JsonArrayForamt (example_net [Delivered, RequestLost])"
    by (simp add: net_inv_def net_ok_def example_net_def example_host_def NewImportLocationServer_def)
  then have "net_inv example_host JsonArrayForamt ?l"
    using net.up_keeps [OF _ prod.collapse [symmetric]] by blast
  moreover have cms: "cms_ok ?st"
    using cms_Upsert_effect [OF cms_ok_mem_store prod.collapse [symmetric]] by blast
  ultimately have ok: "services_ok example_host JsonArrayForamt ?s1"
    using services_ok_example [of "[]"] by (simp add: services_ok_def)
  have list: "cms_List ?st = (([''mnist_v1''], None), ?st1)"
  proof -
    have "fst (cms_List ?st) = ([''mnist_v1''], None)" by code_simp
    then show ?thesis by (metis prod.collapse)
  qed
  then have dom: "dom (cms_view ?st) = {''mnist_v1''}" using cms_List_effect [OF cms list] by simp
  have remove: "cms_Remove ''mnist_v1'' (snd (cms_Fetch ''mnist_v1'' ?st1))
      = (None, snd (cms_Remove ''mnist_v1'' (snd (cms_Fetch ''mnist_v1'' ?st1))))"
  proof -
    have "fst (cms_Remove ''mnist_v1'' (snd (cms_Fetch ''mnist_v1'' ?st1))) = None" by code_simp
    then show ?thesis by (metis prod.collapse)
  qed
  have sched: "ln_schedule (ss_locations ?s1) = RequestLost # []" by code_simp
  have posted: "posted_keys ?c = []" by code_simp
  have served: "net_view (ss_locations ?s1) ''/mnist/v1/model-catalog.json'' = Some ''{}''" by code_simp
  have one: "dom (cms_view (ss_st ?s1)) - set (posted_keys ?c) = {''mnist_v1''}"
    and others: "\<forall>j \<in> dom (cms_view (ss_st ?s1)) - {''mnist_v1''}. \<forall>j'.
      rekey JsonArrayForamt j \<noteq> Some (j', ''/mnist/v1/model-catalog.json'')"
    and list': "cms_List (ss_st ?s1) = (([''mnist_v1''], None), ?st1)"
    using dom posted list by simp_all
  have "gr_status (fst (handleCatalogCurrentKeySetPost example_service ?c ?s1)) = StatusInternalServerError
      \<and> cms_view (ss_st (snd (handleCatalogCurrentKeySetPost example_service ?c ?s1))) = (cms_view (ss_st ?s1))(''mnist_v1'' := None)
      \<and> net_view (ss_locations (snd (handleCatalogCurrentKeySetPost example_service ?c ?s1))) ''/mnist/v1/model-catalog.json''
          = Some ''{}''
      \<and> net_view (ss_locations (keysets example_service
            [example_keyset '''', example_keyset ''mnist_v1'', example_keyset '''']
            (snd (handleCatalogCurrentKeySetPost example_service ?c ?s1)))) ''/mnist/v1/model-catalog.json'' = Some ''{}''"
    unfolding example_service_def
    by (rule lost_removal_is_never_retried [OF ok sched one example_key served others list' prod.collapse [symmetric]
          remove prod.collapse [symmetric]])
  then show ?thesis unfolding Let_def by simp
qed

text \<open>
  C21. The epoch of a post is never stored: the assignment to the fresh body is lost when the
  body is replaced by the one read back, so the first accepted post of a key stores the empty
  epoch.
\<close>

theorem posted_epoch_is_lost:
  assumes "services_ok h nf s" and "gin_BindJSON c = (pb, None)"
    and "rekey nf (gin_Query c KeyQueryParam) = Some (k, uri)"
    and "cms_view (ss_st s) k = None" and "map_of (ss_pushedLocations s) k = None"
    and "handleCatalogUpsertPost (StorageService h t env bt nf push) c s = (g, s')"
    and "gr_status g = StatusOK \<or> gr_status g = StatusCreated"
  shows "\<exists>b. cms_view (ss_st s') k = Some b \<and> sb_Body b = pb_Body pb \<and> sb_LastUpdateTimeSinceEpoch b = ''''"
proof -
  let ?D = "StorageService h t env bt nf push"
  have up: "upsert_store ?D k uri (gin_Query c TypeQueryParam) pb s = (g, s')"
    using assms(2,3,6) handleCatalogUpsertPost_rekey [of c pb ?D k uri s] by simp
  have key: "rekey (sd_format ?D) k = Some (k, uri)" using assms(3) by (simp add: rekey_rekey)
  have inv: "cms_ok (ss_st s)" "net_inv h nf (ss_locations s)" using assms(1) by (simp_all add: services_ok_def)
  obtain b sb s1 where b: "cms_view (ss_st s') k = Some b" and sync: "sync ?D k s = (Some (sb, None), s1)"
    and posted: "posted_body pb (gin_Query c TypeQueryParam) (sb_LastUpdateTimeSinceEpoch (sb_deref s1 sb)) b"
    using svc.upsert_store_effect [OF inv key up] assms(7) by blast
  obtain ssb e st where f: "cms_Fetch k (ss_st s) = ((ssb, e), st)" by (metis prod.collapse)
  have "e = None \<longrightarrow> ssb = StorageBody_zero" using cms_Fetch_effect [OF inv(1) f] assms(4) by simp
  then have "sb = Fresh StorageBody_zero"
    using sync f assms(5)
    by (auto simp: sync_def StorageService_def ConfigMapStorage_def Let_def StorageBody_zero_def
        split: if_splits)
  with b posted show ?thesis by (simp add: posted_body_def sb_deref_def StorageBody_zero_def)
qed

theorem posted_epoch_is_lost_witness:
  "let r = handleCatalogUpsertPost example_service (example_storage_post ''mnist_v1'' ''1700000000'') (example_server [])
   in \<exists>b. cms_view (ss_st (snd r)) ''mnist_v1'' = Some b \<and> sb_LastUpdateTimeSinceEpoch b = ''''"
proof -
  let ?r = "handleCatalogUpsertPost example_service (example_storage_post ''mnist_v1'' ''1700000000'') (example_server [])"
  have g: "fst ?r = gin_status StatusCreated" by code_simp
  then have r: "?r = (gin_status StatusCreated, snd ?r)" by (metis prod.collapse)
  have "map_of (ss_pushedLocations (example_server [])) ''mnist_v1'' = None" by code_simp
  moreover have "cms_view (ss_st (example_server [])) ''mnist_v1'' = None" by code_simp
  ultimately show ?thesis
    using posted_epoch_is_lost [OF services_ok_example _ _ _ _ r [unfolded example_service_def],
        of "example_post ''1700000000'' ''''" "''mnist_v1''" "''/mnist/v1/model-catalog.json''"] example_key
    unfolding Let_def by (auto simp: gin_defs status_defs example_service_def)
qed

text \<open>
  A bad status of the location service is not the status of the answer: the handler records
  the error but goes on, and if the last store succeeds it answers 201.
\<close>

theorem bad_location_status_is_overwritten:
  assumes "sync D k s = (Some (Fresh sb, None), s1)" and "sb_LocationId sb = []"
    and "sb' = sb\<lparr>sb_Body := pb_Body pb, sb_ReconcilerType := ty\<rparr>"
    and "bs_Upsert (sd_st D) k sb' (ss_st s1) = (None, st)"
    and "sd_UpsertModel D k pb (ss_locations s1) = ((rc, None), l)" and "rc \<noteq> StatusCreated" and "rc \<noteq> StatusOK"
    and "\<not> sd_pushToRHDH D" and "bs_Upsert (sd_st D) k sb' st = (None, st')"
  shows "gr_status (fst (upsert_store D k uri ty pb s)) = StatusCreated
    \<and> gr_errors (fst (upsert_store D k uri ty pb s)) \<noteq> []"
proof -
  let ?s = "s1\<lparr>ss_st := st, ss_locations := l\<rparr>"
  let ?errs = "[ErrorfDump (''error upserting to bridge uri '' @ uri @ '' POST body: msg '')]"
  obtain a s2 where set: "setupBkstg D ?s = (a, s2)" by fastforce
  have st2: "ss_st s2 = st" using setupBkstg_same [OF set] by (simp add: same_data_def)
  have "upsert_import D k uri (Fresh sb') ?errs ?s = upsert_finish D k (Fresh sb') ?errs s2"
    using assms(8) by (simp add: upsert_import_def set split: option.splits)
  moreover have "upsert_finish D k (Fresh sb') ?errs s2 = (gin_error StatusCreated ?errs, s2\<lparr>ss_st := st'\<rparr>)"
    using assms(9) st2 by (simp add: upsert_finish_def sb_deref_def)
  moreover have "upsert_store D k uri ty pb s = upsert_import D k uri (Fresh sb') ?errs ?s"
    using assms(1-7)
    by (simp add: upsert_store_def sb_deref_def sb_assign_def upsert_push_def upsert_backstage_def)
  ultimately show ?thesis by (simp add: gin_defs)
qed

theorem bad_location_status_is_overwritten_witness:
  "let D = example_service\<lparr>sd_UpsertModel := (\<lambda>k pb l. ((503, None), l)), sd_pushToRHDH := False\<rparr>
   in gr_status (fst (upsert_store D ''mnist_v1'' ''/mnist/v1/model-catalog.json'' KubeflowNormalizer
        (example_post ''7'' '''') (example_server []))) = StatusCreated"
proof -
  let ?D = "example_service\<lparr>sd_UpsertModel := (\<lambda>k pb l. ((503, None), l)), sd_pushToRHDH := False\<rparr>"
  let ?s = "example_server []"
  let ?b = "StorageBody_zero\<lparr>sb_Body := pb_Body (example_post ''7'' ''''), sb_ReconcilerType := KubeflowNormalizer\<rparr>"
  have sync: "sync ?D ''mnist_v1'' ?s = (Some (Fresh StorageBody_zero, None), snd (sync ?D ''mnist_v1'' ?s))"
  proof -
    have "fst (sync ?D ''mnist_v1'' ?s) = Some (Fresh StorageBody_zero, None)" by code_simp
    then show ?thesis by (metis prod.collapse)
  qed
  let ?s1 = "snd (sync ?D ''mnist_v1'' ?s)"
  have up1: "bs_Upsert (sd_st ?D) ''mnist_v1'' ?b (ss_st ?s1)
      = (None, snd (bs_Upsert (sd_st ?D) ''mnist_v1'' ?b (ss_st ?s1)))"
  proof -
    have "fst (bs_Upsert (sd_st ?D) ''mnist_v1'' ?b (ss_st ?s1)) = None" by code_simp
    then show ?thesis by (metis prod.collapse)
  qed
  let ?st = "snd (bs_Upsert (sd_st ?D) ''mnist_v1'' ?b (ss_st ?s1))"
  have up2: "bs_Upsert (sd_st ?D) ''mnist_v1'' ?b ?st = (None, snd (bs_Upsert (sd_st ?D) ''mnist_v1'' ?b ?st))"
  proof -
    have "fst (bs_Upsert (sd_st ?D) ''mnist_v1'' ?b ?st) = None" by code_simp
    then show ?thesis by (metis prod.collapse)
  qed
  show ?thesis
    using bad_location_status_is_overwritten [OF sync _ refl up1 _ _ _ _ up2]
    unfolding Let_def by (simp add: StorageBody_zero_def status_defs)
qed

text \<open>Posts received one after the other, and the statuses of their answers.\<close>

fun posts ::
    "('s, 'l, 'b) StorageDeps \<Rightarrow> http_request list \<Rightarrow> ('s, 'l, 'b) StorageRESTServer
      \<Rightarrow> nat list \<times> ('s, 'l, 'b) StorageRESTServer" where
  "posts D [] s = ([], s)"
| "posts D (c # cs) s =
     (case handleCatalogUpsertPost D c s of
        (g, s) \<Rightarrow> (case posts D cs s of (statuses, s) \<Rightarrow> (gr_status g # statuses, s)))"

text \<open>The panic of \<open>sync\<close>.\<close>

lemma sync_panics_iff:
  "fst (sync D k s) = None \<longleftrightarrow>
     \<not> (case map_of (ss_pushedLocations s) k of None \<Rightarrow> False | Some sb \<Rightarrow> sb_LocationIDValid sb)
     \<and> snd (fst (bs_Fetch (sd_st D) k (ss_st s))) = None
     \<and> sb_LocationId (fst (fst (bs_Fetch (sd_st D) k (ss_st s)))) \<noteq> []
     \<and> ss_bkstg s = None"
  by (auto simp: sync_def Let_def split: prod.splits option.splits)

lemma post_of_stuck_key:
  assumes "services_ok h nf s" and "ss_bkstg s = None" and "map_of (ss_pushedLocations s) k = None"
    and "cms_view (ss_st s) k = Some b" and "sb_LocationId b \<noteq> []"
    and "gin_BindJSON c = (pb, None)" and "rekey nf (gin_Query c KeyQueryParam) = Some (k, uri)"
    and "D = StorageService h t env bt nf push" and "cms_Fetch k (ss_st s) = ((sb, e), st)"
  shows "handleCatalogUpsertPost D c s = (gin_status StatusInternalServerError, s\<lparr>ss_st := st\<rparr>)
    \<and> cms_ok st \<and> cms_view st = cms_view (ss_st s)"
proof -
  have ok: "cms_ok (ss_st s)" using assms(1) by (simp add: services_ok_def)
  note fetch = cms_Fetch_effect [OF ok assms(9)]
  have st: "bs_Fetch (sd_st D) k (ss_st s) = ((sb, e), st)" and fmt: "sd_format D = nf"
    using assms(8,9) by (simp_all add: StorageService_def ConfigMapStorage_def Let_def)
  have "handleCatalogUpsertPost D c s = upsert_store D k uri (gin_Query c TypeQueryParam) pb s"
    using assms(6,7) fmt by (intro handleCatalogUpsertPost_rekey) simp_all
  with st assms(2-5) fetch show ?thesis
    by (cases e) (auto simp: upsert_store_def sync_def Let_def)
qed

text \<open>
  C23. A key that was imported in an earlier life of the service is stuck while Backstage cannot be set
  up.  For such a key \<open>sync\<close> panics on the nil client whenever the store can be read, which it
  never does once there is a client; and however often the key is posted, each post is answered with
  500, its body is stored nowhere and pushed nowhere, and no post sets the client up.
\<close>

theorem imported_key_without_backstage_panics:
  assumes "services_ok h nf s" and "ss_bkstg s = None" and "map_of (ss_pushedLocations s) k = None"
    and "cms_view (ss_st s) k = Some b" and "sb_LocationId b \<noteq> []"
    and "list_all (\<lambda>c. snd (gin_BindJSON c) = None
           \<and> (\<exists>uri. rekey nf (gin_Query c KeyQueryParam) = Some (k, uri))) cs"
    and "posts (StorageService h t env bt nf push) cs s = (statuses, s')"
  shows "(fst (sync (StorageService h t env bt nf push) k s) = None \<longleftrightarrow> snd (fst (cms_Fetch k (ss_st s))) = None)
    \<and> fst (sync (StorageService h t env bt nf push) k (s\<lparr>ss_bkstg := Some w\<rparr>)) \<noteq> None
    \<and> statuses = map (\<lambda>_. StatusInternalServerError) cs
    \<and> cms_view (ss_st s') = cms_view (ss_st s) \<and> ss_locations s' = ss_locations s \<and> ss_bkstg s' = None"
proof -
  let ?D = "StorageService h t env bt nf push"
  have "cms_ok (ss_st s)" using assms(1) by (simp add: services_ok_def)
  from cms_Fetch_effect [OF this, of k] assms(4,5)
  have "snd (fst (cms_Fetch k (ss_st s))) = None \<longrightarrow> sb_LocationId (fst (fst (cms_Fetch k (ss_st s)))) \<noteq> []"
    by (metis option.simps(5) prod.collapse)
  then have panic: "(fst (sync ?D k s) = None \<longleftrightarrow> snd (fst (cms_Fetch k (ss_st s))) = None)
      \<and> fst (sync ?D k (s\<lparr>ss_bkstg := Some w\<rparr>)) \<noteq> None"
    using assms(2,3) by (auto simp: sync_panics_iff StorageService_def ConfigMapStorage_def Let_def)
  have "statuses = map (\<lambda>_. StatusInternalServerError) cs
      \<and> cms_view (ss_st s') = cms_view (ss_st s) \<and> ss_locations s' = ss_locations s \<and> ss_bkstg s' = None"
    using assms(1-7)
  proof (induction cs arbitrary: s statuses)
    case (Cons c cs)
    then obtain pb uri where c: "gin_BindJSON c = (pb, None)" "rekey nf (gin_Query c KeyQueryParam) = Some (k, uri)"
      by (cases "gin_BindJSON c") auto
    obtain sb e st where f: "cms_Fetch k (ss_st s) = ((sb, e), st)" by (metis prod.collapse)
    note post = post_of_stuck_key [OF Cons.prems(1-5) c refl f, of t env bt push]
    let ?s = "s\<lparr>ss_st := st\<rparr>"
    obtain rest where rest: "posts ?D cs ?s = (rest, s')" and st: "statuses = StatusInternalServerError # rest"
      using Cons.prems(7) post by (auto simp: gin_status_def split: prod.splits)
    have "services_ok h nf ?s" using Cons.prems(1) post by (simp add: services_ok_def cache_ok_def)
    from Cons.IH [OF this _ _ _ Cons.prems(5) _ rest] Cons.prems(2-4,6) post st show ?case by simp
  qed simp
  with panic show ?thesis by blast
qed

theorem imported_key_without_backstage_panics_witness:
  "let st = snd (cms_Upsert ''mnist_v1'' ((example_body ''7'')\<lparr>sb_LocationId := ''loc-1''\<rparr>) (mem_store [] 5));
       s = (example_server [])\<lparr>ss_st := st, ss_bkstg := None\<rparr>
   in fst (sync example_service ''mnist_v1'' s) = None
     \<and> fst (posts example_service [example_storage_post ''mnist_v1'' ''8'', example_storage_post ''mnist_v1'' ''9''] s)
       = [500, 500]"
proof -
  let ?b = "(example_body ''7'')\<lparr>sb_LocationId := ''loc-1''\<rparr>"
  let ?st = "snd (cms_Upsert ''mnist_v1'' ?b (mem_store [] 5))"
  let ?s = "(example_server [])\<lparr>ss_st := ?st, ss_bkstg := None\<rparr>"
  let ?cs = "[example_storage_post ''mnist_v1'' ''8'', example_storage_post ''mnist_v1'' ''9'']"
  have "fst (cms_Upsert ''mnist_v1'' ?b (mem_store [] 5)) = None" by code_simp
  then have st: "cms_ok ?st" "cms_view ?st ''mnist_v1'' = Some ?b"
    using cms_Upsert_effect [OF cms_ok_mem_store prod.collapse [symmetric], of "''mnist_v1''" ?b] by auto
  then have ok: "services_ok example_host JsonArrayForamt ?s"
    using services_ok_example [of "[]"] by (simp add: services_ok_def cache_ok_def)
  have cache: "map_of (ss_pushedLocations ?s) ''mnist_v1'' = None" by code_simp
  have read: "snd (fst (cms_Fetch ''mnist_v1'' (ss_st ?s))) = None" by code_simp
  have keys: "list_all (\<lambda>c. snd (gin_BindJSON c) = None
      \<and> (\<exists>uri. rekey JsonArrayForamt (gin_Query c KeyQueryParam) = Some (''mnist_v1'', uri))) ?cs"
    by (simp add: example_key)
  have "(fst (sync example_service ''mnist_v1'' ?s) = None \<longleftrightarrow> snd (fst (cms_Fetch ''mnist_v1'' (ss_st ?s))) = None)
      \<and> fst (posts example_service ?cs ?s) = map (\<lambda>_. StatusInternalServerError) ?cs"
    using imported_key_without_backstage_panics [OF ok _ cache _ _ keys prod.collapse [symmetric],
        of ?b "''''" example_env "''''" True] st(2)
    unfolding example_service_def by auto
  with read show ?thesis unfolding Let_def by (simp add: StatusInternalServerError_def)
qed

text \<open>
  The fetch handler hides a failing store: its error is overwritten by that of marshalling,
  and the answer is 200 with whatever body the failed call returned.
\<close>

theorem fetch_hides_store_error:
  assumes "bs_Fetch (sd_st D) (gin_Query c KeyQueryParam) (ss_st s) = ((sb, Some e), st)"
    and "gin_Query c KeyQueryParam \<noteq> []"
  shows "handleCatalogFetch D c s
    = (gin_data StatusOK (JsonPayload (Some (marshal_StorageBody sb))), s\<lparr>ss_st := st\<rparr>)"
  using assms by (simp add: handleCatalogFetch_def)

theorem fetch_hides_store_error_witness:
  "let s = (example_server [])\<lparr>ss_st := mem_store [False, False, True] 5\<rparr>
   in fst (handleCatalogFetch example_service (example_keyset ''mnist_v1'') s)
      = gin_data StatusOK (JsonPayload (Some (marshal_StorageBody StorageBody_zero)))"
proof -
  let ?s = "(example_server [])\<lparr>ss_st := mem_store [False, False, True] 5\<rparr>"
  let ?f = "bs_Fetch (sd_st example_service) (gin_Query (example_keyset ''mnist_v1'') KeyQueryParam) (ss_st ?s)"
  have "fst ?f = (StorageBody_zero, Some ''connection refused'')" by code_simp
  then have "?f = ((StorageBody_zero, Some ''connection refused''), snd ?f)" by (metis prod.collapse)
  from fetch_hides_store_error [OF this] show ?thesis
    unfolding Let_def by (simp add: example_keyset_def gin_Query_def KeyQueryParam_def)
qed

end
