(* ===== verification/StorageClient.thy ===== *)
theory StorageClient
  imports StorageServer
begin

text \<open>
  The client of the storage service, \<^verbatim>\<open>pkg/cmd/server/storage/rest.go\<close>, by which the normaliser
  reports what it found, and what a call of it does when it reaches the server of
  \<open>StorageServer\<close>.  As in \<open>LocationClient\<close> the dumped response that the Go methods return as
  a message is left out.
\<close>

section \<open>The client\<close>

record BridgeStorageRESTClient =
  bsc_UpsertURL :: string
  bsc_CurrentKeySetURL :: string
  bsc_ListURL :: string
  bsc_FetchURL :: string
  bsc_Token :: string

definition SetupBridgeStorageRESTClient :: "string \<Rightarrow> string \<Rightarrow> BridgeStorageRESTClient" where
  "SetupBridgeStorageRESTClient hostURL token =
     \<lparr>bsc_UpsertURL = hostURL @ UpsertURI, bsc_CurrentKeySetURL = hostURL @ CurrentKeySetURI,
      bsc_ListURL = hostURL @ ListURI, bsc_FetchURL = hostURL @ FetchURI, bsc_Token = token\<rparr>"

definition storage_post_body :: "string \<Rightarrow> string \<Rightarrow> string option \<Rightarrow> bytes \<Rightarrow> PostBody" where
  "storage_post_body lastUpdateTimeSinceEpoch modelCardKey modelCard buf =
     (let body = PostBody_zero\<lparr>pb_Body := buf, pb_LastUpdateTimeSinceEpoch := lastUpdateTimeSinceEpoch\<rparr>
      in case modelCard of
           None \<Rightarrow> body
         | Some mc \<Rightarrow> body\<lparr>pb_ModelCard := mc, pb_ModelCardKey := remove_char (CHR '' '') modelCardKey\<rparr>)"

definition storage_UpsertModel ::
    "'w transport \<Rightarrow> BridgeStorageRESTClient \<Rightarrow> string \<Rightarrow> string \<Rightarrow> string \<Rightarrow> string \<Rightarrow> string option \<Rightarrow> bytes
      \<Rightarrow> 'w \<Rightarrow> (nat \<times> PostBody \<times> go_error) \<times> 'w" where
  "storage_UpsertModel send b importKey normalizerType lastUpdateTimeSinceEpoch modelCardKey modelCard buf w =
     (let body = storage_post_body lastUpdateTimeSinceEpoch modelCardKey modelCard buf
      in case send \<lparr>rq_method = POST, rq_url = bsc_UpsertURL b,
             rq_query = [(KeyQueryParam, importKey), (TypeQueryParam, normalizerType)],
             rq_token = bsc_Token b, rq_body = JsonPayload (Some (marshal_PostBody body))\<rparr> w of
           (Inl err, w') \<Rightarrow> ((StatusInternalServerError, body, Some err), w')
         | (Inr resp, w') \<Rightarrow> ((rs_status resp, body, None), w'))"

definition PostCurrentKeySet ::
    "'w transport \<Rightarrow> BridgeStorageRESTClient \<Rightarrow> string list \<Rightarrow> 'w \<Rightarrow> (nat \<times> go_error) \<times> 'w" where
  "PostCurrentKeySet send b keys w =
     client_result (send \<lparr>rq_method = POST, rq_url = bsc_CurrentKeySetURL b,
       rq_query = [(KeyQueryParam, go_join '','' keys)], rq_token = bsc_Token b, rq_body = NoPayload\<rparr> w)"

text \<open>Decoding \<^verbatim>\<open>DiscoverResponse\<close>: null is the nil slice, a null element the empty string.\<close>

fun decode_string_elem :: "json \<Rightarrow> string \<times> go_error" where
  "decode_string_elem (JStr s) = (s, None)"
| "decode_string_elem JNull = ('''', None)"
| "decode_string_elem _ = ('''', type_error)"

fun decode_strings :: "(string list \<Rightarrow> 'r \<Rightarrow> 'r) \<Rightarrow> json \<Rightarrow> 'r \<Rightarrow> 'r \<times> go_error" where
  "decode_strings upd (JArr js) r =
     (upd (map (fst \<circ> decode_string_elem) js) r,
      foldl (\<lambda>e j. first_error e (snd (decode_string_elem j))) None js)"
| "decode_strings upd JNull r = (upd [] r, None)"
| "decode_strings upd _ r = (r, type_error)"

definition DiscoverResponse_field :: "string \<Rightarrow> json \<Rightarrow> string list \<Rightarrow> string list \<times> go_error" where
  "DiscoverResponse_field k v r =
     (if equal_fold k ''keys'' then decode_strings (\<lambda>x _. x) v r else (r, None))"

definition payload_json :: "payload \<Rightarrow> json_text" where
  "payload_json p = (case p of JsonPayload t \<Rightarrow> t | _ \<Rightarrow> None)"

definition ListModelsKeys ::
    "'w transport \<Rightarrow> BridgeStorageRESTClient \<Rightarrow> 'w \<Rightarrow> (nat \<times> go_error \<times> string list) \<times> 'w" where
  "ListModelsKeys send b w =
     (case send \<lparr>rq_method = GET, rq_url = bsc_ListURL b, rq_query = [], rq_token = bsc_Token b,
             rq_body = NoPayload\<rparr> w of
        (Inl err, w') \<Rightarrow> ((StatusInternalServerError, Some err, []), w')
      | (Inr resp, w') \<Rightarrow>
          (case json_unmarshal DiscoverResponse_field (payload_json (rs_body resp)) [] of
             (keys, Some err) \<Rightarrow> ((StatusBadRequest, Some err, []), w')
           | (keys, None) \<Rightarrow> ((rs_status resp, None, keys), w')))"

definition FetchModel ::
    "'w transport \<Rightarrow> BridgeStorageRESTClient \<Rightarrow> string \<Rightarrow> 'w \<Rightarrow> (nat \<times> go_error \<times> payload) \<times> 'w" where
  "FetchModel send b key w =
     (case send \<lparr>rq_method = GET, rq_url = bsc_FetchURL b, rq_query = [(KeyQueryParam, key)],
             rq_token = bsc_Token b, rq_body = NoPayload\<rparr> w of
        (Inl err, w') \<Rightarrow> ((StatusInternalServerError, Some err, NoPayload), w')
      | (Inr resp, w') \<Rightarrow> ((rs_status resp, None, rs_body resp), w'))"

section \<open>The client connected to the server\<close>

text \<open>The normaliser and the storage service run in one pod: the requests are not lost.\<close>

definition storage_link ::
    "string \<Rightarrow> ('s, 'l, 'b) StorageDeps \<Rightarrow> ('s, 'l, 'b) StorageRESTServer transport" where
  "storage_link host D rq s =
     (if has_prefix (rq_url rq) host
      then (case ss_serve D (rq\<lparr>rq_url := drop (length host) (rq_url rq)\<rparr>) s of
              (g, s') \<Rightarrow> (Inr (gin_response g), s'))
      else (Inl ''no such host'', s))"

text \<open>The requests as the server's handlers see them.\<close>

definition upsert_request ::
    "string \<Rightarrow> string \<Rightarrow> string \<Rightarrow> PostBody \<Rightarrow> http_request" where
  "upsert_request token importKey normalizerType body =
     \<lparr>rq_method = POST, rq_url = UpsertURI,
      rq_query = [(KeyQueryParam, importKey), (TypeQueryParam, normalizerType)],
      rq_token = token, rq_body = JsonPayload (Some (marshal_PostBody body))\<rparr>"

definition keyset_request :: "string \<Rightarrow> string list \<Rightarrow> http_request" where
  "keyset_request token keys =
     \<lparr>rq_method = POST, rq_url = CurrentKeySetURI, rq_query = [(KeyQueryParam, go_join '','' keys)],
      rq_token = token, rq_body = NoPayload\<rparr>"

lemma upsert_request_simps [simp]:
  "gin_Query (upsert_request t k ty body) KeyQueryParam = k"
  "gin_Query (upsert_request t k ty body) TypeQueryParam = ty"
  "gin_BindJSON (upsert_request t k ty body) = (body, None)"
  by (simp_all add: upsert_request_def gin_Query_def gin_BindJSON_def KeyQueryParam_def TypeQueryParam_def)

lemma storage_UpsertModel_link:
  "storage_UpsertModel (storage_link host D) (SetupBridgeStorageRESTClient host token) k ty ep ck mc buf s =
     (let body = storage_post_body ep ck mc buf
      in case handleCatalogUpsertPost D (upsert_request token k ty body) s of
           (g, s') \<Rightarrow> ((gr_status g, body, None), s'))"
  by (auto simp: storage_UpsertModel_def storage_link_def SetupBridgeStorageRESTClient_def Let_def
      ss_serve_def upsert_request_def gin_response_def split: prod.splits)

lemma PostCurrentKeySet_link:
  "PostCurrentKeySet (storage_link host D) (SetupBridgeStorageRESTClient host token) keys s =
     (case handleCatalogCurrentKeySetPost D (keyset_request token keys) s of
        (g, s') \<Rightarrow> ((gr_status g, None), s'))"
  by (auto simp: PostCurrentKeySet_def client_result_def storage_link_def SetupBridgeStorageRESTClient_def
      ss_serve_def keyset_request_def gin_response_def uri_defs split: prod.splits)

text \<open>The key set survives the query parameter, unless a key has a comma or is the only, empty one.\<close>

lemma posted_keys_request:
  assumes "\<forall>k \<in> set keys. CHR '','' \<notin> set k" and "keys \<noteq> [[]]"
  shows "posted_keys (keyset_request token keys) = keys"
proof (cases "keys = []")
  case True
  then show ?thesis by (simp add: posted_keys_def keyset_request_def gin_Query_def)
next
  case False
  then have "go_join '','' keys \<noteq> []" using assms(2) by (simp add: go_join_eq_Nil_iff)
  then show ?thesis
    using False assms(1) go_split_join [of keys "CHR '',''"]
    by (simp add: posted_keys_def keyset_request_def gin_Query_def)
qed

lemma first_error_None: "first_error e None = e" "first_error None e = e"
  by (cases e) (simp_all add: first_error_def)

lemma first_error_strings:
  "foldl (\<lambda>e j. first_error e (snd (decode_string_elem j))) None (map JStr ks) = None"
  by (induction ks) (auto simp: first_error_def)

lemma ListModelsKeys_link:
  "ListModelsKeys (storage_link host D) (SetupBridgeStorageRESTClient host token) s =
     (case bs_List (sd_st D) (ss_st s) of
        ((_, Some err), st) \<Rightarrow> ((StatusBadRequest, Some ''invalid character'', []), s\<lparr>ss_st := st\<rparr>)
      | ((keys, None), st) \<Rightarrow> ((StatusOK, None, keys), s\<lparr>ss_st := st\<rparr>))"
proof -
  have "map (fst \<circ> decode_string_elem \<circ> JStr) ks = ks" for ks by (induction ks) auto
  moreover have "to_lower ''keys'' = ''keys''" by code_simp
  ultimately show ?thesis
    by (auto simp: ListModelsKeys_def storage_link_def SetupBridgeStorageRESTClient_def ss_serve_def
        handleCatalogList_def gin_defs uri_defs json_unmarshal_def payload_json_def DiscoverResponse_field_def
        equal_fold_def first_error_strings first_error_None split: prod.splits option.splits)
qed

section \<open>Properties\<close>

text \<open>What a report leaves alone, whatever the answer.\<close>

lemma report_frame:
  assumes "services_ok h nf s"
    and "storage_UpsertModel (storage_link host (StorageService h t env bt nf push))
           (SetupBridgeStorageRESTClient host token) key ty ep ck mc buf s = (r, s')"
  shows "services_ok h nf s'
    \<and> (\<forall>k. (\<forall>uri. rekey nf key \<noteq> Some (k, uri)) \<longrightarrow> cms_view (ss_st s') k = cms_view (ss_st s) k)"
proof -
  obtain g where "handleCatalogUpsertPost (StorageService h t env bt nf push)
      (upsert_request token key ty (storage_post_body ep ck mc buf)) s = (g, s')"
    using assms(2) by (auto simp: storage_UpsertModel_link Let_def split: prod.splits)
  from post_frame [OF assms(1) this] show ?thesis by simp
qed

section \<open>What the normaliser relies on\<close>

text \<open>
  What a client may conclude from its reports, whatever they are answered with: a relation between
  the world before and after, indexed by the keys reported.
\<close>

locale reporting =
  fixes send :: "'w transport"
    and client :: BridgeStorageRESTClient
    and R :: "string set \<Rightarrow> 'w \<Rightarrow> 'w \<Rightarrow> bool"
  assumes R_refl: "R {} w w"
    and R_trans: "R K w w1 \<Longrightarrow> R K' w1 w2 \<Longrightarrow> R (K \<union> K') w w2"
    and R_mono: "R K w w1 \<Longrightarrow> K \<subseteq> K' \<Longrightarrow> R K' w w1"
    and R_report: "storage_UpsertModel send client key ty ep ck mc buf w = (x, w') \<Longrightarrow> R {key} w w'"
begin

lemma R_same [simp, intro]: "R K w w"
  by (rule R_mono [OF R_refl]) simp

end

text \<open>A relation that key sets keep as well.\<close>

locale posting = reporting +
  assumes R_keyset: "PostCurrentKeySet send client keys w = (x, w') \<Longrightarrow> R UNIV w w'"

text \<open>From \<open>s\<close> to \<open>s'\<close> at most the entries of the keys in \<open>K\<close> have changed.\<close>

definition touches ::
    "string \<Rightarrow> NormalizerFormat \<Rightarrow> string set \<Rightarrow> ('w ConfigMapBridgeStorage, location_net, 'b) StorageRESTServer
      \<Rightarrow> ('w ConfigMapBridgeStorage, location_net, 'b) StorageRESTServer \<Rightarrow> bool" where
  "touches h nf K s s' \<longleftrightarrow> (services_ok h nf s \<longrightarrow> services_ok h nf s'
     \<and> (\<forall>k. (\<forall>key \<in> K. \<forall>uri. rekey nf key \<noteq> Some (k, uri)) \<longrightarrow> cms_view (ss_st s') k = cms_view (ss_st s) k))"

interpretation touching: reporting "storage_link host (StorageService h t env bt nf push)"
  "SetupBridgeStorageRESTClient host token" "touches h nf"
  for host token h t env bt nf push
proof unfold_locales
  fix key ty ep ck mc buf s x s'
  assume "storage_UpsertModel (storage_link host (StorageService h t env bt nf push))
    (SetupBridgeStorageRESTClient host token) key ty ep ck mc buf s = (x, s')"
  from report_frame [OF _ this] show "touches h nf {key} s s'" unfolding touches_def by (metis singletonI)
qed (auto simp: touches_def)

text \<open>A report that is answered with 200 or 201.\<close>

lemma reported_effect:
  assumes "services_ok h nf s" and "CHR ''_'' \<notin> set m" and "CHR ''_'' \<notin> set v"
    and "storage_UpsertModel (storage_link host (StorageService h t env bt nf push))
           (SetupBridgeStorageRESTClient host token) (fst (BuildImportKeyAndURI m v nf')) ty ep ck mc buf s
         = ((rc, body, e), s')"
    and "rc = StatusOK \<or> rc = StatusCreated"
  shows "e = None \<and> net_view (ss_locations s') (snd (BuildImportKeyAndURI m v nf)) = buf
    \<and> (\<exists>b. cms_view (ss_st s') (fst (BuildImportKeyAndURI m v nf)) = Some b \<and> sb_Body b = buf
           \<and> sb_ReconcilerType b = ty)"
proof -
  let ?D = "StorageService h t env bt nf push"
  let ?key = "fst (BuildImportKeyAndURI m v nf')"
  let ?pb = "storage_post_body ep ck mc buf"
  obtain g where up: "handleCatalogUpsertPost ?D (upsert_request token ?key ty ?pb) s = (g, s')"
    and rc: "rc = gr_status g" and e: "e = None"
    using assms(4) by (auto simp: storage_UpsertModel_link Let_def split: prod.splits)
  obtain k uri where ku: "BuildImportKeyAndURI m v nf = (k, uri)" by fastforce
  have "rekey nf ?key = Some (k, uri)" using rekey_Build [OF assms(2,3)] ku by simp
  moreover have "gr_status g = StatusOK \<or> gr_status g = StatusCreated" using assms(5) rc by simp
  moreover have "pb_Body ?pb = buf" by (simp add: storage_post_body_def Let_def split: option.split)
  ultimately show ?thesis
    using accepted_post_effect [OF assms(1) _ _ up, of ?pb k uri] ku e by simp
qed

text \<open>
  A model the normaliser's client reports to the storage service under the import key of a
  model and a version is, when the answer is 200 or 201, stored under that key and served by the
  location service at the URI of that model and version, byte for byte.
\<close>

theorem reported_model_is_served:
  assumes "services_ok h nf s" and "CHR ''_'' \<notin> set m" and "CHR ''_'' \<notin> set v"
    and "storage_UpsertModel (storage_link host (StorageService h t env bt nf push))
           (SetupBridgeStorageRESTClient host token) (fst (BuildImportKeyAndURI m v nf')) ty ep ck mc buf s
         = ((rc, body, e), s')"
    and "rc = StatusOK \<or> rc = StatusCreated"
  shows "e = None \<and> net_view (ss_locations s') (snd (BuildImportKeyAndURI m v nf)) = buf
    \<and> (\<exists>b. cms_view (ss_st s') (fst (BuildImportKeyAndURI m v nf)) = Some b \<and> sb_Body b = buf
           \<and> sb_ReconcilerType b = ty)"
  using assms by (rule reported_effect)

theorem reported_model_is_served_witness:
  "let r = storage_UpsertModel (storage_link ''http://s'' example_service) (SetupBridgeStorageRESTClient ''http://s'' '''')
             ''mnist_v1'' KubeflowNormalizer ''7'' ''mnist'' None (Some ''{}'') (example_server [])
   in fst (fst r) = StatusCreated
      \<and> net_view (ss_locations (snd r)) ''/mnist/v1/model-catalog.json'' = Some ''{}''"
proof -
  let ?r = "storage_UpsertModel (storage_link ''http://s'' example_service) (SetupBridgeStorageRESTClient ''http://s'' '''')
             ''mnist_v1'' KubeflowNormalizer ''7'' ''mnist'' None (Some ''{}'') (example_server [])"
  have rc: "fst (fst ?r) = StatusCreated" by code_simp
  have key: "''mnist_v1'' = fst (BuildImportKeyAndURI ''mnist'' ''v1'' JsonArrayForamt)" by code_simp
  have sep: "CHR ''_'' \<notin> set ''mnist''" "CHR ''_'' \<notin> set ''v1''" by simp_all
  have "?r = ((fst (fst ?r), fst (snd (fst ?r)), snd (snd (fst ?r))), snd ?r)" by simp
  note reported_model_is_served [where t = "''''" and env = example_env and bt = "''''" and push = True and nf' = JsonArrayForamt,
      OF services_ok_example sep, folded example_service_def key, OF this]
  then show ?thesis using rc example_uri [of JsonArrayForamt] unfolding Let_def by simp
qed

text \<open>A key set that is answered with 200.\<close>

lemma key_set_effect:
  assumes "services_ok h nf s" and "\<forall>k \<in> set keys. CHR '','' \<notin> set k" and "keys \<noteq> [[]]"
    and "PostCurrentKeySet (storage_link host (StorageService h t env bt nf push))
           (SetupBridgeStorageRESTClient host token) keys s = ((rc, e), s')"
    and "rc = StatusOK"
  shows "dom (cms_view (ss_st s')) = dom (cms_view (ss_st s)) \<inter> set keys"
proof -
  obtain g where h: "handleCatalogCurrentKeySetPost (StorageService h t env bt nf push)
      (keyset_request token keys) s = (g, s')" and "gr_status g = StatusOK"
    using assms(4,5) by (auto simp: PostCurrentKeySet_link split: prod.splits)
  moreover have "posted_keys (keyset_request token keys) = keys" by (rule posted_keys_request) (rule assms)+
  moreover have "cms_ok (ss_st s)" "net_inv h nf (ss_locations s)" using assms(1) by (simp_all add: services_ok_def)
  ultimately show ?thesis using svc.currentkeyset_facts(5) [OF _ _ h] by simp
qed

text \<open>
  A key set the normaliser's client posts leaves, when the answer is 200, exactly the stored
  keys that are in the list; an empty list purges every key.
\<close>

theorem posted_key_set_is_what_remains:
  assumes "services_ok h nf s" and "\<forall>k \<in> set keys. CHR '','' \<notin> set k" and "keys \<noteq> [[]]"
    and "PostCurrentKeySet (storage_link host (StorageService h t env bt nf push))
           (SetupBridgeStorageRESTClient host token) keys s = ((rc, e), s')"
    and "rc = StatusOK"
  shows "dom (cms_view (ss_st s')) = dom (cms_view (ss_st s)) \<inter> set keys"
  using assms by (rule key_set_effect)

theorem posted_key_set_is_what_remains_witness:
  "let s = (example_server [])\<lparr>ss_st := snd (cms_Upsert ''b_v1'' (example_body ''7'')
                  (snd (cms_Upsert ''a_v1'' (example_body ''7'') (mem_store [] 5))))\<rparr>;
       s1 = snd (PostCurrentKeySet (storage_link ''http://s'' example_service)
                   (SetupBridgeStorageRESTClient ''http://s'' '''') [''b_v1'', ''c_v1''] s)
   in dom (cms_view (ss_st s1)) = dom (cms_view (ss_st s)) \<inter> {''b_v1'', ''c_v1''}"
proof -
  let ?st = "snd (cms_Upsert ''b_v1'' (example_body ''7'') (snd (cms_Upsert ''a_v1'' (example_body ''7'') (mem_store [] 5))))"
  let ?s = "(example_server [])\<lparr>ss_st := ?st\<rparr>"
  let ?r = "PostCurrentKeySet (storage_link ''http://s'' example_service)
              (SetupBridgeStorageRESTClient ''http://s'' '''') [''b_v1'', ''c_v1''] ?s"
  have "cms_ok ?st"
    using cms_Upsert_effect [OF cms_ok_mem_store] cms_Upsert_effect by (metis prod.collapse)
  then have ok: "services_ok example_host JsonArrayForamt ?s"
    using services_ok_example [of "[]"] by (simp add: services_ok_def)
  have rc: "fst (fst ?r) = StatusOK" by code_simp
  have keys: "\<forall>k \<in> set [''b_v1'', ''c_v1'']. CHR '','' \<notin> set k" "[''b_v1'', ''c_v1''] \<noteq> [[]]" by simp_all
  have "?r = ((fst (fst ?r), snd (fst ?r)), snd ?r)" by simp
  note posted_key_set_is_what_remains [where t = "''''" and env = example_env and bt = "''''" and push = True,
      OF ok keys, folded example_service_def, OF this rc]
  then show ?thesis unfolding Let_def by (simp only: list.set)
qed

end
