(* ===== verification/GoUrl.thy ===== *)
theory GoUrl
  imports Prelude
begin

text \<open>
  The part of Go's package \<^verbatim>\<open>net/url\<close> that the populators use: \<^verbatim>\<open>url.Parse\<close>, of which they only
  look at the error and at the scheme.  The text of the error is not kept.
\<close>

section \<open>Escapes\<close>

definition is_hex :: "char \<Rightarrow> bool" where
  "is_hex c \<longleftrightarrow> is_digit c \<or> (CHR ''a'' \<le> c \<and> c \<le> CHR ''f'') \<or> (CHR ''A'' \<le> c \<and> c \<le> CHR ''F'')"

definition unhex :: "char \<Rightarrow> nat" where
  "unhex c = (if is_digit c then of_char c - 48 else of_char (lower_char c) - 87)"

text \<open>
  \<^verbatim>\<open>unescape\<close> in one of its modes: \<open>plain\<close> says which bytes may stand as they are, \<open>esc\<close> which
  escaped bytes are allowed; only the verdict is computed.
\<close>

fun unescape_ok :: "(char \<Rightarrow> bool) \<Rightarrow> (char \<Rightarrow> char \<Rightarrow> bool) \<Rightarrow> string \<Rightarrow> bool" where
  "unescape_ok plain esc [] \<longleftrightarrow> True"
| "unescape_ok plain esc [c] \<longleftrightarrow> c \<noteq> CHR ''%'' \<and> plain c"
| "unescape_ok plain esc [c, a] \<longleftrightarrow> c \<noteq> CHR ''%'' \<and> plain c \<and> a \<noteq> CHR ''%'' \<and> plain a"
| "unescape_ok plain esc (c # a # b # s) \<longleftrightarrow>
     (if c = CHR ''%'' then is_hex a \<and> is_hex b \<and> esc a b \<and> unescape_ok plain esc s
      else plain c \<and> unescape_ok plain esc (a # b # s))"

text \<open>Paths, fragments, user names and passwords: any byte, any escape.\<close>

definition escapes_ok :: "string \<Rightarrow> bool" where
  "escapes_ok s \<longleftrightarrow> unescape_ok (\<lambda>_. True) (\<lambda>_ _. True) s"

definition host_char :: "char \<Rightarrow> bool" where
  "host_char c \<longleftrightarrow> is_alnum c \<or> c \<in> set ''!$&()*+,;=:[]<>-_.~'' \<or> c = CHR 0x27 \<or> c = CHR 0x22
     \<or> 128 \<le> (of_char c :: nat)"

definition host_ok :: "string \<Rightarrow> bool" where
  "host_ok s \<longleftrightarrow> unescape_ok host_char (\<lambda>a b. 8 \<le> unhex a \<or> (a = CHR ''2'' \<and> b = CHR ''5'')) s"

definition zone_ok :: "string \<Rightarrow> bool" where
  "zone_ok s \<longleftrightarrow> unescape_ok host_char
     (\<lambda>a b. (a = CHR ''2'' \<and> b = CHR ''5'') \<or> 16 * unhex a + unhex b = 32
        \<or> host_char (char_of (16 * unhex a + unhex b)) \<and> 16 * unhex a + unhex b < 128) s"

section \<open>Authority\<close>

definition validOptionalPort :: "string \<Rightarrow> bool" where
  "validOptionalPort port \<longleftrightarrow> port = [] \<or> (hd port = CHR '':'' \<and> list_all is_digit (tl port))"

definition validUserinfo :: "string \<Rightarrow> bool" where
  "validUserinfo s \<longleftrightarrow>
     list_all (\<lambda>c. is_alnum c \<or> c \<in> set ''-._:~!$&()*+,;=%@'' \<or> c = CHR 0x27) s"

text \<open>\<^verbatim>\<open>strings.Cut\<close> at the first separator, and the split at the last one.\<close>

definition cut_at :: "char \<Rightarrow> string \<Rightarrow> string \<times> string option" where
  "cut_at c s =
     (case dropWhile (\<lambda>x. x \<noteq> c) s of
        [] \<Rightarrow> (s, None)
      | _ # rest \<Rightarrow> (takeWhile (\<lambda>x. x \<noteq> c) s, Some rest))"

definition cut_last :: "char \<Rightarrow> string \<Rightarrow> (string \<times> string) option" where
  "cut_last c s =
     (case cut_at c (rev s) of
        (_, None) \<Rightarrow> None
      | (a, Some b) \<Rightarrow> Some (rev b, rev a))"

fun cut_zone :: "string \<Rightarrow> (string \<times> string) option" where
  "cut_zone [] = None"
| "cut_zone (c # s) =
     (if has_prefix (c # s) ''%25'' then Some ([], c # s)
      else map_option (\<lambda>(a, b). (c # a, b)) (cut_zone s))"

definition parseHost :: "string \<Rightarrow> bool" where
  "parseHost host =
     (if has_prefix host ''[''
      then (case cut_last (CHR '']'') host of
              None \<Rightarrow> False
            | Some (inside, colonPort) \<Rightarrow>
                validOptionalPort colonPort
                \<and> (case cut_zone inside of
                     Some (h, z) \<Rightarrow> host_ok h \<and> zone_ok z \<and> host_ok ('']'' @ colonPort)
                   | None \<Rightarrow> host_ok host))
      else (case cut_last (CHR '':'') host of
              None \<Rightarrow> True
            | Some (_, port) \<Rightarrow> validOptionalPort ('':'' @ port)) \<and> host_ok host)"

definition parseAuthority :: "string \<Rightarrow> bool" where
  "parseAuthority authority =
     (case cut_last (CHR ''@'') authority of
        None \<Rightarrow> parseHost authority
      | Some (userinfo, host) \<Rightarrow>
          parseHost host \<and> validUserinfo userinfo
          \<and> (case cut_at (CHR '':'') userinfo of
               (u, None) \<Rightarrow> escapes_ok u
             | (u, Some p) \<Rightarrow> escapes_ok u \<and> escapes_ok p))"

section \<open>Parse\<close>

definition scheme_char :: "char \<Rightarrow> bool" where
  "scheme_char c \<longleftrightarrow> is_alnum c \<or> c \<in> set ''+-.''"

text \<open>\<^verbatim>\<open>getScheme\<close>: None for a missing scheme before a colon, else the scheme and the rest.\<close>

definition getScheme :: "string \<Rightarrow> (string \<times> string) option" where
  "getScheme raw =
     (let s = takeWhile scheme_char raw; rest = dropWhile scheme_char raw
      in if s \<noteq> [] \<and> \<not> (is_lower (hd s) \<or> is_upper (hd s)) then Some ([], raw)
         else if rest \<noteq> [] \<and> hd rest = CHR '':''
              then (if s = [] then None else Some (s, tl rest))
              else Some ([], raw))"

definition ctl_char :: "char \<Rightarrow> bool" where
  "ctl_char c \<longleftrightarrow> (of_char c :: nat) < 32 \<or> (of_char c :: nat) = 127"

definition parse_rest :: "string \<Rightarrow> string \<Rightarrow> bool" where
  "parse_rest scheme rest =
     (let rest = fst (cut_at (CHR ''?'') rest)
      in if \<not> has_prefix rest ''/'' \<and> scheme \<noteq> [] then True
         else if \<not> has_prefix rest ''/'' \<and> CHR '':'' \<in> set (fst (cut_at (CHR ''/'') rest)) then False
         else if (scheme \<noteq> [] \<or> \<not> has_prefix rest ''///'') \<and> has_prefix rest ''//''
              then (case cut_at (CHR ''/'') (drop 2 rest) of
                      (authority, None) \<Rightarrow> parseAuthority authority
                    | (authority, Some path) \<Rightarrow> parseAuthority authority \<and> escapes_ok path)
              else escapes_ok rest)"

text \<open>\<^verbatim>\<open>url.Parse\<close>: None for an error, else the scheme, in lower case.\<close>

definition url_Parse :: "string \<Rightarrow> string option" where
  "url_Parse rawURL =
     (case cut_at (CHR ''#'') rawURL of (u, frag) \<Rightarrow>
        if list_ex ctl_char u then None
        else if \<not> (case frag of None \<Rightarrow> True | Some f \<Rightarrow> escapes_ok f) then None
        else if u = ''*'' then Some []
        else (case getScheme u of
                None \<Rightarrow> None
              | Some (scheme, rest) \<Rightarrow>
                  if parse_rest (to_lower scheme) rest then Some (to_lower scheme) else None))"

text \<open>The check of the populators: a URL that parses and is of the web.\<close>

definition web_url :: "string \<Rightarrow> bool" where
  "web_url s \<longleftrightarrow>
     (case url_Parse s of None \<Rightarrow> False | Some scheme \<Rightarrow> scheme = ''http'' \<or> scheme = ''https'')"

end
