(* ===== verification/KServe.thy ===== *)
theory KServe
  imports Catalog GoUrl Names ConfigMapStore "HOL-Library.Monad_Syntax"
begin

text \<open>
  What the normaliser makes of a KServe inference service: \<^verbatim>\<open>pkg/cmd/cli/kserve/kserve.go\<close>.

  The Kubernetes objects are records of the fields the code reads; a nil pointer is \<^const>\<open>None\<close>.
  The controller's client is a record of the answers the cluster gives to the reads of one pass
  over the service (\<open>cluster\<close>): each read may fail.  A getter that can dereference a nil pointer
  returns an option whose \<^const>\<open>None\<close> is the panic.  The getters of the Go type \<^verbatim>\<open>T\<close> have names
  that start with \<open>ks_\<close> and a short form of \<^verbatim>\<open>T\<close>.
\<close>

section \<open>Kubernetes objects\<close>

record OwnerReference =
  or_Kind :: string
  or_Name :: string

record ServiceAccount =
  sa_Name :: string
  sa_OwnerReferences :: "OwnerReference list"

datatype IntOrString = IntVal int | StrVal string

record ServicePort =
  sp_Port :: int
  sp_TargetPort :: IntOrString

record Service =
  svc_Name :: string
  svc_Namespace :: string
  svc_OwnerReferences :: "OwnerReference list"
  svc_Ports :: "ServicePort list"

record ModelSpec =
  mo_FormatName :: string
  mo_FormatVersion :: "string option"
  mo_StorageURI :: "string option"
  mo_Storage :: "string option option"

text \<open>A framework's field is only ever compared with nil; \<open>mo_Storage\<close> is the path in the storage.\<close>

record PredictorSpec =
  pr_SKLearn :: bool
  pr_XGBoost :: bool
  pr_Tensorflow :: bool
  pr_PyTorch :: bool
  pr_Triton :: bool
  pr_ONNX :: bool
  pr_HuggingFace :: bool
  pr_PMML :: bool
  pr_LightGBM :: bool
  pr_Paddle :: bool
  pr_Model :: "ModelSpec option"

record ComponentStatusSpec =
  co_URL :: "string option"
  co_RestURL :: "string option"
  co_GrpcURL :: "string option"

record InferenceService =
  is_Namespace :: string
  is_Name :: string
  is_Labels :: "string go_map option"
  is_Annotations :: "string go_map option"
  is_Predictor :: PredictorSpec
  is_Explainer :: "string option option"
  is_URL :: "string option"
  is_Components :: "ComponentStatusSpec go_map"
  is_Conditions :: "(string \<times> string) list"
  is_TransitionStatus :: string

text \<open>
  The cluster as one pass of the controller sees it: \<open>cl_Get\<close> by namespace and name, \<open>cl_List\<close>
  by label selector (the empty selector lists everything), the service accounts and services of a
  namespace.
\<close>

record cluster =
  cl_Get :: "string \<Rightarrow> string \<Rightarrow> k8s_error + InferenceService"
  cl_List :: "string go_map \<Rightarrow> string + InferenceService list"
  cl_ServiceAccounts :: "string \<Rightarrow> string + ServiceAccount list"
  cl_Services :: "string \<Rightarrow> string + Service list"

section \<open>Property keys\<close>

definition EthicsKey :: string where "EthicsKey = ''Ethics''"
definition HowToUseKey :: string where "HowToUseKey = ''How to use''"
definition SupportKey :: string where "SupportKey = ''Support''"
definition TrainingKey :: string where "TrainingKey = ''Training''"
definition UsageKey :: string where "UsageKey = ''Usage''"
definition HomepageURLKey :: string where "HomepageURLKey = ''Homepage URL''"
definition APISpecKey :: string where "APISpecKey = ''API Spec''"
definition APITypeKey :: string where "APITypeKey = ''API Type''"
definition OwnerKey :: string where "OwnerKey = ''Owner''"
definition LifecycleKey :: string where "LifecycleKey = ''Lifecycle''"
definition TechDocsKey :: string where "TechDocsKey = ''TechDocs''"
definition LicenseKey :: string where "LicenseKey = ''License''"
definition Granite318bLabName :: string where "Granite318bLabName = ''granite-31-8b-lab''"
definition Granite318bLabTechDocs :: string where
  "Granite318bLabTechDocs = ''https://github.com/redhat-ai-dev/granite-3.1-8b-lab-docs/tree/main''"
definition AnnotationPrefix :: string where "AnnotationPrefix = ''modelcatalogbridge.rhdh.io/''"
definition DescriptionKey :: string where "DescriptionKey = ''description''"

section \<open>CommonPopulator\<close>

record KServePop =
  kp_Owner :: string
  kp_Lifecycle :: string
  kp_InferSvc :: "InferenceService option"
  kp_CtrlClient :: "cluster option"

definition ks_entity_name :: "InferenceService \<Rightarrow> string" where
  "ks_entity_name is = is_Namespace is @ ''_'' @ is_Name is"

definition ks_Common_GetOwner :: "KServePop \<Rightarrow> string" where
  "ks_Common_GetOwner pop = kp_Owner pop"

definition ks_Common_GetLifecycle :: "KServePop \<Rightarrow> string" where
  "ks_Common_GetLifecycle pop = kp_Lifecycle pop"

definition ks_Common_GetName :: "KServePop \<Rightarrow> string" where
  "ks_Common_GetName pop = (case kp_InferSvc pop of None \<Rightarrow> '''' | Some is \<Rightarrow> ks_entity_name is)"

definition ks_Common_GetDescription :: "KServePop \<Rightarrow> string option" where
  "ks_Common_GetDescription pop =
     map_option (\<lambda>is. ''KServe instance '' @ is_Namespace is @ '':'' @ is_Name is) (kp_InferSvc pop)"

definition website :: "string \<Rightarrow> string \<Rightarrow> EntityLink" where
  "website title url =
     \<lparr>el_URL = url, el_Title = title, el_Icon = LINK_ICON_WEBASSET, el_Type = LINK_TYPE_WEBSITE\<rparr>"

definition component_links :: "string \<times> ComponentStatusSpec \<Rightarrow> EntityLink list" where
  "component_links c = (case c of (componentType, componentStatus) \<Rightarrow>
     (case co_URL componentStatus of
        None \<Rightarrow> []
      | Some u \<Rightarrow> [website (componentType @ '' FastAPI URL'') (u @ ''/docs''),
                   website (componentType @ '' model serving URL'') u])
     @ (case co_RestURL componentStatus of
          None \<Rightarrow> [] | Some u \<Rightarrow> [website (componentType @ '' REST model serving URL'') u])
     @ (case co_GrpcURL componentStatus of
          None \<Rightarrow> [] | Some u \<Rightarrow> [website (componentType @ '' GRPC model serving URL'') u]))"

definition ks_Common_GetLinks :: "KServePop \<Rightarrow> EntityLink list" where
  "ks_Common_GetLinks pop =
     (case kp_InferSvc pop of
        None \<Rightarrow> []
      | Some is \<Rightarrow>
          (case is_URL is of None \<Rightarrow> [] | Some u \<Rightarrow> [website LINK_API_URL u])
          @ concat (map component_links (is_Components is)))"

text \<open>
  The tags of the predictor.  The cases of the switch fall through, so the first framework that is
  set brings the names of all frameworks after it, and ends in the case that reads \<^verbatim>\<open>predictor.Model\<close>.
\<close>

definition frameworks :: "PredictorSpec \<Rightarrow> (bool \<times> string) list" where
  "frameworks p =
     [(pr_SKLearn p, ''sklearn''), (pr_XGBoost p, ''xgboost''), (pr_Tensorflow p, ''tensorflow''),
      (pr_PyTorch p, ''pytorch''), (pr_Triton p, ''triton''), (pr_ONNX p, ''onnx''),
      (pr_HuggingFace p, ''huggingface''), (pr_PMML p, ''pmml''), (pr_LightGBM p, ''lightgbm''),
      (pr_Paddle p, ''paddle'')]"

definition model_tag :: "ModelSpec \<Rightarrow> string" where
  "model_tag m = to_lower (mo_FormatName m
     @ (case mo_FormatVersion m of None \<Rightarrow> [] | Some v \<Rightarrow> ''-'' @ v))"

definition predictor_tags :: "PredictorSpec \<Rightarrow> string list option" where
  "predictor_tags p =
     (case dropWhile (\<lambda>f. \<not> fst f) (frameworks p) of
        [] \<Rightarrow> Some (case pr_Model p of None \<Rightarrow> [] | Some m \<Rightarrow> [model_tag m])
      | fs \<Rightarrow> map_option (\<lambda>m. map snd fs @ [model_tag m]) (pr_Model p))"

definition explainer_tags :: "InferenceService \<Rightarrow> string list" where
  "explainer_tags is = (case is_Explainer is of Some (Some t) \<Rightarrow> [to_lower t] | _ \<Rightarrow> [])"

definition ks_Common_GetTags :: "KServePop \<Rightarrow> string list option" where
  "ks_Common_GetTags pop =
     (case kp_InferSvc pop of
        None \<Rightarrow> Some []
      | Some is \<Rightarrow> do { tags \<leftarrow> predictor_tags (is_Predictor is); Some (tags @ explainer_tags is) })"

definition ks_Common_GetProvidedAPIs :: "KServePop \<Rightarrow> string list" where
  "ks_Common_GetProvidedAPIs pop =
     (case kp_InferSvc pop of None \<Rightarrow> [] | Some is \<Rightarrow> [ks_entity_name is])"

section \<open>Catalog entities\<close>

definition ks_Component_GetDependsOn :: "KServePop \<Rightarrow> string list option" where
  "ks_Component_GetDependsOn pop =
     map_option (\<lambda>is. [''resource:'' @ ks_entity_name is, ''api:'' @ ks_entity_name is]) (kp_InferSvc pop)"

definition ks_Resource_GetDependencyOf :: "KServePop \<Rightarrow> string list option" where
  "ks_Resource_GetDependencyOf pop =
     map_option (\<lambda>is. [''component:'' @ ks_entity_name is]) (kp_InferSvc pop)"

definition ks_Api_GetDependencyOf :: "KServePop \<Rightarrow> string list" where
  "ks_Api_GetDependencyOf pop =
     (case kp_InferSvc pop of None \<Rightarrow> [] | Some is \<Rightarrow> [''component:'' @ ks_entity_name is])"

text \<open>
  \<open>get\<close> is what the inference service answers to a request, \<open>indent\<close> the text \<^verbatim>\<open>json.Indent\<close>
  leaves of a body; an error of the fetch is ignored and leaves the empty body.
\<close>

definition FetchURL :: "(http_request \<Rightarrow> string + http_response) \<Rightarrow> string \<Rightarrow> string + payload" where
  "FetchURL get url =
     (case get \<lparr>rq_method = GET, rq_url = url, rq_query = [], rq_token = '''', rq_body = NoPayload\<rparr> of
        Inl err \<Rightarrow> Inl err
      | Inr resp \<Rightarrow>
          if rs_status resp \<noteq> 200 then Inl (''url '' @ url @ '' got rc: '' @ show_nat (rs_status resp))
          else Inr (rs_body resp))"

definition ks_Api_GetDefinition ::
    "(http_request \<Rightarrow> string + http_response) \<Rightarrow> (payload \<Rightarrow> string) \<Rightarrow> KServePop \<Rightarrow> string option" where
  "ks_Api_GetDefinition get indent pop =
     map_option (\<lambda>is. case is_URL is of
         None \<Rightarrow> ''''
       | Some u \<Rightarrow> indent (case FetchURL get (u @ ''/openapi.json'') of Inl err \<Rightarrow> NoPayload | Inr defBytes \<Rightarrow> defBytes))
       (kp_InferSvc pop)"

definition ks_component :: "KServePop \<Rightarrow> ComponentPop option" where
  "ks_component pop = do {
     description \<leftarrow> ks_Common_GetDescription pop;
     tags \<leftarrow> ks_Common_GetTags pop;
     dependsOn \<leftarrow> ks_Component_GetDependsOn pop;
     Some \<lparr>pop_Owner = ks_Common_GetOwner pop, pop_Lifecycle = ks_Common_GetLifecycle pop,
       pop_Name = ks_Common_GetName pop, pop_Description = description,
       pop_Links = ks_Common_GetLinks pop, pop_Tags = tags,
       pop_ProvidedAPIs = ks_Common_GetProvidedAPIs pop, pop_TechdocRef = ''./'',
       pop_DisplayName = ks_Common_GetName pop, pop_DependsOn = dependsOn\<rparr> }"

definition ks_resource :: "KServePop \<Rightarrow> ResourcePop option" where
  "ks_resource pop = do {
     description \<leftarrow> ks_Common_GetDescription pop;
     tags \<leftarrow> ks_Common_GetTags pop;
     dependencyOf \<leftarrow> ks_Resource_GetDependencyOf pop;
     Some \<lparr>pop_Owner = ks_Common_GetOwner pop, pop_Lifecycle = ks_Common_GetLifecycle pop,
       pop_Name = ks_Common_GetName pop, pop_Description = description,
       pop_Links = ks_Common_GetLinks pop, pop_Tags = tags,
       pop_ProvidedAPIs = ks_Common_GetProvidedAPIs pop, pop_TechdocRef = ''resource/'',
       pop_DisplayName = ks_Common_GetName pop, pop_DependencyOf = dependencyOf\<rparr> }"

definition ks_api :: "(http_request \<Rightarrow> string + http_response) \<Rightarrow> (payload \<Rightarrow> string) \<Rightarrow> KServePop \<Rightarrow> APIPop option" where
  "ks_api get indent pop = do {
     description \<leftarrow> ks_Common_GetDescription pop;
     tags \<leftarrow> ks_Common_GetTags pop;
     def \<leftarrow> ks_Api_GetDefinition get indent pop;
     Some \<lparr>pop_Owner = ks_Common_GetOwner pop, pop_Lifecycle = ks_Common_GetLifecycle pop,
       pop_Name = ks_Common_GetName pop, pop_Description = description,
       pop_Links = ks_Common_GetLinks pop, pop_Tags = tags,
       pop_ProvidedAPIs = ks_Common_GetProvidedAPIs pop, pop_TechdocRef = ''api/'',
       pop_DisplayName = ks_Common_GetName pop, pop_Definition = def,
       pop_ApiDependencyOf = ks_Api_GetDependencyOf pop\<rparr> }"

section \<open>Annotations\<close>

definition fixKeyForAnnotation :: "string \<Rightarrow> string" where
  "fixKeyForAnnotation key = remove_char (CHR '' '') (to_lower key)"

definition ks_commonGetStringPropVal :: "string \<Rightarrow> InferenceService option \<Rightarrow> string option" where
  "ks_commonGetStringPropVal key isv =
     (case isv of
        None \<Rightarrow> None
      | Some is \<Rightarrow>
          (case is_Annotations is of
             None \<Rightarrow> None
           | Some annotations \<Rightarrow> map_of annotations (AnnotationPrefix @ fixKeyForAnnotation key)))"

definition ks_prop :: "KServePop \<Rightarrow> string \<Rightarrow> string option" where
  "ks_prop m key = ks_commonGetStringPropVal key (kp_InferSvc m)"

section \<open>The model server\<close>

definition owned_by :: "string \<Rightarrow> OwnerReference list \<Rightarrow> bool" where
  "owned_by name refs = list_ex (\<lambda>r. or_Kind r = ''InferenceService'' \<and> or_Name r = name) refs"

text \<open>A service account that the inference service owns; an unreadable list counts as none.\<close>

definition has_service_account :: "cluster \<Rightarrow> InferenceService \<Rightarrow> bool" where
  "has_service_account c is =
     (case cl_ServiceAccounts c (is_Namespace is) of
        Inl err \<Rightarrow> False
      | Inr sas \<Rightarrow> list_ex (\<lambda>sa. owned_by (is_Name is) (sa_OwnerReferences sa)) sas)"

definition ks_Server_GetAuthentication :: "KServePop \<Rightarrow> bool option" where
  "ks_Server_GetAuthentication m = do {
     is \<leftarrow> kp_InferSvc m;
     c \<leftarrow> kp_CtrlClient m;
     Some (has_service_account c is) }"

definition ks_schema_name :: "InferenceService \<Rightarrow> string" where
  "ks_schema_name is =
     SanitizeName (SanitizeName (is_Namespace is) @ ''-'' @ SanitizeName (is_Name is))"

definition ks_Server_GetName :: "KServePop \<Rightarrow> string option" where
  "ks_Server_GetName m = map_option ks_schema_name (kp_InferSvc m)"

definition label_tags :: "InferenceService \<Rightarrow> string list" where
  "label_tags is =
     map (\<lambda>(k, v). SanitizeName (SanitizeName k @ ''-'' @ SanitizeName v))
       (case is_Labels is of None \<Rightarrow> [] | Some ls \<Rightarrow> ls)"

definition ks_Server_GetTags :: "KServePop \<Rightarrow> string list option" where
  "ks_Server_GetTags m = map_option label_tags (kp_InferSvc m)"

definition ks_Server_GetOwner :: "KServePop \<Rightarrow> string" where
  "ks_Server_GetOwner m =
     (case ks_prop m OwnerKey of Some owner \<Rightarrow> SanitizeName owner | None \<Rightarrow> kp_Owner m)"

definition ks_Server_GetLifecycle :: "KServePop \<Rightarrow> string" where
  "ks_Server_GetLifecycle m =
     (case ks_prop m LifecycleKey of Some lifecycle \<Rightarrow> lifecycle | None \<Rightarrow> kp_Lifecycle m)"

definition ks_Server_GetDescription :: "KServePop \<Rightarrow> string" where
  "ks_Server_GetDescription m = (case ks_prop m DescriptionKey of Some d \<Rightarrow> d | None \<Rightarrow> '''')"

definition ks_Server_GetUsage :: "KServePop \<Rightarrow> string option" where
  "ks_Server_GetUsage m = ks_prop m UsageKey"

definition ks_Server_GetHomepageURL :: "KServePop \<Rightarrow> string option" where
  "ks_Server_GetHomepageURL m = ks_prop m HomepageURLKey"

section \<open>The model server's API\<close>

definition ks_API_GetSpec :: "KServePop \<Rightarrow> string" where
  "ks_API_GetSpec m = (case ks_prop m APISpecKey of None \<Rightarrow> ''TBD'' | Some ret \<Rightarrow> ret)"

definition ks_API_GetTags :: "KServePop \<Rightarrow> string list option" where
  "ks_API_GetTags m = map_option label_tags (kp_InferSvc m)"

definition ks_API_GetType :: "KServePop \<Rightarrow> ApiType" where
  "ks_API_GetType m =
     (case ks_prop m APITypeKey of
        None \<Rightarrow> Openapi
      | Some t \<Rightarrow>
          if t = Graphql then Graphql
          else if t = Asyncapi then Asyncapi
          else if t = Grpc then Grpc
          else Openapi)"

text \<open>The port of the first entry: the target port if it is a number, else the service port.\<close>

definition service_port :: "Service \<Rightarrow> int" where
  "service_port svc =
     (case svc_Ports svc of
        [] \<Rightarrow> 0
      | sp # _ \<Rightarrow> (case sp_TargetPort sp of IntVal v \<Rightarrow> v | StrVal _ \<Rightarrow> sp_Port sp))"

definition service_url :: "Service \<Rightarrow> string" where
  "service_url svc =
     (let port = service_port svc;
          portStr = (if port \<noteq> 0 \<and> port \<noteq> 80 then '':'' @ show_int port else '''')
      in ''http://'' @ svc_Name svc @ ''.'' @ svc_Namespace svc @ ''.svc.cluster.local'' @ portStr)"

definition is_predictor_of :: "InferenceService \<Rightarrow> Service \<Rightarrow> bool" where
  "is_predictor_of is svc \<longleftrightarrow>
     owned_by (is_Name is) (svc_OwnerReferences svc) \<and> has_suffix (svc_Name svc) ''-predictor''"

definition predictor_url :: "cluster \<Rightarrow> InferenceService \<Rightarrow> string" where
  "predictor_url c is =
     (case cl_Services c (is_Namespace is) of
        Inl err \<Rightarrow> ''''
      | Inr svcs \<Rightarrow>
          (case find (is_predictor_of is) svcs of None \<Rightarrow> '''' | Some svc \<Rightarrow> service_url svc))"

definition ks_API_getFullSvcURL :: "KServePop \<Rightarrow> string option" where
  "ks_API_getFullSvcURL m = do {
     is \<leftarrow> kp_InferSvc m;
     c \<leftarrow> kp_CtrlClient m;
     Some (predictor_url c is) }"

text \<open>The external and the internal address; only the internal one when no route is exposed.\<close>

definition ks_API_GetURL :: "KServePop \<Rightarrow> (string \<times> string) option" where
  "ks_API_GetURL m = do {
     is \<leftarrow> kp_InferSvc m;
     (case is_URL is of
        None \<Rightarrow> Some ('''', '''')
      | Some kisUrl \<Rightarrow> do {
          svcURL \<leftarrow> ks_API_getFullSvcURL m;
          Some (if contains kisUrl ''svc.cluster.local'' then (svcURL, svcURL) else (kisUrl, svcURL)) }) }"

definition url_annotations :: "string \<Rightarrow> string \<Rightarrow> string go_map" where
  "url_annotations routeExternalURL svcInternalURL =
     (if length svcInternalURL > 0 then [(INTERNAL_SVC_URL, svcInternalURL)] else [])
     @ (if routeExternalURL \<noteq> svcInternalURL \<and> length routeExternalURL > 0
        then [(EXTERNAL_ROUTE_URL, routeExternalURL)] else [])"

definition ks_Server_GetAPI :: "KServePop \<Rightarrow> API option" where
  "ks_Server_GetAPI m = do {
     (routeExternalURL, svcInternalURL) \<leftarrow> ks_API_GetURL m;
     tags \<leftarrow> ks_API_GetTags m;
     Some \<lparr>api_Annotations = url_annotations routeExternalURL svcInternalURL, api_Spec = ks_API_GetSpec m,
       api_Tags = tags, api_Type = ks_API_GetType m, api_URL = routeExternalURL\<rparr> }"

section \<open>The model\<close>

definition ks_Model_GetName :: "KServePop \<Rightarrow> string option" where
  "ks_Model_GetName m = map_option ks_schema_name (kp_InferSvc m)"

definition ks_Model_GetOwner :: "KServePop \<Rightarrow> string" where
  "ks_Model_GetOwner m =
     (case ks_prop m OwnerKey of Some owner \<Rightarrow> SanitizeName owner | None \<Rightarrow> kp_Owner m)"

definition ks_Model_GetLifecycle :: "KServePop \<Rightarrow> string" where
  "ks_Model_GetLifecycle m =
     (case ks_prop m LifecycleKey of Some lifecycle \<Rightarrow> SanitizeName lifecycle | None \<Rightarrow> kp_Lifecycle m)"

definition ks_Model_GetDescription :: "KServePop \<Rightarrow> string" where
  "ks_Model_GetDescription m = (case ks_prop m DescriptionKey of Some d \<Rightarrow> d | None \<Rightarrow> '''')"

definition ks_Model_GetTags :: "KServePop \<Rightarrow> string list option" where
  "ks_Model_GetTags m = map_option label_tags (kp_InferSvc m)"

definition ks_Model_GetArtifactLocationURL :: "KServePop \<Rightarrow> string option option" where
  "ks_Model_GetArtifactLocationURL m = do {
     is \<leftarrow> kp_InferSvc m;
     Some (case pr_Model (is_Predictor is) of
             None \<Rightarrow> None
           | Some model \<Rightarrow>
               (case mo_StorageURI model of
                  Some uri \<Rightarrow> Some uri
                | None \<Rightarrow> (case mo_Storage model of
                             Some (Some path) \<Rightarrow> Some (''s3://'' @ path)
                           | _ \<Rightarrow> None))) }"

definition ks_Model_GetEthics :: "KServePop \<Rightarrow> string option" where
  "ks_Model_GetEthics m = ks_prop m EthicsKey"
definition ks_Model_GetHowToUseURL :: "KServePop \<Rightarrow> string option" where
  "ks_Model_GetHowToUseURL m = ks_prop m HowToUseKey"
definition ks_Model_GetSupport :: "KServePop \<Rightarrow> string option" where
  "ks_Model_GetSupport m = ks_prop m SupportKey"
definition ks_Model_GetTraining :: "KServePop \<Rightarrow> string option" where
  "ks_Model_GetTraining m = ks_prop m TrainingKey"
definition ks_Model_GetUsage :: "KServePop \<Rightarrow> string option" where
  "ks_Model_GetUsage m = ks_prop m UsageKey"
definition ks_Model_GetLicense :: "KServePop \<Rightarrow> string option" where
  "ks_Model_GetLicense m = ks_prop m LicenseKey"

definition ks_Model_GetTechDocs :: "KServePop \<Rightarrow> string option option" where
  "ks_Model_GetTechDocs m =
     (case ks_prop m TechDocsKey of
        None \<Rightarrow> do {
          name \<leftarrow> ks_Model_GetName m;
          Some (if contains name Granite318bLabName then Some Granite318bLabTechDocs else None) }
      | Some techdocsUrl \<Rightarrow> Some (if web_url techdocsUrl then Some techdocsUrl else None))"

section \<open>The document\<close>

definition ks_model_annotations :: "InferenceService \<Rightarrow> string option \<Rightarrow> string go_map" where
  "ks_model_annotations is techDocsUrl =
     (let modelNameAlreadySet =
            (case is_Annotations is of
               None \<Rightarrow> ''''
             | Some a \<Rightarrow> (case map_of a MODEL_NAME of None \<Rightarrow> '''' | Some n \<Rightarrow> n));
          modelNameAlreadySet = trim_space modelNameAlreadySet;
          name = (if length modelNameAlreadySet = 0 then is_Name is else modelNameAlreadySet)
      in (MODEL_NAME, name)
         # (case techDocsUrl of Some u \<Rightarrow> if u \<noteq> '''' then [(TechDocsKey, u)] else [] | None \<Rightarrow> []))"

definition ks_GetModels :: "KServePop \<Rightarrow> Model list option" where
  "ks_GetModels m = do {
     is \<leftarrow> kp_InferSvc m;
     location \<leftarrow> ks_Model_GetArtifactLocationURL m;
     name \<leftarrow> ks_Model_GetName m;
     tags \<leftarrow> ks_Model_GetTags m;
     techDocs \<leftarrow> ks_Model_GetTechDocs m;
     Some [\<lparr>md_Annotations = ks_model_annotations is techDocs, md_ArtifactLocationURL = location,
       md_Description = ks_Model_GetDescription m, md_Ethics = ks_Model_GetEthics m,
       md_HowToUseURL = ks_Model_GetHowToUseURL m, md_License = ks_Model_GetLicense m,
       md_Lifecycle = ks_Model_GetLifecycle m, md_Name = name, md_Owner = ks_Model_GetOwner m,
       md_Support = ks_Model_GetSupport m, md_Tags = tags, md_Training = ks_Model_GetTraining m,
       md_Usage = ks_Model_GetUsage m\<rparr>] }"

definition ks_GetModelServer :: "KServePop \<Rightarrow> ModelServer option" where
  "ks_GetModelServer m = do {
     api \<leftarrow> ks_Server_GetAPI m;
     auth \<leftarrow> ks_Server_GetAuthentication m;
     name \<leftarrow> ks_Server_GetName m;
     tags \<leftarrow> ks_Server_GetTags m;
     Some \<lparr>ms_Annotations = [], ms_API = Some api, ms_Authentication = Some auth,
       ms_Description = ks_Server_GetDescription m, ms_HomepageURL = ks_Server_GetHomepageURL m,
       ms_Lifecycle = ks_Server_GetLifecycle m, ms_Name = name, ms_Owner = ks_Server_GetOwner m,
       ms_Tags = tags, ms_Usage = ks_Server_GetUsage m\<rparr> }"

text \<open>
  The writer is the documents written so far.  The case of \<^const>\<open>CatalogInfoYamlFormat\<close> is empty,
  and Go's cases do not fall through by themselves.
\<close>

definition ks_CallBackstagePrinters ::
    "(http_request \<Rightarrow> string + http_response) \<Rightarrow> (payload \<Rightarrow> string) \<Rightarrow> string \<Rightarrow> string
      \<Rightarrow> InferenceService \<Rightarrow> cluster \<Rightarrow> catalog_doc list
      \<Rightarrow> NormalizerFormat \<Rightarrow> catalog_doc list option" where
  "ks_CallBackstagePrinters get indent owner lifecycle is client writer format =
     (let pop = \<lparr>kp_Owner = owner, kp_Lifecycle = lifecycle, kp_InferSvc = Some is, kp_CtrlClient = Some client\<rparr>
      in if format = JsonArrayForamt then do {
           models \<leftarrow> ks_GetModels pop;
           server \<leftarrow> ks_GetModelServer pop;
           Some (PrintModelCatalogPopulator models (Some server) writer) }
         else if format = CatalogInfoYamlFormat then Some writer
         else do {
           comp \<leftarrow> ks_component pop;
           let writer = PrintComponent comp writer;
           res \<leftarrow> ks_resource pop;
           let writer = PrintResource res writer;
           api \<leftarrow> ks_api get indent pop;
           Some (PrintAPI api writer) })"

section \<open>Properties\<close>

lemma frameworks_not_Nil [simp]: "frameworks p \<noteq> []"
  by (simp add: frameworks_def)

lemma label_tags_ok: "list_all name_ok (label_tags is)"
  by (auto simp: label_tags_def list_all_iff SanitizeName_name_ok split: option.splits)

definition ks_endpoint :: "cluster \<Rightarrow> InferenceService \<Rightarrow> string" where
  "ks_endpoint c is =
     (case is_URL is of
        None \<Rightarrow> ''''
      | Some u \<Rightarrow> if contains u ''svc.cluster.local'' then predictor_url c is else u)"

lemma ks_Server_GetAPI_url:
  "ks_Server_GetAPI \<lparr>kp_Owner = own, kp_Lifecycle = lc, kp_InferSvc = Some is, kp_CtrlClient = Some c\<rparr> = Some a
   \<Longrightarrow> api_URL a = ks_endpoint c is"
  by (auto simp: ks_Server_GetAPI_def ks_API_GetURL_def ks_API_getFullSvcURL_def ks_API_GetTags_def
      ks_endpoint_def split: option.splits if_splits)

lemma ks_Server_GetAPI_Some:
  "\<exists>a. ks_Server_GetAPI \<lparr>kp_Owner = own, kp_Lifecycle = lc, kp_InferSvc = Some is, kp_CtrlClient = Some c\<rparr> = Some a"
  by (auto simp: ks_Server_GetAPI_def ks_API_GetURL_def ks_API_getFullSvcURL_def ks_API_GetTags_def
      split: option.splits)

lemma ks_GetModels_Some:
  "\<exists>md. ks_GetModels \<lparr>kp_Owner = own, kp_Lifecycle = lc, kp_InferSvc = Some is, kp_CtrlClient = Some c\<rparr> = Some [md]
     \<and> md_Name md = ks_schema_name is \<and> md_Tags md = label_tags is"
  by (auto simp: ks_GetModels_def ks_Model_GetArtifactLocationURL_def ks_Model_GetName_def
      ks_Model_GetTags_def ks_Model_GetTechDocs_def split: option.splits)

lemma ks_GetModelServer_Some:
  "\<exists>s a. ks_GetModelServer \<lparr>kp_Owner = own, kp_Lifecycle = lc, kp_InferSvc = Some is, kp_CtrlClient = Some c\<rparr> = Some s
     \<and> ms_API s = Some a \<and> api_URL a = ks_endpoint c is \<and> ms_Name s = ks_schema_name is
     \<and> ms_Tags s = label_tags is \<and> ms_Authentication s = Some (has_service_account c is)"
proof -
  obtain a where "ks_Server_GetAPI \<lparr>kp_Owner = own, kp_Lifecycle = lc, kp_InferSvc = Some is, kp_CtrlClient = Some c\<rparr> = Some a"
    using ks_Server_GetAPI_Some by blast
  with ks_Server_GetAPI_url [OF this] show ?thesis
    by (simp add: ks_GetModelServer_def ks_Server_GetAuthentication_def ks_Server_GetName_def ks_Server_GetTags_def)
qed

text \<open>
  A valid entity name is a valid tag of Backstage exactly if it is not empty and has neither an
  upper-case letter nor an underscore.
\<close>

lemma list_all_hd_tl: "xs \<noteq> [] \<Longrightarrow> list_all P xs \<longleftrightarrow> P (hd xs) \<and> list_all P (tl xs)"
  by (cases xs) simp_all

lemma go_split_groups:
  "list_all (list_all P) (go_split c s) \<longleftrightarrow> list_all (\<lambda>x. x = c \<or> P x) s"
proof (induction s)
  case (Cons x xs)
  then show ?case by (auto simp: list_all_hd_tl [of "go_split c xs"])
qed simp

lemma go_split_dash_groups:
  "specials_apart s \<Longrightarrow> s \<noteq> [] \<Longrightarrow> last s \<noteq> CHR ''-'' \<Longrightarrow>
   list_all (\<lambda>g. g \<noteq> []) (tl (go_split (CHR ''-'') s)) \<and> (hd (go_split (CHR ''-'') s) = [] \<longleftrightarrow> hd s = CHR ''-'')"
proof (induction s)
  case (Cons x xs)
  show ?case
  proof (cases xs)
    case (Cons y ys)
    have "x = CHR ''-'' \<Longrightarrow> y \<noteq> CHR ''-''"
      using Cons.prems(1) \<open>xs = y # ys\<close> by (auto simp: special_char_def)
    moreover have "list_all (\<lambda>g. g \<noteq> []) (go_split (CHR ''-'') xs)
        \<longleftrightarrow> hd (go_split (CHR ''-'') xs) \<noteq> [] \<and> list_all (\<lambda>g. g \<noteq> []) (tl (go_split (CHR ''-'') xs))"
      by (simp add: list_all_hd_tl [of "go_split (CHR ''-'') xs"])
    ultimately show ?thesis
      using Cons.IH Cons.prems \<open>xs = y # ys\<close> by (auto split: if_splits)
  qed (use Cons.prems in simp)
qed simp

lemma tag_char_name: "name_char c \<Longrightarrow> (c = CHR ''-'' \<or> tag_char c) \<longleftrightarrow> \<not> is_upper c \<and> c \<noteq> CHR ''_''"
  by (auto simp: name_char_def tag_char_def is_alnum_def is_upper_def is_lower_def is_digit_def less_eq_char_def)

lemma name_ok_tag_match:
  assumes "name_ok s"
  shows "tag_match s \<longleftrightarrow> s \<noteq> [] \<and> list_all (\<lambda>c. \<not> is_upper c \<and> c \<noteq> CHR ''_'') s"
proof (cases "s = []")
  case True
  then show ?thesis by (simp add: tag_match_def)
next
  case False
  have dash: "\<not> is_alnum (CHR ''-'')"
    by (simp add: is_alnum_def is_upper_def is_lower_def is_digit_def less_eq_char_simp)
  from assms False have "specials_apart s" "hd s \<noteq> CHR ''-''" "last s \<noteq> CHR ''-''" "list_all name_char s"
    using dash by (auto simp: name_ok_def)
  with go_split_dash_groups [of s] False have "list_all (\<lambda>g. g \<noteq> []) (go_split (CHR ''-'') s)"
    by (simp add: list_all_hd_tl [of "go_split (CHR ''-'') s"])
  then have "tag_match s \<longleftrightarrow> list_all (list_all tag_char) (go_split (CHR ''-'') s)"
    by (auto simp: tag_match_def list_all_iff)
  also have "\<dots> \<longleftrightarrow> list_all (\<lambda>c. \<not> is_upper c \<and> c \<noteq> CHR ''_'') s"
    unfolding go_split_groups
    by (rule list.pred_cong [OF refl]) (use \<open>list_all name_char s\<close> tag_char_name in \<open>auto simp: list_all_iff\<close>)
  finally show ?thesis using False by simp
qed

lemma SanitizeName_alnum: "filter is_alnum (SanitizeName s) = [] \<longleftrightarrow> filter is_alnum s = []"
proof -
  have "filter is_alnum (SanitizeName s) = [] \<longleftrightarrow> SanitizeName s = []"
    using SanitizeName_name_ok [of s] by (cases "SanitizeName s") (auto simp: name_ok_def)
  then show ?thesis by (simp add: SanitizeName_Nil_iff)
qed

lemma ks_schema_name_Nil: "ks_schema_name is = [] \<longleftrightarrow> filter is_alnum (is_Namespace is @ is_Name is) = []"
proof -
  have "\<not> is_alnum (CHR ''-'')"
    by (simp add: is_alnum_def is_upper_def is_lower_def is_digit_def less_eq_char_simp)
  then show ?thesis by (simp add: ks_schema_name_def SanitizeName_Nil_iff SanitizeName_alnum)
qed

lemma schema_name_ok: "name_ok (ks_schema_name is)"
  by (simp add: ks_schema_name_def SanitizeName_name_ok)

text \<open>
  C27. In the JSON format the document of an inference service has exactly one model.  Its name is the
  sanitised namespace and name, a valid entity name, empty only if neither has a letter or a digit;
  its tags are the sanitised labels, at most 63 bytes each.  That makes them tags Backstage accepts
  exactly if they are not empty and have neither upper-case letters nor underscores, which nothing
  here sees to: the label \<open>app=My_App\<close> gives a tag Backstage rejects.  The model server is left out
  exactly if there is no endpoint (no URL, or a cluster-local one without a predictor service), and
  otherwise bears the same name and tags, that endpoint, and says whether a service account protects it.
\<close>

theorem kserve_json_document:
  "(\<exists>md ms. ks_CallBackstagePrinters get indent own lc is c writer JsonArrayForamt
       = Some (writer @ [JsonDoc (marshal_ModelCatalog \<lparr>mcat_Models = [md], mcat_ModelServer = ms\<rparr>)])
     \<and> md_Name md = SanitizeName (SanitizeName (is_Namespace is) @ ''-'' @ SanitizeName (is_Name is))
     \<and> name_ok (md_Name md) \<and> (md_Name md = [] \<longleftrightarrow> filter is_alnum (is_Namespace is @ is_Name is) = [])
     \<and> md_Tags md = label_tags is \<and> list_all name_ok (md_Tags md)
     \<and> filter tag_match (md_Tags md)
       = filter (\<lambda>t. t \<noteq> [] \<and> list_all (\<lambda>c. \<not> is_upper c \<and> c \<noteq> CHR ''_'') t) (md_Tags md)
     \<and> (case ms of
          None \<Rightarrow> ks_endpoint c is = ''''
        | Some s \<Rightarrow> ks_endpoint c is \<noteq> '''' \<and> map_option api_URL (ms_API s) = Some (ks_endpoint c is)
            \<and> ms_Name s = md_Name md \<and> ms_Tags s = md_Tags md
            \<and> ms_Authentication s = Some (has_service_account c is)))
   \<and> label_tags (is\<lparr>is_Labels := Some [(''app'', ''My_App'')]\<rparr>) = [''app-My_App'']
   \<and> name_ok ''app-My_App'' \<and> \<not> tag_match ''app-My_App''"
  (is "(\<exists>md ms. ?doc md ms) \<and> _")
proof -
  let ?pop = "\<lparr>kp_Owner = own, kp_Lifecycle = lc, kp_InferSvc = Some is, kp_CtrlClient = Some c\<rparr>"
  obtain md where md: "ks_GetModels ?pop = Some [md]" "md_Name md = ks_schema_name is" "md_Tags md = label_tags is"
    using ks_GetModels_Some by blast
  obtain s a where s: "ks_GetModelServer ?pop = Some s" "ms_API s = Some a" "api_URL a = ks_endpoint c is"
      "ms_Name s = ks_schema_name is" "ms_Tags s = label_tags is"
      "ms_Authentication s = Some (has_service_account c is)"
    using ks_GetModelServer_Some by blast
  let ?ms = "if ks_endpoint c is = '''' then None else Some s"
  have "ks_CallBackstagePrinters get indent own lc is c writer JsonArrayForamt
      = Some (writer @ [JsonDoc (marshal_ModelCatalog \<lparr>mcat_Models = [md], mcat_ModelServer = ?ms\<rparr>)])"
    by (simp add: ks_CallBackstagePrinters_def md(1) s(1,2,3) PrintModelCatalogPopulator_def print_catalog_def)
  moreover have "filter tag_match (label_tags is)
      = filter (\<lambda>t. t \<noteq> [] \<and> list_all (\<lambda>c. \<not> is_upper c \<and> c \<noteq> CHR ''_'') t) (label_tags is)"
    using label_tags_ok [of "is"] by (intro filter_cong) (auto simp: list_all_iff name_ok_tag_match)
  ultimately have doc: "\<exists>md ms. ?doc md ms"
    using md(2,3) s(2-6) schema_name_ok [of "is"] ks_schema_name_Nil [of "is"]
    by (intro exI [of _ md] exI [of _ ?ms]) (simp add: label_tags_ok ks_schema_name_def)
  have "label_tags (is\<lparr>is_Labels := Some [(''app'', ''My_App'')]\<rparr>)
      = [SanitizeName (SanitizeName ''app'' @ ''-'' @ SanitizeName ''My_App'')]"
    by (simp add: label_tags_def)
  also have "\<dots> = [''app-My_App'']" by code_simp
  finally have label: "label_tags (is\<lparr>is_Labels := Some [(''app'', ''My_App'')]\<rparr>) = [''app-My_App'']" .
  have "name_ok ''app-My_App'' \<and> \<not> tag_match ''app-My_App''" by code_simp
  with doc label show ?thesis by blast
qed

text \<open>
  The tags of a predictor with a framework of its own: the first framework that is set brings
  the names of all frameworks listed after it, set or not, and reading the tags panics when
  \<^verbatim>\<open>predictor.Model\<close> is not set besides.
\<close>

theorem kserve_framework_tags:
  assumes "frameworks (is_Predictor is) = before @ (True, f) # after"
    and "\<forall>b \<in> set before. \<not> fst b"
  shows "ks_Common_GetTags (pop\<lparr>kp_InferSvc := Some is\<rparr>)
    = (case pr_Model (is_Predictor is) of
         None \<Rightarrow> None
       | Some m \<Rightarrow> Some (f # map snd after @ model_tag m # explainer_tags is))"
proof -
  have "dropWhile (\<lambda>f. \<not> fst f) (frameworks (is_Predictor is)) = (True, f) # after"
    using assms by (simp add: dropWhile_append2)
  then show ?thesis by (simp add: ks_Common_GetTags_def predictor_tags_def split: option.split)
qed

definition example_predictor :: PredictorSpec where
  "example_predictor = \<lparr>pr_SKLearn = False, pr_XGBoost = False, pr_Tensorflow = False, pr_PyTorch = False,
     pr_Triton = False, pr_ONNX = True, pr_HuggingFace = False, pr_PMML = False, pr_LightGBM = False,
     pr_Paddle = False, pr_Model = None\<rparr>"

definition example_is :: InferenceService where
  "example_is = \<lparr>is_Namespace = ''ds'', is_Name = ''mnist'', is_Labels = None, is_Annotations = None,
     is_Predictor = example_predictor, is_Explainer = None, is_URL = Some ''https://mnist.apps.io'',
     is_Components = [], is_Conditions = [(''Ready'', ''True'')], is_TransitionStatus = ''UpToDate''\<rparr>"

theorem kserve_framework_tags_witness:
  "ks_Common_GetTags \<lparr>kp_Owner = [], kp_Lifecycle = [], kp_InferSvc = Some example_is, kp_CtrlClient = None\<rparr> = None
   \<and> ks_Common_GetTags \<lparr>kp_Owner = [], kp_Lifecycle = [], kp_InferSvc = Some (example_is
        \<lparr>is_Predictor := example_predictor\<lparr>pr_Model := Some \<lparr>mo_FormatName = ''onnx'', mo_FormatVersion = Some ''1'',
           mo_StorageURI = None, mo_Storage = None\<rparr>\<rparr>\<rparr>), kp_CtrlClient = None\<rparr>
     = Some [''onnx'', ''huggingface'', ''pmml'', ''lightgbm'', ''paddle'', ''onnx-1'']"
  using kserve_framework_tags [of example_is
      "[(False, ''sklearn''), (False, ''xgboost''), (False, ''tensorflow''), (False, ''pytorch''), (False, ''triton'')]"
      "''onnx''" "[(False, ''huggingface''), (False, ''pmml''), (False, ''lightgbm''), (False, ''paddle'')]"
      "\<lparr>kp_Owner = [], kp_Lifecycle = [], kp_InferSvc = None, kp_CtrlClient = None\<rparr>"]
    kserve_framework_tags [of "example_is
        \<lparr>is_Predictor := example_predictor\<lparr>pr_Model := Some \<lparr>mo_FormatName = ''onnx'', mo_FormatVersion = Some ''1'',
           mo_StorageURI = None, mo_Storage = None\<rparr>\<rparr>\<rparr>"
      "[(False, ''sklearn''), (False, ''xgboost''), (False, ''tensorflow''), (False, ''pytorch''), (False, ''triton'')]"
      "''onnx''" "[(False, ''huggingface''), (False, ''pmml''), (False, ''lightgbm''), (False, ''paddle'')]"
      "\<lparr>kp_Owner = [], kp_Lifecycle = [], kp_InferSvc = None, kp_CtrlClient = None\<rparr>"]
  by (simp add: frameworks_def example_is_def example_predictor_def model_tag_def explainer_tags_def
      to_lower_def lower_char_def is_upper_def less_eq_char_simp)

end
