(* ===== verification/Kfmr.thy ===== *)
theory Kfmr
  imports KServe "HOL-Library.Char_ord" "HOL-Library.List_Lexorder"
begin

text \<open>
  The Kubeflow model registry: \<^verbatim>\<open>pkg/cmd/cli/kubeflowmodelregistry\<close>.  First the REST client and
  the pass over all registered models (\<open>LoopOverKFMR\<close>), then the populators that make a catalog
  document of a model version, its artifacts and the inference services that serve it.

  The registry's types are those of the package \<^verbatim>\<open>openapi\<close>, as records of the fields the code
  reads; how they are decoded from JSON belongs to that package and is the parameter \<open>J\<close>.  A
  client holds the answers the registry gives during one pass as a function of the request.
  Nil-pointer panics are \<^const>\<open>None\<close>, as in \<open>KServe\<close>; a custom property is \<^const>\<open>None\<close> unless it is a
  string.
\<close>

section \<open>Types of the registry\<close>

type_synonym MetadataValue = "string option"

definition REGISTEREDMODELSTATE_ARCHIVED :: string where "REGISTEREDMODELSTATE_ARCHIVED = ''ARCHIVED''"
definition MODELVERSIONSTATE_ARCHIVED :: string where "MODELVERSIONSTATE_ARCHIVED = ''ARCHIVED''"
definition INFERENCESERVICESTATE_DEPLOYED :: string where "INFERENCESERVICESTATE_DEPLOYED = ''DEPLOYED''"

record RegisteredModel =
  rm_Id :: "string option"
  rm_Name :: string
  rm_State :: "string option"
  rm_Owner :: "string option"
  rm_Description :: "string option"
  rm_CustomProperties :: "MetadataValue go_map option"
  rm_LastUpdateTimeSinceEpoch :: "string option"

record ModelVersion =
  mv_Id :: "string option"
  mv_Name :: string
  mv_State :: "string option"
  mv_RegisteredModelId :: string
  mv_Description :: "string option"
  mv_CustomProperties :: "MetadataValue go_map option"
  mv_LastUpdateTimeSinceEpoch :: "string option"

record ModelArtifact =
  ma_Id :: "string option"
  ma_Name :: "string option"
  ma_Description :: "string option"
  ma_Uri :: "string option"
  ma_CustomProperties :: "MetadataValue go_map option"
  ma_ModelSourceClass :: "string option"
  ma_ModelSourceGroup :: "string option"
  ma_ModelSourceName :: "string option"

record KfInferenceService =
  ki_Id :: "string option"
  ki_Name :: "string option"
  ki_ModelVersionId :: "string option"
  ki_Runtime :: "string option"
  ki_DesiredState :: "string option"
  ki_RegisteredModelId :: string
  ki_ServingEnvironmentId :: string

record ServingEnvironment =
  se_Name :: string

text \<open>The getters of an optional field: the zero value for nil.\<close>

definition gets :: "string option \<Rightarrow> string" where
  "gets v = (case v of None \<Rightarrow> '''' | Some s \<Rightarrow> s)"

definition getm :: "'v go_map option \<Rightarrow> 'v go_map" where
  "getm v = (case v of None \<Rightarrow> [] | Some m \<Rightarrow> m)"

definition slice :: "'a list option \<Rightarrow> 'a list" where
  "slice v = (case v of None \<Rightarrow> [] | Some xs \<Rightarrow> xs)"

section \<open>The REST client\<close>

definition KFMR_BASE_URI :: string where "KFMR_BASE_URI = ''/api/model_registry/v1alpha3''"
definition KRMR_CATALOG_BASE_URI :: string where "KRMR_CATALOG_BASE_URI = ''/api/model_catalog/v1alpha1''"
definition GET_REG_MODEL_URI :: "string \<Rightarrow> string" where
  "GET_REG_MODEL_URI i = ''/registered_models/'' @ i"
definition LIST_VERSIONS_OFF_REG_MODELS_URI :: "string \<Rightarrow> string" where
  "LIST_VERSIONS_OFF_REG_MODELS_URI i = ''/registered_models/'' @ i @ ''/versions''"
definition LIST_ARTFIACTS_OFF_VERSIONS_URI :: "string \<Rightarrow> string" where
  "LIST_ARTFIACTS_OFF_VERSIONS_URI i = ''/model_versions/'' @ i @ ''/artifacts''"
definition LIST_INFERENCE_SERVICES_URI :: string where "LIST_INFERENCE_SERVICES_URI = ''/inference_services''"
definition LIST_REG_MODEL_URI :: string where "LIST_REG_MODEL_URI = ''/registered_models''"
definition GET_SERVING_ENV_URI :: "string \<Rightarrow> string" where
  "GET_SERVING_ENV_URI i = ''/serving_environments/'' @ i"
definition GET_MODEL_VERSION_URI :: "string \<Rightarrow> string" where
  "GET_MODEL_VERSION_URI i = ''/model_versions/'' @ i"
definition GET_CATALOG_MODEL_URI :: "string \<Rightarrow> string \<Rightarrow> string \<Rightarrow> string" where
  "GET_CATALOG_MODEL_URI source repo model = ''/sources/'' @ source @ ''/models/'' @ repo @ ''/'' @ model"

text \<open>
  \<^verbatim>\<open>json.Unmarshal\<close> into the package's types.  A list of artifacts may be absent (nil), which the
  reconciler tells from an empty one; a catalog model is kept as its readme.
\<close>

record openapi_json =
  oj_RegisteredModelList :: "payload \<Rightarrow> string + RegisteredModel list"
  oj_RegisteredModel :: "payload \<Rightarrow> string + RegisteredModel"
  oj_ModelVersionList :: "payload \<Rightarrow> string + ModelVersion list"
  oj_ModelVersion :: "payload \<Rightarrow> string + ModelVersion"
  oj_ModelArtifactList :: "payload \<Rightarrow> string + ModelArtifact list option"
  oj_InferenceServiceList :: "payload \<Rightarrow> string + KfInferenceService list"
  oj_ServingEnvironment :: "payload \<Rightarrow> string + ServingEnvironment"
  oj_CatalogModel_Readme :: "payload \<Rightarrow> string + string option"

record KubeFlowRESTClientWrapper =
  kw_RESTClient :: "http_request \<Rightarrow> string + http_response"
  kw_ServingClient :: "cluster option"
  kw_RootRegistryURL :: string
  kw_RootCatalogURL :: string
  kw_Token :: string

text \<open>The text of the error ends with the body of the response, which is left out.\<close>

definition getFromModelRegistry :: "KubeFlowRESTClientWrapper \<Rightarrow> string \<Rightarrow> string + payload" where
  "getFromModelRegistry k url =
     (case kw_RESTClient k \<lparr>rq_method = GET, rq_url = url, rq_query = [], rq_token = kw_Token k, rq_body = NoPayload\<rparr> of
        Inl err \<Rightarrow> Inl err
      | Inr resp \<Rightarrow>
          if rs_status resp \<noteq> 200 then Inl (''get for '' @ url @ '' rc '' @ show_nat (rs_status resp))
          else Inr (rs_body resp))"

definition get_and_decode ::
    "(payload \<Rightarrow> string + 'a) \<Rightarrow> KubeFlowRESTClientWrapper \<Rightarrow> string \<Rightarrow> string + 'a" where
  "get_and_decode unmarshal k url =
     (case getFromModelRegistry k url of Inl err \<Rightarrow> Inl err | Inr buf \<Rightarrow> unmarshal buf)"

definition ListRegisteredModels ::
    "openapi_json \<Rightarrow> KubeFlowRESTClientWrapper \<Rightarrow> string + RegisteredModel list" where
  "ListRegisteredModels J k =
     get_and_decode (oj_RegisteredModelList J) k (kw_RootRegistryURL k @ LIST_REG_MODEL_URI)"

definition GetRegisteredModel ::
    "openapi_json \<Rightarrow> KubeFlowRESTClientWrapper \<Rightarrow> string \<Rightarrow> string + RegisteredModel" where
  "GetRegisteredModel J k i =
     get_and_decode (oj_RegisteredModel J) k (kw_RootRegistryURL k @ GET_REG_MODEL_URI i)"

definition ListModelVersions ::
    "openapi_json \<Rightarrow> KubeFlowRESTClientWrapper \<Rightarrow> string \<Rightarrow> string + ModelVersion list" where
  "ListModelVersions J k i =
     get_and_decode (oj_ModelVersionList J) k (kw_RootRegistryURL k @ LIST_VERSIONS_OFF_REG_MODELS_URI i)"

definition GetModelVersions ::
    "openapi_json \<Rightarrow> KubeFlowRESTClientWrapper \<Rightarrow> string \<Rightarrow> string + ModelVersion" where
  "GetModelVersions J k i =
     get_and_decode (oj_ModelVersion J) k (kw_RootRegistryURL k @ GET_MODEL_VERSION_URI i)"

definition ListModelArtifacts ::
    "openapi_json \<Rightarrow> KubeFlowRESTClientWrapper \<Rightarrow> string \<Rightarrow> string + ModelArtifact list option" where
  "ListModelArtifacts J k i =
     get_and_decode (oj_ModelArtifactList J) k (kw_RootRegistryURL k @ LIST_ARTFIACTS_OFF_VERSIONS_URI i)"

definition empty_payload :: "payload \<Rightarrow> bool" where
  "empty_payload p \<longleftrightarrow> p = NoPayload \<or> p = RawPayload ''''"

definition ListInferenceServices ::
    "openapi_json \<Rightarrow> KubeFlowRESTClientWrapper \<Rightarrow> string + KfInferenceService list" where
  "ListInferenceServices J k =
     get_and_decode (\<lambda>buf. if empty_payload buf then Inr [] else oj_InferenceServiceList J buf) k
       (kw_RootRegistryURL k @ LIST_INFERENCE_SERVICES_URI)"

definition GetServingEnvironment ::
    "openapi_json \<Rightarrow> KubeFlowRESTClientWrapper \<Rightarrow> string \<Rightarrow> string + ServingEnvironment" where
  "GetServingEnvironment J k i =
     get_and_decode (oj_ServingEnvironment J) k (kw_RootRegistryURL k @ GET_SERVING_ENV_URI i)"

definition GetCatalogModel ::
    "openapi_json \<Rightarrow> KubeFlowRESTClientWrapper \<Rightarrow> string \<Rightarrow> string \<Rightarrow> string \<Rightarrow> string + string option" where
  "GetCatalogModel J k sourceId repositoryName modelName =
     (let esc = replace_char (CHR '' '') ''%20''
      in get_and_decode (oj_CatalogModel_Readme J) k
           (kw_RootCatalogURL k @ GET_CATALOG_MODEL_URI (esc sourceId) (esc repositoryName) (esc modelName)))"

definition GetModelCard ::
    "openapi_json \<Rightarrow> KubeFlowRESTClientWrapper \<Rightarrow> string \<Rightarrow> string \<Rightarrow> string \<Rightarrow> string + string option" where
  "GetModelCard J k sourceId repositoryName modelName = GetCatalogModel J k sourceId repositoryName modelName"

section \<open>The pass over the registry\<close>

fun version_artifacts ::
    "openapi_json \<Rightarrow> KubeFlowRESTClientWrapper \<Rightarrow> string \<Rightarrow> ModelVersion list
      \<Rightarrow> ModelVersion list \<times> ModelArtifact list go_map
      \<Rightarrow> (ModelVersion list \<times> ModelArtifact list go_map \<times> go_error) option" where
  "version_artifacts J k i [] (finalMVS, ma) = Some (finalMVS, ma, None)"
| "version_artifacts J k i (mv # mvs) (finalMVS, ma) =
     (if mv_State mv = Some MODELVERSIONSTATE_ARCHIVED then version_artifacts J k i mvs (finalMVS, ma)
      else (case mv_Id mv of
              None \<Rightarrow> None
            | Some mvId \<Rightarrow>
                (case ListModelArtifacts J k mvId of
                   Inl err \<Rightarrow> Some (finalMVS @ [mv], ma, Some err)
                 | Inr v \<Rightarrow>
                     if length (slice v) = 0
                     then (case ListModelArtifacts J k i of
                             Inl err \<Rightarrow> Some (finalMVS @ [mv], ma, Some err)
                           | Inr v \<Rightarrow> version_artifacts J k i mvs (finalMVS @ [mv], AList.update mvId (slice v) ma))
                     else version_artifacts J k i mvs (finalMVS @ [mv], AList.update mvId (slice v) ma))))"

definition callKubeflowREST ::
    "openapi_json \<Rightarrow> KubeFlowRESTClientWrapper \<Rightarrow> string
      \<Rightarrow> (ModelVersion list \<times> ModelArtifact list go_map \<times> go_error) option" where
  "callKubeflowREST J k i =
     (case ListModelVersions J k i of
        Inl err \<Rightarrow> Some ([], [], Some err)
      | Inr mvs \<Rightarrow> version_artifacts J k i mvs ([], []))"

type_synonym registry_contents =
  "RegisteredModel list \<times> ModelVersion list go_map \<times> ModelArtifact list go_map go_map"

text \<open>The body of both loops: an archived model is skipped, an error ends the pass.\<close>

definition visit_model ::
    "openapi_json \<Rightarrow> KubeFlowRESTClientWrapper \<Rightarrow> RegisteredModel \<Rightarrow> registry_contents
      \<Rightarrow> (string + registry_contents) option" where
  "visit_model J k rm acc =
     (if rm_State rm = Some REGISTEREDMODELSTATE_ARCHIVED then Some (Inr acc)
      else (case rm_Id rm of
              None \<Rightarrow> None
            | Some i \<Rightarrow>
                (case callKubeflowREST J k i of
                   None \<Rightarrow> None
                 | Some (mvs, mas, Some err) \<Rightarrow> Some (Inl err)
                 | Some (mvs, mas, None) \<Rightarrow>
                     (case acc of (rmArray, mvsMap, masMap) \<Rightarrow>
                        Some (Inr (rmArray @ [rm], AList.update (SanitizeName (rm_Name rm)) mvs mvsMap,
                                   AList.update (SanitizeName (rm_Name rm)) mas masMap))))))"

fun visit_models ::
    "openapi_json \<Rightarrow> KubeFlowRESTClientWrapper \<Rightarrow> RegisteredModel list \<Rightarrow> registry_contents
      \<Rightarrow> (string + registry_contents) option" where
  "visit_models J k [] acc = Some (Inr acc)"
| "visit_models J k (rm # rms) acc =
     (case visit_model J k rm acc of
        None \<Rightarrow> None
      | Some (Inl err) \<Rightarrow> Some (Inl err)
      | Some (Inr acc') \<Rightarrow> visit_models J k rms acc')"

fun visit_ids ::
    "openapi_json \<Rightarrow> KubeFlowRESTClientWrapper \<Rightarrow> string list \<Rightarrow> registry_contents
      \<Rightarrow> (string + registry_contents) option" where
  "visit_ids J k [] acc = Some (Inr acc)"
| "visit_ids J k (i # is) acc =
     (case GetRegisteredModel J k i of
        Inl err \<Rightarrow> Some (Inl err)
      | Inr rm \<Rightarrow>
          (case visit_model J k rm acc of
             None \<Rightarrow> None
           | Some (Inl err) \<Rightarrow> Some (Inl err)
           | Some (Inr acc') \<Rightarrow> visit_ids J k is acc'))"

definition LoopOverKFMR ::
    "openapi_json \<Rightarrow> string list \<Rightarrow> KubeFlowRESTClientWrapper \<Rightarrow> (string + registry_contents) option" where
  "LoopOverKFMR J ids k =
     (if length ids = 0
      then (case ListRegisteredModels J k of
              Inl err \<Rightarrow> Some (Inl err)
            | Inr rms \<Rightarrow> visit_models J k rms ([], [], []))
      else visit_ids J k ids ([], [], []))"

definition GetKubeFlowInferenceServicesForModelVersion ::
    "openapi_json \<Rightarrow> KubeFlowRESTClientWrapper \<Rightarrow> ModelVersion \<Rightarrow> string + KfInferenceService list" where
  "GetKubeFlowInferenceServicesForModelVersion J k mv =
     (case ListInferenceServices J k of
        Inl err \<Rightarrow> Inl err
      | Inr kfis \<Rightarrow>
          Inr (filter (\<lambda>is. gets (ki_ModelVersionId is) = gets (mv_Id mv) \<and> ki_ModelVersionId is \<noteq> None) kfis))"

section \<open>Custom properties\<close>

definition RHOAIModelCatalogProviderKey :: string where "RHOAIModelCatalogProviderKey = ''Provider''"
definition RHOAIModelCatalogRegisteredFromKey :: string where
  "RHOAIModelCatalogRegisteredFromKey = ''Registered from''"
definition RHOAIModelCatalogSourceModelKey :: string where "RHOAIModelCatalogSourceModelKey = ''Source model''"
definition RHOAIModelCatalogSourceModelVersion :: string where
  "RHOAIModelCatalogSourceModelVersion = ''Source model version''"
definition RHOAIModelRegistryRegisteredFromCatalogRepositoryName :: string where
  "RHOAIModelRegistryRegisteredFromCatalogRepositoryName = ''_registeredFromCatalogRepositoryName''"
definition RHOAIModelRegistryLastModified :: string where "RHOAIModelRegistryLastModified = ''_lastModified''"

definition value_keys :: "string list" where
  "value_keys = [RHOAIModelCatalogSourceModelVersion, RHOAIModelCatalogSourceModelKey,
     RHOAIModelCatalogRegisteredFromKey, RHOAIModelCatalogProviderKey, APITypeKey,
     RHOAIModelRegistryRegisteredFromCatalogRepositoryName]"

definition tag_ok :: "string \<Rightarrow> bool" where
  "tag_ok v \<longleftrightarrow> length v > 0 \<and> tag_match v \<and> length v \<le> 63"

definition last_modified_tag :: "string \<Rightarrow> string" where
  "last_modified_tag s =
     (let v = replace_char (CHR '':'') ''-'' s;
          v = replace_char (CHR ''.'') ''-'' v;
          v = replace_char (CHR ''T'') ''-'' v;
          v = replace_char (CHR ''Z'') '''' v
      in ''last-modified-time-'' @ v)"

text \<open>The tag of one property, if it makes one.\<close>

definition prop_tag :: "bool \<Rightarrow> string \<Rightarrow> MetadataValue \<Rightarrow> string option" where
  "prop_tag lastMod cpk cpv =
     (if cpk = LicenseKey \<or> cpk = TechDocsKey then None
      else if cpk \<in> set value_keys
      then (let v = (case cpv of Some s \<Rightarrow> to_lower s | None \<Rightarrow> '''') in if tag_ok v then Some v else None)
      else if cpk = RHOAIModelRegistryLastModified \<and> lastMod
      then (let v = (case cpv of Some s \<Rightarrow> last_modified_tag s | None \<Rightarrow> '''')
            in if tag_ok v then Some (to_lower v) else None)
      else (let v = (case cpv of Some s \<Rightarrow> if length s > 0 then cpk @ ''-'' @ to_lower s else cpk | None \<Rightarrow> cpk)
            in if tag_ok v then Some v else None))"

fun getTagsFromCustomProps :: "bool \<Rightarrow> MetadataValue go_map \<Rightarrow> string go_map" where
  "getTagsFromCustomProps lastMod [] = []"
| "getTagsFromCustomProps lastMod ((cpk, cpv) # props) =
     (case prop_tag lastMod cpk cpv of
        None \<Rightarrow> getTagsFromCustomProps lastMod props
      | Some v \<Rightarrow> (cpk, v) # getTagsFromCustomProps lastMod props)"

definition innerGetStringPropVal :: "string \<Rightarrow> MetadataValue go_map \<Rightarrow> string option" where
  "innerGetStringPropVal key vmap = (case map_of vmap key of None \<Rightarrow> None | Some v \<Rightarrow> v)"

definition kf_commonGetStringPropVal :: "string \<Rightarrow> ModelVersion \<Rightarrow> RegisteredModel \<Rightarrow> string option" where
  "kf_commonGetStringPropVal key mv rm =
     (let rest = (case rm_CustomProperties rm of None \<Rightarrow> None | Some vmap \<Rightarrow> innerGetStringPropVal key vmap)
      in case mv_CustomProperties mv of
           None \<Rightarrow> rest
         | Some vmap \<Rightarrow> (case innerGetStringPropVal key vmap of Some s \<Rightarrow> Some s | None \<Rightarrow> rest))"

section \<open>CommonPopulator\<close>

record KfmrPop =
  kf_Owner :: string
  kf_Lifecycle :: string
  kf_RegisteredModel :: RegisteredModel
  kf_ModelVersion :: ModelVersion
  kf_InferenceService :: "KfInferenceService option"
  kf_Kfmr :: KubeFlowRESTClientWrapper
  kf_Kis :: "InferenceService option"
  kf_CtrlClient :: "cluster option"
  kf_ModelArtifacts :: "ModelArtifact list"

definition kf_maps_to :: "RegisteredModel \<Rightarrow> ModelVersion \<Rightarrow> InferenceService \<Rightarrow> bool" where
  "kf_maps_to rm mv is = KServeInferenceServiceMapping (gets (rm_Id rm)) (gets (mv_Id mv)) (is_Labels is)"

definition GetInferenceServerByRegModelModelVersionName :: "KfmrPop \<Rightarrow> InferenceService option" where
  "GetInferenceServerByRegModelModelVersionName pop =
     (let first = find (kf_maps_to (kf_RegisteredModel pop) (kf_ModelVersion pop));
          served = (\<lambda>c. case cl_List c [] of Inl err \<Rightarrow> None | Inr iss \<Rightarrow> first iss)
      in case kf_CtrlClient pop of
           Some c \<Rightarrow> served c
         | None \<Rightarrow> (case kw_ServingClient (kf_Kfmr pop) of Some c \<Rightarrow> served c | None \<Rightarrow> None))"

text \<open>The lookup of the getters that find no KServe service in the populator.\<close>

definition resolve_Kis :: "KfmrPop \<Rightarrow> KfmrPop" where
  "resolve_Kis m =
     (case kf_Kis m of
        Some is \<Rightarrow> m
      | None \<Rightarrow> m\<lparr>kf_Kis := GetInferenceServerByRegModelModelVersionName m\<rparr>)"

definition kf_Common_GetOwner :: "KfmrPop \<Rightarrow> string" where
  "kf_Common_GetOwner pop =
     (if length (kf_Owner pop) \<noteq> 0 then kf_Owner pop
      else (case rm_Owner (kf_RegisteredModel pop) of Some own \<Rightarrow> SanitizeName own | None \<Rightarrow> kf_Owner pop))"

definition kf_Common_GetDescription :: "KfmrPop \<Rightarrow> string" where
  "kf_Common_GetDescription pop = gets (rm_Description (kf_RegisteredModel pop))"

definition kserve_links :: "InferenceService option \<Rightarrow> EntityLink list" where
  "kserve_links kis =
     ks_Common_GetLinks \<lparr>kp_Owner = '''', kp_Lifecycle = '''', kp_InferSvc = kis, kp_CtrlClient = None\<rparr>"

text \<open>The fetch of the KServe service by name: from the serving client if there is one.\<close>

definition fetch_kis :: "KfmrPop \<Rightarrow> string \<Rightarrow> string \<Rightarrow> k8s_error + InferenceService option" where
  "fetch_kis pop kisns kisnm =
     (case kw_ServingClient (kf_Kfmr pop) of
        Some c \<Rightarrow> (case cl_Get c kisns kisnm of Inl err \<Rightarrow> Inl err | Inr kis \<Rightarrow> Inr (Some kis))
      | None \<Rightarrow>
          (case kf_CtrlClient pop of
             Some c \<Rightarrow> (case cl_Get c kisns kisnm of Inl err \<Rightarrow> Inl err | Inr kis \<Rightarrow> Inr (Some kis))
           | None \<Rightarrow> Inr None))"

definition GetLinksFromInferenceServices :: "openapi_json \<Rightarrow> KfmrPop \<Rightarrow> EntityLink list" where
  "GetLinksFromInferenceServices J pop =
     (case kf_InferenceService pop of
        None \<Rightarrow> (case kf_Kis (resolve_Kis pop) of None \<Rightarrow> [] | Some kis \<Rightarrow> kserve_links (Some kis))
      | Some infsvc \<Rightarrow>
          if ki_RegisteredModelId infsvc \<noteq> gets (rm_Id (kf_RegisteredModel pop)) then []
          else if ki_DesiredState infsvc \<noteq> Some INFERENCESERVICESTATE_DEPLOYED then []
          else (case GetServingEnvironment J (kf_Kfmr pop) (ki_ServingEnvironmentId infsvc) of
                  Inl err \<Rightarrow> []
                | Inr se \<Rightarrow>
                    (case kf_Kis pop of
                       Some kis \<Rightarrow> kserve_links (Some kis)
                     | None \<Rightarrow>
                         (case fetch_kis pop (se_Name se) (gets (ki_Runtime infsvc)) of
                            Inl err \<Rightarrow> []
                          | Inr kis \<Rightarrow> kserve_links kis))))"

section \<open>Catalog entities\<close>

definition artifact_links :: "ModelArtifact list \<Rightarrow> EntityLink list" where
  "artifact_links mas =
     concat (map (\<lambda>ma. case ma_Uri ma of None \<Rightarrow> [] | Some uri \<Rightarrow> [website (gets (ma_Description ma)) uri]) mas)"

definition kf_Component_GetLinks :: "openapi_json \<Rightarrow> KfmrPop \<Rightarrow> EntityLink list" where
  "kf_Component_GetLinks J pop = GetLinksFromInferenceServices J pop @ artifact_links (kf_ModelArtifacts pop)"

text \<open>
  The tags of the properties whose key and string value, if any, match; the check of the length
  only logs.
\<close>

definition custom_prop_tags :: "MetadataValue go_map \<Rightarrow> string list" where
  "custom_prop_tags props =
     concat (map (\<lambda>(key, value).
       if \<not> tag_match key then []
       else (case value of
               None \<Rightarrow> [key]
             | Some strVal \<Rightarrow> if \<not> tag_match strVal then [] else [key @ ''-'' @ strVal])) props)"

definition kf_Component_GetTags :: "KfmrPop \<Rightarrow> string list" where
  "kf_Component_GetTags pop = custom_prop_tags (getm (rm_CustomProperties (kf_RegisteredModel pop)))"

text \<open>An artifact without a name is a nil pointer.\<close>

definition kf_Component_GetDependsOn :: "KfmrPop \<Rightarrow> string list option" where
  "kf_Component_GetDependsOn pop =
     (if list_all (\<lambda>ma. ma_Name ma \<noteq> None) (kf_ModelArtifacts pop)
      then Some ((''resource:'' @ mv_Name (kf_ModelVersion pop))
                 # map (\<lambda>ma. ''api:'' @ gets (ma_Name ma)) (kf_ModelArtifacts pop))
      else None)"

definition kf_model_name :: "KfmrPop \<Rightarrow> string" where
  "kf_model_name pop = SanitizeName (rm_Name (kf_RegisteredModel pop))"

definition kf_component :: "openapi_json \<Rightarrow> KfmrPop \<Rightarrow> ComponentPop option" where
  "kf_component J pop = do {
     dependsOn \<leftarrow> kf_Component_GetDependsOn pop;
     Some \<lparr>pop_Owner = kf_Common_GetOwner pop, pop_Lifecycle = kf_Lifecycle pop, pop_Name = kf_model_name pop,
       pop_Description = kf_Common_GetDescription pop, pop_Links = kf_Component_GetLinks J pop,
       pop_Tags = kf_Component_GetTags pop, pop_ProvidedAPIs = [], pop_TechdocRef = ''./'',
       pop_DisplayName = kf_model_name pop, pop_DependsOn = dependsOn\<rparr> }"

definition kf_Resource_GetTags :: "KfmrPop \<Rightarrow> string list" where
  "kf_Resource_GetTags pop =
     custom_prop_tags (getm (mv_CustomProperties (kf_ModelVersion pop)))
     @ concat (map (\<lambda>ma. custom_prop_tags (getm (ma_CustomProperties ma))) (kf_ModelArtifacts pop))"

definition kf_resource :: "KfmrPop \<Rightarrow> ResourcePop" where
  "kf_resource pop =
     \<lparr>pop_Owner = kf_Common_GetOwner pop, pop_Lifecycle = kf_Lifecycle pop,
      pop_Name = mv_Name (kf_ModelVersion pop), pop_Description = kf_Common_GetDescription pop,
      pop_Links = artifact_links (kf_ModelArtifacts pop), pop_Tags = kf_Resource_GetTags pop,
      pop_ProvidedAPIs = [], pop_TechdocRef = ''resource/'', pop_DisplayName = mv_Name (kf_ModelVersion pop),
      pop_DependencyOf = [''component:'' @ kf_model_name pop]\<rparr>"

definition kf_api :: "openapi_json \<Rightarrow> KfmrPop \<Rightarrow> APIPop" where
  "kf_api J pop =
     \<lparr>pop_Owner = kf_Common_GetOwner pop, pop_Lifecycle = kf_Lifecycle pop, pop_Name = kf_model_name pop,
      pop_Description = kf_Common_GetDescription pop, pop_Links = GetLinksFromInferenceServices J pop,
      pop_Tags = [], pop_ProvidedAPIs = [], pop_TechdocRef = ''api/'', pop_DisplayName = kf_model_name pop,
      pop_Definition = ''no-definition-yet'', pop_ApiDependencyOf = [''component:'' @ kf_model_name pop]\<rparr>"

section \<open>The schema populators\<close>

text \<open>
  \<^verbatim>\<open>MVIndex\<close> and \<^verbatim>\<open>MAIndex\<close> are set and never read; they are left out.  The getters of the model
  server that look the KServe service up store it in their own populator: these return it.
\<close>

definition kf_prop :: "KfmrPop \<Rightarrow> string \<Rightarrow> string option" where
  "kf_prop m key = kf_commonGetStringPropVal key (kf_ModelVersion m) (kf_RegisteredModel m)"

definition put_all :: "string go_map \<Rightarrow> string go_map \<Rightarrow> string go_map" where
  "put_all tags new = foldl (\<lambda>t (k, v). AList.update k v t) tags new"

definition kf_schema_tags :: "KfmrPop \<Rightarrow> string list" where
  "kf_schema_tags m =
     (let tags = getTagsFromCustomProps False (getm (rm_CustomProperties (kf_RegisteredModel m)));
          tags = put_all tags (getTagsFromCustomProps True (getm (mv_CustomProperties (kf_ModelVersion m))));
          tags = foldl (\<lambda>t ma. put_all t (getTagsFromCustomProps True (getm (ma_CustomProperties ma))))
                   tags (kf_ModelArtifacts m)
      in map snd tags)"

definition kf_schema_owner :: "KfmrPop \<Rightarrow> string" where
  "kf_schema_owner m =
     (case kf_prop m OwnerKey of
        Some own \<Rightarrow> SanitizeName own
      | None \<Rightarrow> (case rm_Owner (kf_RegisteredModel m) of Some own \<Rightarrow> SanitizeName own | None \<Rightarrow> kf_Owner m))"

definition kf_schema_description :: "KfmrPop \<Rightarrow> string" where
  "kf_schema_description m =
     gets (rm_Description (kf_RegisteredModel m)) @ [CHR 0x0A] @ gets (mv_Description (kf_ModelVersion m))"

section \<open>ModelPopulator\<close>

definition kf_Model_GetName :: "KfmrPop \<Rightarrow> string" where
  "kf_Model_GetName m =
     SanitizeName (rm_Name (kf_RegisteredModel m)) @ ''-'' @ SanitizeModelVersion (mv_Name (kf_ModelVersion m))"

definition kf_Model_GetOwner :: "KfmrPop \<Rightarrow> string" where
  "kf_Model_GetOwner m = kf_schema_owner m"

definition kf_Model_GetLifecycle :: "KfmrPop \<Rightarrow> string" where
  "kf_Model_GetLifecycle m =
     (case kf_prop m LifecycleKey of Some lifecycle \<Rightarrow> SanitizeName lifecycle | None \<Rightarrow> kf_Lifecycle m)"

definition kf_Model_GetDescription :: "KfmrPop \<Rightarrow> string" where
  "kf_Model_GetDescription m = kf_schema_description m"

definition kf_Model_GetTags :: "KfmrPop \<Rightarrow> string list" where
  "kf_Model_GetTags m = kf_schema_tags m"

definition kf_Model_GetArtifactLocationURL :: "KfmrPop \<Rightarrow> string option" where
  "kf_Model_GetArtifactLocationURL m = (case kf_ModelArtifacts m of [] \<Rightarrow> None | ma # _ \<Rightarrow> ma_Uri ma)"

definition kf_Model_GetEthics :: "KfmrPop \<Rightarrow> string option" where
  "kf_Model_GetEthics m = kf_prop m EthicsKey"
definition kf_Model_GetHowToUseURL :: "KfmrPop \<Rightarrow> string option" where
  "kf_Model_GetHowToUseURL m = kf_prop m HowToUseKey"
definition kf_Model_GetSupport :: "KfmrPop \<Rightarrow> string option" where
  "kf_Model_GetSupport m = kf_prop m SupportKey"
definition kf_Model_GetTraining :: "KfmrPop \<Rightarrow> string option" where
  "kf_Model_GetTraining m = kf_prop m TrainingKey"
definition kf_Model_GetUsage :: "KfmrPop \<Rightarrow> string option" where
  "kf_Model_GetUsage m = kf_prop m UsageKey"
definition kf_Model_GetLicense :: "KfmrPop \<Rightarrow> string option" where
  "kf_Model_GetLicense m = kf_prop m LicenseKey"

text \<open>The key under which the model card of an artifact is stored: its source without spaces.\<close>

definition model_card_key :: "ModelArtifact \<Rightarrow> string" where
  "model_card_key ma =
     remove_char (CHR '' '') (gets (ma_ModelSourceClass ma))
     @ remove_char (CHR '' '') (gets (ma_ModelSourceGroup ma))
     @ remove_char (CHR '' '') (gets (ma_ModelSourceName ma))"

definition kf_Model_GetTechDocs :: "KfmrPop \<Rightarrow> string option" where
  "kf_Model_GetTechDocs m =
     (let techdocsUrl = kf_prop m TechDocsKey;
          bad = (case techdocsUrl of None \<Rightarrow> False | Some u \<Rightarrow> \<not> web_url u)
      in if bad then None
         else (case kf_ModelArtifacts m of
                 [] \<Rightarrow> techdocsUrl
               | ma # _ \<Rightarrow> Some (''http://localhost:9090'' @ ModelCardURI @ ''?key='' @ model_card_key ma)))"

text \<open>The name annotation: the name, unless the properties of the model or, before that, the version set one.\<close>

definition kf_model_annotations :: "KfmrPop \<Rightarrow> string go_map" where
  "kf_model_annotations m =
     (let name = kf_Model_GetName m;
          name = (case innerGetStringPropVal MODEL_NAME (getm (rm_CustomProperties (kf_RegisteredModel m))) of
                    Some n \<Rightarrow> n | None \<Rightarrow> name);
          name = (case innerGetStringPropVal MODEL_NAME (getm (mv_CustomProperties (kf_ModelVersion m))) of
                    Some n \<Rightarrow> n | None \<Rightarrow> name)
      in (MODEL_NAME, name)
         # (case kf_Model_GetTechDocs m of
              Some u \<Rightarrow> if u \<noteq> '''' then [(TechDocsKey, u)] else []
            | None \<Rightarrow> []))"

definition kf_GetModels :: "KfmrPop \<Rightarrow> Model list" where
  "kf_GetModels m =
     [\<lparr>md_Annotations = kf_model_annotations m, md_ArtifactLocationURL = kf_Model_GetArtifactLocationURL m,
       md_Description = kf_Model_GetDescription m, md_Ethics = kf_Model_GetEthics m,
       md_HowToUseURL = kf_Model_GetHowToUseURL m, md_License = kf_Model_GetLicense m,
       md_Lifecycle = kf_Model_GetLifecycle m, md_Name = kf_Model_GetName m, md_Owner = kf_Model_GetOwner m,
       md_Support = kf_Model_GetSupport m, md_Tags = kf_Model_GetTags m,
       md_Training = kf_Model_GetTraining m, md_Usage = kf_Model_GetUsage m\<rparr>]"

section \<open>ModelServerPopulator\<close>

definition kf_Server_GetUsage :: "KfmrPop \<Rightarrow> string option" where
  "kf_Server_GetUsage m = kf_prop m UsageKey"

definition kf_Server_GetHomepageURL :: "KfmrPop \<Rightarrow> string option" where
  "kf_Server_GetHomepageURL m = kf_prop m HomepageURLKey"

definition kf_Server_GetAuthentication :: "KfmrPop \<Rightarrow> (bool \<times> KfmrPop) option" where
  "kf_Server_GetAuthentication m =
     (let m = resolve_Kis m
      in case kf_Kis m of
           None \<Rightarrow> Some (False, m)
         | Some kis \<Rightarrow> map_option (\<lambda>c. (has_service_account c kis, m)) (kf_CtrlClient m))"

definition kf_Server_GetName :: "KfmrPop \<Rightarrow> string" where
  "kf_Server_GetName m =
     (case kf_InferenceService m of
        Some infsvc \<Rightarrow> SanitizeName (gets (ki_Name infsvc))
      | None \<Rightarrow> (case kf_Kis m of Some kis \<Rightarrow> SanitizeName (is_Name kis) | None \<Rightarrow> ''''))"

definition kf_Server_GetTags :: "KfmrPop \<Rightarrow> string list" where
  "kf_Server_GetTags m = kf_schema_tags m"

definition kf_Server_GetOwner :: "KfmrPop \<Rightarrow> string" where
  "kf_Server_GetOwner m = kf_schema_owner m"

definition kf_Server_GetLifecycle :: "KfmrPop \<Rightarrow> string" where
  "kf_Server_GetLifecycle m =
     (case kf_prop m LifecycleKey of Some lifecycle \<Rightarrow> lifecycle | None \<Rightarrow> kf_Lifecycle m)"

definition kf_Server_GetDescription :: "KfmrPop \<Rightarrow> string" where
  "kf_Server_GetDescription m = kf_schema_description m"

definition kf_API_GetSpec :: "KfmrPop \<Rightarrow> string" where
  "kf_API_GetSpec m = (case kf_prop m APISpecKey of None \<Rightarrow> ''TBD'' | Some ret \<Rightarrow> ret)"

definition kf_API_GetTags :: "KfmrPop \<Rightarrow> string list" where
  "kf_API_GetTags m = kf_schema_tags m"

definition kf_API_GetType :: "KfmrPop \<Rightarrow> ApiType" where
  "kf_API_GetType m =
     (case kf_prop m APITypeKey of
        None \<Rightarrow> Openapi
      | Some t \<Rightarrow>
          if t = Graphql then Graphql
          else if t = Asyncapi then Asyncapi
          else if t = Grpc then Grpc
          else Openapi)"

definition kf_API_getFullSvcURL :: "KfmrPop \<Rightarrow> string option" where
  "kf_API_getFullSvcURL m = do {
     kis \<leftarrow> kf_Kis m;
     c \<leftarrow> kf_CtrlClient m;
     Some (predictor_url c kis) }"

definition kf_API_GetURL :: "KfmrPop \<Rightarrow> (string \<times> string) option" where
  "kf_API_GetURL m =
     (let m = resolve_Kis m
      in case kf_Kis m of
           None \<Rightarrow> Some ('''', '''')
         | Some kis \<Rightarrow>
             (case is_URL kis of
                None \<Rightarrow> Some ('''', '''')
              | Some kisUrl \<Rightarrow> do {
                  svcURL \<leftarrow> kf_API_getFullSvcURL m;
                  Some (if contains kisUrl ''svc.cluster.local'' then (svcURL, svcURL) else (kisUrl, svcURL)) }))"

definition kf_Server_GetAPI :: "KfmrPop \<Rightarrow> API option" where
  "kf_Server_GetAPI apiPop = do {
     (routeExternalURL, svcInternalURL) \<leftarrow> kf_API_GetURL apiPop;
     Some \<lparr>api_Annotations = url_annotations routeExternalURL svcInternalURL, api_Spec = kf_API_GetSpec apiPop,
       api_Tags = kf_API_GetTags apiPop, api_Type = kf_API_GetType apiPop, api_URL = routeExternalURL\<rparr> }"

text \<open>
  Whether an inference service serves the version: the labels of the KServe service say so, or
  the registry's service names the version.
\<close>

definition found_service :: "KfmrPop \<Rightarrow> bool" where
  "found_service m =
     (let rm = kf_RegisteredModel m; mv = kf_ModelVersion m
      in (case kf_Kis m of Some kis \<Rightarrow> kf_maps_to rm mv kis | None \<Rightarrow> False)
         \<or> (mv_RegisteredModelId mv = gets (rm_Id rm)
            \<and> (case kf_InferenceService m of
                 Some infsvc \<Rightarrow> gets (mv_Id mv) = gets (ki_ModelVersionId infsvc)
               | None \<Rightarrow> False)))"

text \<open>
  The three populators of the document start as copies of one: \<open>m\<close> is the catalog's, the server's
  and its API's are both \<open>msPop\<close>.  The outer option is the panic, the inner one the nil server.
\<close>

definition kf_GetModelServer :: "KfmrPop \<Rightarrow> KfmrPop \<Rightarrow> ModelServer option option" where
  "kf_GetModelServer m msPop =
     (let m = (if kf_InferenceService m = None then resolve_Kis m else m)
      in if kf_InferenceService m = None \<and> kf_Kis m = None then Some None
         else if \<not> found_service m then Some None
         else do {
           api \<leftarrow> kf_Server_GetAPI msPop;
           (auth, msPop) \<leftarrow> kf_Server_GetAuthentication msPop;
           Some (Some \<lparr>ms_Annotations = [], ms_API = Some api, ms_Authentication = Some auth,
             ms_Description = kf_Server_GetDescription msPop, ms_HomepageURL = kf_Server_GetHomepageURL msPop,
             ms_Lifecycle = kf_Server_GetLifecycle msPop, ms_Name = kf_Server_GetName msPop,
             ms_Owner = kf_Server_GetOwner msPop, ms_Tags = kf_Server_GetTags msPop,
             ms_Usage = kf_Server_GetUsage msPop\<rparr>) })"

section \<open>The document\<close>

definition kf_CallBackstagePrinters ::
    "openapi_json \<Rightarrow> string \<Rightarrow> string \<Rightarrow> RegisteredModel \<Rightarrow> ModelVersion \<Rightarrow> ModelArtifact list
      \<Rightarrow> KfInferenceService option \<Rightarrow> InferenceService option \<Rightarrow> KubeFlowRESTClientWrapper \<Rightarrow> cluster
      \<Rightarrow> catalog_doc list \<Rightarrow> NormalizerFormat \<Rightarrow> catalog_doc list option" where
  "kf_CallBackstagePrinters J owner lifecycle rm mv mas infsvc kis kfmr client writer format =
     (let compPop = \<lparr>kf_Owner = owner, kf_Lifecycle = lifecycle, kf_RegisteredModel = rm, kf_ModelVersion = mv,
            kf_InferenceService = infsvc, kf_Kfmr = kfmr, kf_Kis = kis, kf_CtrlClient = Some client,
            kf_ModelArtifacts = mas\<rparr>
      in if format = JsonArrayForamt then do {
           server \<leftarrow> kf_GetModelServer compPop compPop;
           Some (PrintModelCatalogPopulator (kf_GetModels compPop) server writer) }
         else do {
           comp \<leftarrow> kf_component J compPop;
           let writer = PrintComponent comp writer;
           let writer = PrintResource (kf_resource (compPop\<lparr>kf_InferenceService := None\<rparr>)) writer;
           Some (PrintAPI (kf_api J (compPop\<lparr>kf_ModelArtifacts := []\<rparr>)) writer) })"

section \<open>Lemmas on tags\<close>

lemma go_split_append_sep: "go_split c (s @ c # t) = go_split c s @ go_split c t"
proof (induction s)
  case (Cons x s)
  then show ?case by (cases "go_split c s") auto
qed simp

lemma go_split_chars: "x \<in> set s \<Longrightarrow> x = c \<or> (\<exists>g \<in> set (go_split c s). x \<in> set g)"
proof (induction s)
  case (Cons y s)
  have "go_split c s = hd (go_split c s) # tl (go_split c s)" by simp
  then have "set (go_split c s) = insert (hd (go_split c s)) (set (tl (go_split c s)))"
    by (metis list.simps(15))
  with Cons show ?case by auto
qed simp

lemma tag_match_join: "tag_match k \<Longrightarrow> tag_match v \<Longrightarrow> tag_match (k @ ''-'' @ v)"
  by (simp add: tag_match_def go_split_append_sep)

lemma tag_char_not_upper: "tag_char c \<Longrightarrow> \<not> is_upper c"
  by (auto simp: tag_char_def is_upper_def is_lower_def is_digit_def less_eq_char_def)

lemma tag_match_not_upper: "tag_match s \<Longrightarrow> list_all (\<lambda>c. \<not> is_upper c) s"
proof -
  assume m: "tag_match s"
  have "\<not> is_upper x" if "x \<in> set s" for x
  proof -
    from go_split_chars [OF that, of "CHR ''-''"] m have "x = CHR ''-'' \<or> tag_char x"
      by (auto simp: tag_match_def list_all_iff)
    moreover have "\<not> is_upper (CHR ''-'')" by (simp add: is_upper_def less_eq_char_def)
    ultimately show ?thesis using tag_char_not_upper by blast
  qed
  then show ?thesis by (simp add: list_all_iff)
qed

lemma tag_ok_to_lower: "tag_ok v \<Longrightarrow> tag_ok (to_lower v)"
  by (simp add: tag_ok_def tag_match_not_upper to_lower_id)

lemma prop_tag_ok: "prop_tag lastMod k v = Some t \<Longrightarrow> tag_ok t"
  by (auto simp: prop_tag_def Let_def tag_ok_to_lower split: if_splits option.splits)

lemma getTagsFromCustomProps_ok: "(k, t) \<in> set (getTagsFromCustomProps lastMod props) \<Longrightarrow> tag_ok t"
  by (induction lastMod props rule: getTagsFromCustomProps.induct)
    (auto dest: prop_tag_ok split: option.splits)

lemma getTagsFromCustomProps_keys:
  "(k, t) \<in> set (getTagsFromCustomProps lastMod props) \<Longrightarrow> k \<noteq> LicenseKey \<and> k \<noteq> TechDocsKey"
  by (induction lastMod props rule: getTagsFromCustomProps.induct)
    (auto simp: prop_tag_def split: option.splits)

definition tags_ok :: "string go_map \<Rightarrow> bool" where
  "tags_ok m \<longleftrightarrow> (\<forall>(k, t) \<in> set m. tag_ok t \<and> k \<noteq> LicenseKey \<and> k \<noteq> TechDocsKey)"

lemma tags_ok_getTags: "tags_ok (getTagsFromCustomProps lastMod props)"
  by (auto simp: tags_ok_def dest: getTagsFromCustomProps_ok getTagsFromCustomProps_keys)

lemma set_update_subset: "set (AList.update k v m) \<subseteq> insert (k, v) (set m)"
  by (induction m) auto

lemma tags_ok_update: "tags_ok m \<Longrightarrow> tag_ok v \<Longrightarrow> k \<noteq> LicenseKey \<Longrightarrow> k \<noteq> TechDocsKey \<Longrightarrow> tags_ok (AList.update k v m)"
  using set_update_subset [of k v m] by (fastforce simp: tags_ok_def)

lemma tags_ok_put_all: "tags_ok m \<Longrightarrow> tags_ok m' \<Longrightarrow> tags_ok (put_all m m')"
  unfolding put_all_def
proof (induction m' arbitrary: m)
  case (Cons kv m')
  have "tags_ok m'" using Cons.prems(2) by (simp add: tags_ok_def)
  moreover have "tags_ok (AList.update (fst kv) (snd kv) m)"
    using Cons.prems by (intro tags_ok_update) (auto simp: tags_ok_def)
  ultimately show ?case using Cons.IH by (simp add: split_beta)
qed simp

lemma tags_ok_artifacts:
  "tags_ok t \<Longrightarrow> tags_ok (foldl (\<lambda>t ma. put_all t (getTagsFromCustomProps True (getm (ma_CustomProperties ma)))) t mas)"
  by (induction mas arbitrary: t) (simp_all add: tags_ok_put_all tags_ok_getTags)

lemma schema_tags_ok: "t \<in> set (kf_schema_tags m) \<Longrightarrow> tag_ok t"
  using tags_ok_artifacts [OF tags_ok_put_all [OF tags_ok_getTags tags_ok_getTags]]
  by (fastforce simp: kf_schema_tags_def Let_def tags_ok_def)

lemma custom_prop_tags_Cons:
  "custom_prop_tags ((key, value) # props) =
     (if \<not> tag_match key then []
      else (case value of
              None \<Rightarrow> [key]
            | Some strVal \<Rightarrow> if \<not> tag_match strVal then [] else [key @ ''-'' @ strVal])) @ custom_prop_tags props"
  unfolding custom_prop_tags_def list.map concat.simps prod.case by (rule refl)

lemma custom_prop_tags_match: "list_all tag_match (custom_prop_tags props)"
proof (induction props)
  case Nil
  show ?case by (simp add: custom_prop_tags_def)
next
  case (Cons p props)
  obtain key pv where p: "p = (key, pv)" by (cases p)
  show ?case
    unfolding p custom_prop_tags_Cons list_all_append
    using Cons.IH tag_match_join [of key] by (cases pv) simp_all
qed

lemma custom_prop_tags_member:
  "(key, Some v) \<in> set props \<Longrightarrow> tag_match key \<Longrightarrow> tag_match v \<Longrightarrow> key @ ''-'' @ v \<in> set (custom_prop_tags props)"
proof (induction props)
  case (Cons p props)
  obtain key' pv where p: "p = (key', pv)" by (cases p)
  show ?case using Cons by (auto simp: p custom_prop_tags_Cons)
qed simp

section \<open>Lemmas on names\<close>

lemma specials_apart_append:
  "specials_apart (a @ b) \<longleftrightarrow> specials_apart a \<and> specials_apart b
     \<and> (a \<noteq> [] \<longrightarrow> b \<noteq> [] \<longrightarrow> \<not> (special_char (last a) \<and> special_char (hd b)))"
  unfolding specials_apart_def successively_append_iff by auto

lemma name_ok_join:
  assumes "name_ok a" and "name_ok b"
  shows "name_ok (a @ ''-'' @ b) \<longleftrightarrow> a \<noteq> [] \<and> b \<noteq> [] \<and> length (a @ ''-'' @ b) \<le> 63"
proof (cases "a \<noteq> [] \<and> b \<noteq> []")
  case True
  then have ends: "is_alnum (hd a)" "is_alnum (last a)" "is_alnum (hd b)" "is_alnum (last b)"
    using assms by (auto simp: name_ok_def)
  have "specials_apart (a @ ''-'' @ b)"
    using assms ends True by (auto simp: specials_apart_append name_ok_def)
  moreover have "list_all name_char (a @ ''-'' @ b)"
    using assms by (auto simp: name_ok_def name_char_def)
  ultimately show ?thesis using True ends by (auto simp: name_ok_def)
next
  case False
  have dash: "\<not> is_alnum (CHR ''-'')"
    using alnum_not_special [of "CHR ''-''"] by (auto simp: special_char_def)
  from False show ?thesis
    by (auto simp: name_ok_def dash)
qed

section \<open>Lemmas on the pass over the registry\<close>

definition mv_active :: "ModelVersion \<Rightarrow> bool" where
  "mv_active mv \<longleftrightarrow> mv_State mv \<noteq> Some MODELVERSIONSTATE_ARCHIVED"

definition rm_active :: "RegisteredModel \<Rightarrow> bool" where
  "rm_active rm \<longleftrightarrow> rm_State rm \<noteq> Some REGISTEREDMODELSTATE_ARCHIVED"

text \<open>What the registry says of a model: its versions that are not archived.\<close>

definition active_versions :: "openapi_json \<Rightarrow> KubeFlowRESTClientWrapper \<Rightarrow> RegisteredModel \<Rightarrow> ModelVersion list" where
  "active_versions J k rm =
     (case ListModelVersions J k (gets (rm_Id rm)) of Inl err \<Rightarrow> [] | Inr mvs \<Rightarrow> filter mv_active mvs)"

definition same_name :: "string \<Rightarrow> RegisteredModel \<Rightarrow> bool" where
  "same_name n rm \<longleftrightarrow> SanitizeName (rm_Name rm) = n"

lemma version_artifacts_versions:
  "version_artifacts J k i mvs (fin, ma) = Some (vs, ma', None) \<Longrightarrow> vs = fin @ filter mv_active mvs"
proof (induction J k i mvs "(fin, ma)" arbitrary: fin ma rule: version_artifacts.induct)
  case (2 J k i mv mvs fin ma)
  then show ?case
    by (auto simp: mv_active_def split: if_splits option.splits sum.splits)
qed simp

lemma version_artifacts_ids:
  "version_artifacts J k i mvs (fin, ma) = Some (vs, ma', None) \<Longrightarrow> mv \<in> set mvs \<Longrightarrow> mv_active mv \<Longrightarrow> mv_Id mv \<noteq> None"
proof (induction J k i mvs "(fin, ma)" arbitrary: fin ma rule: version_artifacts.induct)
  case (2 J k i m mvs fin ma)
  then show ?case
    by (auto simp: mv_active_def split: if_splits option.splits sum.splits)
qed simp

lemma callKubeflowREST_versions:
  assumes "callKubeflowREST J k i = Some (vs, ma, None)" and "rm_Id rm = Some i"
  shows "vs = active_versions J k rm"
  using assms
  by (auto simp: callKubeflowREST_def active_versions_def gets_def split: sum.splits
      dest: version_artifacts_versions)

lemma visit_model_cases:
  assumes "visit_model J k rm (r, mvm, mam) = Some (Inr (r', mvm', mam'))"
  shows "r' = r @ filter rm_active [rm]
    \<and> mvm' = (if rm_active rm then AList.update (SanitizeName (rm_Name rm)) (active_versions J k rm) mvm else mvm)"
proof (cases "rm_active rm")
  case True
  with assms obtain i vs mas where "rm_Id rm = Some i" and c: "callKubeflowREST J k i = Some (vs, mas, None)"
    and eqs: "r' = r @ [rm]" "mvm' = AList.update (SanitizeName (rm_Name rm)) vs mvm"
    by (auto simp: visit_model_def rm_active_def split: option.splits prod.splits)
  then have "vs = active_versions J k rm" using callKubeflowREST_versions by blast
  with True eqs show ?thesis by simp
next
  case False
  with assms show ?thesis by (simp add: visit_model_def rm_active_def)
qed

lemma visit_models_contents:
  assumes "visit_models J k rms (r, mvm, mam) = Some (Inr (r', mvm', mam'))"
  shows "r' = r @ filter rm_active rms
    \<and> map_of mvm' n =
        (case filter (same_name n) (filter rm_active rms) of
           [] \<Rightarrow> map_of mvm n
         | xs \<Rightarrow> Some (active_versions J k (last xs)))"
  using assms
proof (induction rms arbitrary: r mvm mam)
  case (Cons rm rms)
  from Cons.prems obtain r1 mvm1 mam1 where
      v: "visit_model J k rm (r, mvm, mam) = Some (Inr (r1, mvm1, mam1))"
    and rest: "visit_models J k rms (r1, mvm1, mam1) = Some (Inr (r', mvm', mam'))"
    by (auto split: option.splits sum.splits)
  from Cons.IH [OF rest] visit_model_cases [OF v] show ?case
    by (auto simp: same_name_def split: list.splits)
qed simp

lemma visit_model_artifacts:
  assumes "visit_model J k rm (r, mvm, mam) = Some (Inr (r', mvm', mam'))" and "rm_active rm"
  shows "\<exists>i vs mas. rm_Id rm = Some i \<and> callKubeflowREST J k i = Some (vs, mas, None)
    \<and> mam' = AList.update (SanitizeName (rm_Name rm)) mas mam"
  using assms by (auto simp: visit_model_def rm_active_def split: option.splits prod.splits)

definition listed_artifacts ::
    "openapi_json \<Rightarrow> KubeFlowRESTClientWrapper \<Rightarrow> RegisteredModel \<Rightarrow> ModelArtifact list go_map" where
  "listed_artifacts J k rm =
     (case callKubeflowREST J k (gets (rm_Id rm)) of Some (_, mas, _) \<Rightarrow> mas | None \<Rightarrow> [])"

lemma visit_models_artifacts:
  assumes "visit_models J k rms (r, mvm, mam) = Some (Inr (r', mvm', mam'))"
  shows "map_of mam' n =
        (case filter (same_name n) (filter rm_active rms) of
           [] \<Rightarrow> map_of mam n
         | xs \<Rightarrow> Some (listed_artifacts J k (last xs)))"
  using assms
proof (induction rms arbitrary: r mvm mam)
  case (Cons rm rms)
  from Cons.prems obtain r1 mvm1 mam1 where
      v: "visit_model J k rm (r, mvm, mam) = Some (Inr (r1, mvm1, mam1))"
    and rest: "visit_models J k rms (r1, mvm1, mam1) = Some (Inr (r', mvm', mam'))"
    by (auto split: option.splits sum.splits)
  have "mam1 = (if rm_active rm then AList.update (SanitizeName (rm_Name rm)) (listed_artifacts J k rm) mam else mam)"
  proof (cases "rm_active rm")
    case True
    from visit_model_artifacts [OF v this] show ?thesis
      using True by (auto simp: listed_artifacts_def gets_def)
  next
    case False
    with v show ?thesis by (simp add: visit_model_def rm_active_def)
  qed
  with Cons.IH [OF rest] show ?case by (auto simp: same_name_def split: list.splits)
qed simp

text \<open>What the artifacts of a version are: its own, or those listed under the model's id.\<close>

definition artifacts_of :: "openapi_json \<Rightarrow> KubeFlowRESTClientWrapper \<Rightarrow> string \<Rightarrow> string \<Rightarrow> ModelArtifact list" where
  "artifacts_of J k i vid =
     (case ListModelArtifacts J k vid of
        Inl err \<Rightarrow> []
      | Inr v \<Rightarrow> if slice v = [] then (case ListModelArtifacts J k i of Inl err \<Rightarrow> [] | Inr v \<Rightarrow> slice v) else slice v)"

lemma version_artifacts_lookup:
  "version_artifacts J k i mvs (fin, ma) = Some (vs, ma', None) \<Longrightarrow>
   map_of ma' vid = (if \<exists>mv \<in> set mvs. mv_active mv \<and> mv_Id mv = Some vid then Some (artifacts_of J k i vid)
                     else map_of ma vid)"
proof (induction J k i mvs "(fin, ma)" arbitrary: fin ma rule: version_artifacts.induct)
  case (2 J k i mv mvs fin ma)
  show ?case
  proof (cases "mv_active mv")
    case False
    with 2 show ?thesis by (auto simp: mv_active_def)
  next
    case True
    from True "2.prems" obtain mvId v where mvId: "mv_Id mv = Some mvId" and v: "ListModelArtifacts J k mvId = Inr v"
      by (auto simp: mv_active_def split: option.splits sum.splits)
    have rest: "version_artifacts J k i mvs (fin @ [mv], AList.update mvId (artifacts_of J k i mvId) ma) = Some (vs, ma', None)"
      using "2.prems" True mvId v
      by (auto simp: mv_active_def artifacts_of_def split: if_splits sum.splits)
    have "map_of ma' vid = (if \<exists>mv \<in> set mvs. mv_active mv \<and> mv_Id mv = Some vid then Some (artifacts_of J k i vid)
                     else map_of (AList.update mvId (artifacts_of J k i mvId) ma) vid)"
    proof (cases "slice v = []")
      case empty: True
      with rest "2.prems" True mvId v obtain w where w: "ListModelArtifacts J k i = Inr w"
        by (auto simp: mv_active_def split: sum.splits)
      then have "artifacts_of J k i mvId = slice w" using empty v by (simp add: artifacts_of_def)
      with "2.hyps"(2) [of mvId v w] rest True mvId v empty w show ?thesis by (auto simp: mv_active_def)
    next
      case False
      then have "artifacts_of J k i mvId = slice v" using v by (simp add: artifacts_of_def)
      with "2.hyps"(3) [of mvId v] rest True mvId v False show ?thesis by (auto simp: mv_active_def)
    qed
    with True mvId show ?thesis by auto
  qed
qed simp

lemma callKubeflowREST_artifacts:
  assumes "callKubeflowREST J k i = Some (vs, mas, None)"
  shows "map_of mas vid = (if \<exists>mv \<in> set vs. mv_Id mv = Some vid then Some (artifacts_of J k i vid) else None)"
proof -
  from assms obtain mvs where v: "version_artifacts J k i mvs ([], []) = Some (vs, mas, None)"
    by (auto simp: callKubeflowREST_def split: sum.splits)
  from version_artifacts_versions [OF v] version_artifacts_lookup [OF v, of vid] show ?thesis by auto
qed

section \<open>Lemmas on the document\<close>

definition kf_pop ::
    "string \<Rightarrow> string \<Rightarrow> RegisteredModel \<Rightarrow> ModelVersion \<Rightarrow> ModelArtifact list \<Rightarrow> KfInferenceService option
      \<Rightarrow> InferenceService option \<Rightarrow> KubeFlowRESTClientWrapper \<Rightarrow> cluster \<Rightarrow> KfmrPop" where
  "kf_pop owner lifecycle rm mv mas infsvc kis kfmr c =
     \<lparr>kf_Owner = owner, kf_Lifecycle = lifecycle, kf_RegisteredModel = rm, kf_ModelVersion = mv,
      kf_InferenceService = infsvc, kf_Kfmr = kfmr, kf_Kis = kis, kf_CtrlClient = Some c,
      kf_ModelArtifacts = mas\<rparr>"

text \<open>The KServe service that answers for the version, and the endpoint it gives.\<close>

definition kf_service :: "RegisteredModel \<Rightarrow> ModelVersion \<Rightarrow> InferenceService option \<Rightarrow> cluster \<Rightarrow> InferenceService option" where
  "kf_service rm mv kis c =
     (case kis of
        Some is \<Rightarrow> Some is
      | None \<Rightarrow> (case cl_List c [] of Inl err \<Rightarrow> None | Inr iss \<Rightarrow> find (kf_maps_to rm mv) iss))"

definition kf_endpoint :: "InferenceService option \<Rightarrow> cluster \<Rightarrow> string" where
  "kf_endpoint svc c = (case svc of None \<Rightarrow> '''' | Some is \<Rightarrow> ks_endpoint c is)"

definition kf_served :: "RegisteredModel \<Rightarrow> ModelVersion \<Rightarrow> KfInferenceService option \<Rightarrow> InferenceService option \<Rightarrow> bool" where
  "kf_served rm mv infsvc svc \<longleftrightarrow>
     (\<exists>is. svc = Some is \<and> kf_maps_to rm mv is)
     \<or> (mv_RegisteredModelId mv = gets (rm_Id rm)
        \<and> (\<exists>ki. infsvc = Some ki \<and> gets (mv_Id mv) = gets (ki_ModelVersionId ki)))"

lemma resolve_Kis_pop:
  "resolve_Kis (kf_pop own lc rm mv mas infsvc kis kfmr c)
   = kf_pop own lc rm mv mas infsvc (kf_service rm mv kis c) kfmr c"
  by (simp add: resolve_Kis_def kf_pop_def kf_service_def GetInferenceServerByRegModelModelVersionName_def Let_def
      split: option.split)

lemma kf_pop_sel:
  "kf_Kis (kf_pop own lc rm mv mas infsvc kis kfmr c) = kis"
  "kf_CtrlClient (kf_pop own lc rm mv mas infsvc kis kfmr c) = Some c"
  "kf_InferenceService (kf_pop own lc rm mv mas infsvc kis kfmr c) = infsvc"
  "kf_RegisteredModel (kf_pop own lc rm mv mas infsvc kis kfmr c) = rm"
  "kf_ModelVersion (kf_pop own lc rm mv mas infsvc kis kfmr c) = mv"
  by (simp_all add: kf_pop_def)

lemma kf_API_GetURL_pop:
  "\<exists>svc. kf_API_GetURL (kf_pop own lc rm mv mas infsvc kis kfmr c) = Some (kf_endpoint (kf_service rm mv kis c) c, svc)"
  by (auto simp: kf_API_GetURL_def resolve_Kis_pop kf_pop_sel kf_API_getFullSvcURL_def kf_endpoint_def
      ks_endpoint_def Let_def split: option.splits)

lemma kf_Server_GetAPI_pop:
  "\<exists>a. kf_Server_GetAPI (kf_pop own lc rm mv mas infsvc kis kfmr c) = Some a
     \<and> api_URL a = kf_endpoint (kf_service rm mv kis c) c"
  using kf_API_GetURL_pop [of own lc rm mv mas infsvc kis kfmr c] by (auto simp: kf_Server_GetAPI_def)

lemma kf_Server_GetAuthentication_pop:
  "\<exists>m. kf_Server_GetAuthentication (kf_pop own lc rm mv mas infsvc kis kfmr c)
     = Some ((case kf_service rm mv kis c of None \<Rightarrow> False | Some is \<Rightarrow> has_service_account c is), m)"
  by (auto simp: kf_Server_GetAuthentication_def resolve_Kis_pop kf_pop_sel Let_def split: option.splits)

lemma found_service_pop:
  "found_service (kf_pop own lc rm mv mas infsvc kis kfmr c) = kf_served rm mv infsvc kis"
  by (auto simp: found_service_def kf_served_def kf_pop_sel Let_def split: option.splits)

lemma kf_GetModelServer_pop:
  fixes own lc rm mv mas infsvc kis kfmr c
  defines "pop \<equiv> kf_pop own lc rm mv mas infsvc kis kfmr c"
    and "svc \<equiv> kf_service rm mv kis c"
  shows "\<exists>ms. kf_GetModelServer pop pop = Some ms
    \<and> (case ms of
         None \<Rightarrow> \<not> kf_served rm mv infsvc (if infsvc = None then svc else kis)
       | Some s \<Rightarrow> kf_served rm mv infsvc (if infsvc = None then svc else kis)
           \<and> map_option api_URL (ms_API s) = Some (kf_endpoint svc c)
           \<and> ms_Authentication s = Some (case svc of None \<Rightarrow> False | Some is \<Rightarrow> has_service_account c is))"
proof -
  obtain a where a: "kf_Server_GetAPI pop = Some a" "api_URL a = kf_endpoint svc c"
    using kf_Server_GetAPI_pop unfolding pop_def svc_def by blast
  obtain m where m: "kf_Server_GetAuthentication pop
      = Some ((case svc of None \<Rightarrow> False | Some is \<Rightarrow> has_service_account c is), m)"
    using kf_Server_GetAuthentication_pop unfolding pop_def svc_def by blast
  let ?kis = "if infsvc = None then svc else kis"
  have cat: "(if kf_InferenceService pop = None then resolve_Kis pop else pop)
      = kf_pop own lc rm mv mas infsvc ?kis kfmr c"
    unfolding pop_def svc_def by (simp add: kf_pop_sel resolve_Kis_pop)
  have none: "infsvc = None \<Longrightarrow> ?kis = None \<Longrightarrow> \<not> kf_served rm mv infsvc ?kis"
    by (simp add: kf_served_def)
  show ?thesis
  proof (cases "kf_served rm mv infsvc ?kis")
    case True
    then show ?thesis
      using none a m unfolding kf_GetModelServer_def Let_def cat found_service_pop kf_pop_sel by auto
  next
    case False
    then show ?thesis
      unfolding kf_GetModelServer_def Let_def cat found_service_pop kf_pop_sel by (auto simp: kf_served_def)
  qed
qed

section \<open>Properties\<close>

text \<open>
  C29. Every tag the schema populators give a model, its server and its API is one Backstage
  accepts: at most 63 bytes that match the tag pattern.
\<close>

theorem kfmr_tags_ok:
  "list_all tag_ok (kf_Model_GetTags m) \<and> list_all tag_ok (kf_Server_GetTags m) \<and> list_all tag_ok (kf_API_GetTags m)"
  by (simp add: kf_Model_GetTags_def kf_Server_GetTags_def kf_API_GetTags_def list_all_iff schema_tags_ok)

text \<open>
  The tags of the YAML entities match the pattern as well, but their length is only logged: a
  property whose key and value match becomes a tag however long the two are together.
\<close>

theorem component_tags_unbounded:
  assumes "rm_CustomProperties (kf_RegisteredModel pop) = Some props"
    and "(key, Some v) \<in> set props" and "tag_match key" and "tag_match v"
  shows "list_all tag_match (kf_Component_GetTags pop) \<and> key @ ''-'' @ v \<in> set (kf_Component_GetTags pop)"
  unfolding kf_Component_GetTags_def getm_def assms(1) option.case
  by (rule conjI [OF custom_prop_tags_match custom_prop_tags_member [OF assms(2-4)]])

definition example_rm :: RegisteredModel where
  "example_rm = \<lparr>rm_Id = Some ''1'', rm_Name = ''mnist'', rm_State = Some ''LIVE'', rm_Owner = Some ''jdoe'',
     rm_Description = Some ''digits'', rm_CustomProperties = Some [(''aaaa'', Some (replicate 60 CHR ''b''))],
     rm_LastUpdateTimeSinceEpoch = Some ''1700''\<rparr>"

definition example_mv :: ModelVersion where
  "example_mv = \<lparr>mv_Id = Some ''2'', mv_Name = ''v1'', mv_State = None, mv_RegisteredModelId = ''1'',
     mv_Description = Some ''first'', mv_CustomProperties = None, mv_LastUpdateTimeSinceEpoch = Some ''1800''\<rparr>"

definition example_kfmr :: "(http_request \<Rightarrow> string + http_response) \<Rightarrow> KubeFlowRESTClientWrapper" where
  "example_kfmr get = \<lparr>kw_RESTClient = get, kw_ServingClient = None, kw_RootRegistryURL = ''https://mr'',
     kw_RootCatalogURL = '''', kw_Token = ''t''\<rparr>"

definition empty_cluster :: cluster where
  "empty_cluster = \<lparr>cl_Get = \<lambda>_ _. Inl NotFound, cl_List = \<lambda>_. Inr [], cl_ServiceAccounts = \<lambda>_. Inr [],
     cl_Services = \<lambda>_. Inr []\<rparr>"

definition example_pop :: KfmrPop where
  "example_pop = kf_pop ''me'' ''dev'' example_rm example_mv [] None None (example_kfmr (\<lambda>_. Inl ''down'')) empty_cluster"

lemma tag_match_example: "tag_match ''aaaa'' \<and> tag_match (replicate 60 CHR ''b'')"
  by (simp add: tag_match_def go_split_no_sep list_all_iff tag_char_def is_lower_def less_eq_char_simp)

theorem component_tags_unbounded_witness:
  "\<exists>tag \<in> set (kf_Component_GetTags example_pop). length tag = 65"
proof -
  have props: "rm_CustomProperties (kf_RegisteredModel example_pop) = Some [(''aaaa'', Some (replicate 60 CHR ''b''))]"
    by (simp only: example_pop_def kf_pop_def example_rm_def KfmrPop.select_convs RegisteredModel.select_convs)
  have "''aaaa'' @ ''-'' @ replicate 60 CHR ''b'' \<in> set (kf_Component_GetTags example_pop)"
    using component_tags_unbounded [OF props list.set_intros(1)] tag_match_example by blast
  then show ?thesis by (rule rev_bexI) simp
qed

text \<open>
  A custom property of the model version wins over that of the registered model; a version
  that lacks it, or has it with a value that is not a string, leaves it to the model.
\<close>

theorem version_property_wins:
  "kf_prop m key =
    (case map_of (getm (mv_CustomProperties (kf_ModelVersion m))) key of
       Some (Some s) \<Rightarrow> Some s
     | _ \<Rightarrow> (case map_of (getm (rm_CustomProperties (kf_RegisteredModel m))) key of
               Some (Some s) \<Rightarrow> Some s
             | _ \<Rightarrow> None))"
  by (auto simp: kf_prop_def kf_commonGetStringPropVal_def innerGetStringPropVal_def getm_def Let_def
      split: option.splits)

text \<open>
  C32. The name of a model in the JSON document joins two valid names with a dash; the result is a
  valid entity name exactly if neither is empty and together they do not exceed 63 bytes.
\<close>

theorem model_name_ok_iff:
  "name_ok (kf_Model_GetName m) \<longleftrightarrow>
     SanitizeName (rm_Name (kf_RegisteredModel m)) \<noteq> []
     \<and> SanitizeModelVersion (mv_Name (kf_ModelVersion m)) \<noteq> []
     \<and> length (kf_Model_GetName m) \<le> 63"
proof -
  have "name_ok (SanitizeModelVersion mv)" for mv
    unfolding SanitizeModelVersion_def Let_def using name_ok_to_lower [OF SanitizeName_name_ok] by blast
  then show ?thesis
    unfolding kf_Model_GetName_def by (rule name_ok_join [OF SanitizeName_name_ok])
qed

text \<open>
  C33. In the JSON format a model version always gets a document of exactly one model.  It has a
  model server exactly if some inference service serves the version (the KServe service found by
  its labels, or the registry's service that names the version) and there is an endpoint; the
  server has that endpoint, and says whether a service account protects it.
\<close>

theorem kfmr_json_document:
  "\<exists>md ms. kf_CallBackstagePrinters J own lc rm mv mas infsvc kis kfmr c writer JsonArrayForamt
       = Some (writer @ [JsonDoc (marshal_ModelCatalog \<lparr>mcat_Models = [md], mcat_ModelServer = ms\<rparr>)])
     \<and> md_Name md = SanitizeName (rm_Name rm) @ ''-'' @ SanitizeModelVersion (mv_Name mv)
     \<and> (let svc = kf_service rm mv kis c;
            served = kf_served rm mv infsvc (if infsvc = None then svc else kis)
        in case ms of
             None \<Rightarrow> \<not> (served \<and> kf_endpoint svc c \<noteq> '''')
           | Some s \<Rightarrow> served \<and> kf_endpoint svc c \<noteq> '''' \<and> map_option api_URL (ms_API s) = Some (kf_endpoint svc c)
               \<and> ms_Authentication s = Some (case svc of None \<Rightarrow> False | Some is \<Rightarrow> has_service_account c is))"
proof -
  let ?pop = "kf_pop own lc rm mv mas infsvc kis kfmr c"
  let ?svc = "kf_service rm mv kis c"
  let ?served = "kf_served rm mv infsvc (if infsvc = None then ?svc else kis)"
  obtain md where md: "kf_GetModels ?pop = [md]" "md_Name md = SanitizeName (rm_Name rm) @ ''-'' @ SanitizeModelVersion (mv_Name mv)"
    by (simp add: kf_GetModels_def kf_Model_GetName_def kf_pop_sel)
  obtain ms where ms: "kf_GetModelServer ?pop ?pop = Some ms"
    and srv: "case ms of None \<Rightarrow> \<not> ?served
       | Some s \<Rightarrow> ?served \<and> map_option api_URL (ms_API s) = Some (kf_endpoint ?svc c)
           \<and> ms_Authentication s = Some (case ?svc of None \<Rightarrow> False | Some is \<Rightarrow> has_service_account c is)"
    using kf_GetModelServer_pop by blast
  have doc: "kf_CallBackstagePrinters J own lc rm mv mas infsvc kis kfmr c writer JsonArrayForamt
      = Some (writer @ [JsonDoc (marshal_ModelCatalog (print_catalog [md] ms))])"
    using ms md by (simp add: kf_CallBackstagePrinters_def kf_pop_def PrintModelCatalogPopulator_def)
  show ?thesis
  proof (rule exI [of _ md], rule exI [of _ "mcat_ModelServer (print_catalog [md] ms)"], intro conjI)
    show "kf_CallBackstagePrinters J own lc rm mv mas infsvc kis kfmr c writer JsonArrayForamt
        = Some (writer @ [JsonDoc (marshal_ModelCatalog \<lparr>mcat_Models = [md],
            mcat_ModelServer = mcat_ModelServer (print_catalog [md] ms)\<rparr>)])"
      unfolding doc by (simp add: print_catalog_def)
    show "md_Name md = SanitizeName (rm_Name rm) @ ''-'' @ SanitizeModelVersion (mv_Name mv)" by (rule md(2))
    show "let svc = ?svc; served = kf_served rm mv infsvc (if infsvc = None then svc else kis)
        in case mcat_ModelServer (print_catalog [md] ms) of
             None \<Rightarrow> \<not> (served \<and> kf_endpoint svc c \<noteq> '''')
           | Some s \<Rightarrow> served \<and> kf_endpoint svc c \<noteq> '''' \<and> map_option api_URL (ms_API s) = Some (kf_endpoint svc c)
               \<and> ms_Authentication s = Some (case svc of None \<Rightarrow> False | Some is \<Rightarrow> has_service_account c is)"
      using srv unfolding Let_def print_catalog_def
      by (cases ms; cases "ms_API (the ms)") auto
  qed
qed

text \<open>
  C34. A pass over the registry that ends without an error returns exactly the models that are not
  archived.  Under a model's sanitised name it returns the versions that are not archived, and the
  artifacts, of the last such model of that name: the model itself, unless two models collide.
\<close>

theorem LoopOverKFMR_contents:
  assumes "LoopOverKFMR J [] k = Some (Inr (rms, mvsMap, masMap))"
  shows "\<exists>listed. ListRegisteredModels J k = Inr listed \<and> rms = filter rm_active listed
    \<and> (\<forall>rm \<in> set rms. let n = SanitizeName (rm_Name rm); owner = last (filter (same_name n) rms)
         in map_of mvsMap n = Some (active_versions J k owner)
            \<and> map_of masMap n = Some (listed_artifacts J k owner))"
proof -
  from assms obtain listed where l: "ListRegisteredModels J k = Inr listed"
    and v: "visit_models J k listed ([], [], []) = Some (Inr (rms, mvsMap, masMap))"
    by (auto simp: LoopOverKFMR_def split: sum.splits)
  have rms: "rms = filter rm_active listed" using visit_models_contents [OF v] by simp
  have "map_of mvsMap n = Some (active_versions J k (last (filter (same_name n) rms)))
      \<and> map_of masMap n = Some (listed_artifacts J k (last (filter (same_name n) rms)))"
    if "rm \<in> set rms" and "n = SanitizeName (rm_Name rm)" for rm n
  proof -
    have "filter (same_name n) rms \<noteq> []" using that by (auto simp: filter_empty_conv same_name_def)
    then show ?thesis
      using visit_models_contents [OF v, of n] visit_models_artifacts [OF v, of n]
      unfolding rms [symmetric] by (cases "filter (same_name n) rms") simp_all
  qed
  with l rms show ?thesis by (auto simp: Let_def)
qed

definition example_ma :: ModelArtifact where
  "example_ma = \<lparr>ma_Id = Some ''3'', ma_Name = Some ''mnist-v1'', ma_Description = None,
     ma_Uri = Some ''s3://models/mnist'', ma_CustomProperties = None, ma_ModelSourceClass = None,
     ma_ModelSourceGroup = None, ma_ModelSourceName = None\<rparr>"

text \<open>A registry of a live and an archived model, each with a live and an archived version.\<close>

definition example_J :: openapi_json where
  "example_J =
     \<lparr>oj_RegisteredModelList = \<lambda>_. Inr [example_rm\<lparr>rm_Id := Some ''9'', rm_State := Some ''ARCHIVED''\<rparr>, example_rm],
      oj_RegisteredModel = \<lambda>_. Inr example_rm,
      oj_ModelVersionList = \<lambda>_. Inr [example_mv\<lparr>mv_Id := Some ''8'', mv_State := Some ''ARCHIVED''\<rparr>, example_mv],
      oj_ModelVersion = \<lambda>_. Inr example_mv,
      oj_ModelArtifactList = \<lambda>_. Inr (Some [example_ma]),
      oj_InferenceServiceList = \<lambda>_. Inr [],
      oj_ServingEnvironment = \<lambda>_. Inr \<lparr>se_Name = ''ds''\<rparr>,
      oj_CatalogModel_Readme = \<lambda>_. Inr None\<rparr>"

definition example_registry :: KubeFlowRESTClientWrapper where
  "example_registry = example_kfmr (\<lambda>_. Inr \<lparr>rs_status = 200, rs_body = RawPayload ''json''\<rparr>)"

lemma example_listing:
  "ListRegisteredModels example_J example_registry
     = Inr [example_rm\<lparr>rm_Id := Some ''9'', rm_State := Some ''ARCHIVED''\<rparr>, example_rm]"
  "ListModelVersions example_J example_registry i
     = Inr [example_mv\<lparr>mv_Id := Some ''8'', mv_State := Some ''ARCHIVED''\<rparr>, example_mv]"
  "ListModelArtifacts example_J example_registry i = Inr (Some [example_ma])"
  by (simp_all add: ListRegisteredModels_def ListModelVersions_def ListModelArtifacts_def get_and_decode_def
      getFromModelRegistry_def example_registry_def example_kfmr_def example_J_def)

lemma example_sel:
  "rm_Id example_rm = Some ''1''" "rm_State example_rm = Some ''LIVE''" "rm_Name example_rm = ''mnist''"
  "mv_Id example_mv = Some ''2''" "mv_State example_mv = None"
  by (simp_all add: example_rm_def example_mv_def)

lemma SanitizeName_mnist: "SanitizeName ''mnist'' = ''mnist''"
  by code_simp

lemma example_pass:
  "LoopOverKFMR example_J [] example_registry
   = Some (Inr ([example_rm], [(''mnist'', [example_mv])], [(''mnist'', [(''2'', [example_ma])])]))"
  by (simp add: LoopOverKFMR_def example_listing visit_model_def callKubeflowREST_def
      example_sel REGISTEREDMODELSTATE_ARCHIVED_def MODELVERSIONSTATE_ARCHIVED_def
      SanitizeName_mnist slice_def)

theorem LoopOverKFMR_contents_witness:
  "map_of [(''mnist'', [example_mv])] (SanitizeName (rm_Name example_rm))
     = Some (active_versions example_J example_registry example_rm)"
  using LoopOverKFMR_contents [OF example_pass] by (auto simp: same_name_def example_sel SanitizeName_mnist)

end
