(* ===== verification/Normalizer.thy ===== *)
theory Normalizer
  imports StorageClient Kfmr
begin

text \<open>
  The normaliser's controller, \<^verbatim>\<open>pkg/cmd/server/rhoai-normalizer/controller.go\<close>: the set-up of the
  model registries' clients, the reconciliation of one KServe inference service, and the periodic
  pass (\<open>innerStart\<close>) that reports every model version and then the set of current keys.

  Each call reads the environment, the cluster and the registries as one snapshot
  (\<open>NormalizerEnv\<close>); the reports go to the storage service through a transport on a world, so that
  \<open>StorageClient\<close>'s connection to the server model can be plugged in.  A buffer is the list of the
  documents printed to it, and \<open>render\<close> stands for their text, which libraries make.  A result
  \<^const>\<open>None\<close> is a panic.  Logging, leader election and the watch of the cluster are left out.
\<close>

section \<open>Environment and state\<close>

record Route =
  ro_Namespace :: string
  ro_Name :: string
  ro_Hosts :: "string list"

text \<open>The hosts of \<^verbatim>\<open>Status.Ingress\<close>; a list of routes is None where the code gets nil.\<close>

record NormalizerEnv =
  ne_getenv :: "string \<Rightarrow> string"
  ne_ListRoutes :: "string \<Rightarrow> Route list option"
  ne_GetRoute :: "string \<Rightarrow> string \<Rightarrow> string + Route"
  ne_cluster :: cluster
  ne_http :: "http_request \<Rightarrow> string + http_response"

record RHOAINormalizerReconcile =
  re_k8sToken :: string
  re_kfmrRegistryRoute :: "Route go_map"
  re_kfmrCatalogRoute :: "Route option"
  re_kfmr :: "KubeFlowRESTClientWrapper go_map"
  re_storage :: BridgeStorageRESTClient
  re_format :: NormalizerFormat
  re_defaultOwner :: string
  re_defaultLifecycle :: string

definition ModelRegistryRouteEnvVar :: string where "ModelRegistryRouteEnvVar = ''MR_ROUTE''"
definition FormatEnvVar :: string where "FormatEnvVar = ''NORMALIZER_FORMAT''"
definition ModelRegistryTokenEnvVar :: string where "ModelRegistryTokenEnvVar = ''KFMR_TOKEN''"
definition OwnerEnvVar :: string where "OwnerEnvVar = ''DEFAULT_OWNER''"
definition LifecycleEnvVar :: string where "LifecycleEnvVar = ''DEFAULT_LIFECYCLE''"
definition StorageUrlEnvVar :: string where "StorageUrlEnvVar = ''STORAGE_URL''"
definition PodIPEnvVar :: string where "PodIPEnvVar = ''POD_IP''"
definition registry_selector :: string where
  "registry_selector = ''app.kubernetes.io/managed-by=model-registry-operator''"

section \<open>Finding the registries\<close>

definition split_tuple :: "string \<Rightarrow> string \<times> string" where
  "split_tuple routeTuple =
     (let parts = go_split (CHR '':'') routeTuple
      in if length parts > 1 then (parts ! 0, parts ! 1) else ('''', parts ! 0))"

text \<open>
  The loop over the configured routes.  The variable \<open>err\<close> outlives an iteration: only a fetch from
  a namespace assigns it, and every iteration tests it.
\<close>

fun configured_routes ::
    "NormalizerEnv \<Rightarrow> string list \<Rightarrow> go_error \<Rightarrow> Route go_map \<Rightarrow> Route go_map" where
  "configured_routes env [] err routes = routes"
| "configured_routes env (routeTuple # tuples) err routes =
     (if length routeTuple = 0 then configured_routes env tuples err routes
      else (case split_tuple routeTuple of (ns, name) \<Rightarrow>
        if ns = ''''
        then (case ne_ListRoutes env '''' of
                None \<Rightarrow> configured_routes env tuples err routes
              | Some items \<Rightarrow>
                  (case find (\<lambda>route. ro_Name route = name) items of
                     None \<Rightarrow> configured_routes env tuples err routes
                   | Some route \<Rightarrow>
                       if err \<noteq> None then configured_routes env tuples err routes
                       else if length (ro_Hosts route) > 0
                       then configured_routes env tuples err (AList.update routeTuple route routes)
                       else configured_routes env tuples err routes))
        else (case ne_GetRoute env ns name of
                Inl e \<Rightarrow> configured_routes env tuples (Some e) routes
              | Inr route \<Rightarrow>
                  if length (ro_Hosts route) > 0
                  then configured_routes env tuples None (AList.update routeTuple route routes)
                  else configured_routes env tuples None routes)))"

fun labelled_routes ::
    "Route list \<Rightarrow> Route go_map \<times> Route option \<Rightarrow> Route go_map \<times> Route option" where
  "labelled_routes [] acc = acc"
| "labelled_routes (route # items) (routes, catalog) =
     (if contains (ro_Name route) ''catalog'' then labelled_routes items (routes, Some route)
      else labelled_routes items
             (AList.update (ro_Namespace route @ '':'' @ ro_Name route) route routes, catalog))"

text \<open>The clients of the routes that have none yet; \<^verbatim>\<open>Ingress[0]\<close> panics on a route without hosts.\<close>

fun registry_clients ::
    "NormalizerEnv \<Rightarrow> string \<Rightarrow> Route option \<Rightarrow> Route go_map \<Rightarrow> KubeFlowRESTClientWrapper go_map
      \<Rightarrow> KubeFlowRESTClientWrapper go_map option" where
  "registry_clients env token catalog [] kfmrs = Some kfmrs"
| "registry_clients env token catalog ((key, route) # routes) kfmrs =
     (if map_of kfmrs key \<noteq> None then registry_clients env token catalog routes kfmrs
      else if ro_Hosts route = [] \<or> (case catalog of None \<Rightarrow> False | Some c \<Rightarrow> ro_Hosts c = []) then None
      else registry_clients env token catalog routes
             (AList.update key
                \<lparr>kw_RESTClient = ne_http env, kw_ServingClient = None,
                 kw_RootRegistryURL = ''https://'' @ hd (ro_Hosts route) @ KFMR_BASE_URI,
                 kw_RootCatalogURL = (case catalog of None \<Rightarrow> ''''
                    | Some c \<Rightarrow> ''https://'' @ hd (ro_Hosts c) @ KRMR_CATALOG_BASE_URI),
                 kw_Token = token\<rparr> kfmrs))"

definition setupKFMR ::
    "NormalizerEnv \<Rightarrow> RHOAINormalizerReconcile \<Rightarrow> (bool \<times> RHOAINormalizerReconcile) option" where
  "setupKFMR env r =
     (if length (re_kfmr r) > 0 then Some (True, r)
      else
        let routeTuples = go_split (CHR '','') (ne_getenv env ModelRegistryRouteEnvVar);
            r = r\<lparr>re_kfmrRegistryRoute := configured_routes env routeTuples None (re_kfmrRegistryRoute r)\<rparr>;
            labelled = (if length (re_kfmrRegistryRoute r) = 0 then ne_ListRoutes env registry_selector else Some []);
            token = strip_crlf (ne_getenv env ModelRegistryTokenEnvVar);
            token = (if length token = 0 then re_k8sToken r else token)
        in if length (re_kfmrRegistryRoute r) = 0 \<and> (labelled = None \<or> labelled = Some []) then Some (False, r)
           else
             let (routes, catalog) = labelled_routes (slice labelled) (re_kfmrRegistryRoute r, re_kfmrCatalogRoute r);
                 r = r\<lparr>re_kfmrRegistryRoute := routes, re_kfmrCatalogRoute := catalog\<rparr>
             in map_option (\<lambda>kfmrs. (True, r\<lparr>re_kfmr := kfmrs\<rparr>))
                  (registry_clients env token catalog routes (re_kfmr r)))"

text \<open>
  The start of the controller: the format, owner and life cycle come from the environment with
  their defaults, the storage service runs beside it unless an address is given.
\<close>

definition storage_url :: "NormalizerEnv \<Rightarrow> string" where
  "storage_url env =
     (let storageURL = strip_crlf (ne_getenv env StorageUrlEnvVar)
      in if length storageURL = 0 then ''http://'' @ strip_crlf (ne_getenv env PodIPEnvVar) @ '':7070''
         else storageURL)"

definition normalizer_format :: "NormalizerEnv \<Rightarrow> NormalizerFormat" where
  "normalizer_format env =
     (let format = strip_crlf (ne_getenv env FormatEnvVar)
      in if format = JsonArrayForamt then format
         else if format = CatalogInfoYamlFormat then format
         else CatalogInfoYamlFormat)"

definition sanitized_default :: "string \<Rightarrow> string \<Rightarrow> string" where
  "sanitized_default v def = (let v = SanitizeName v in if length v = 0 then def else v)"

definition SetupController :: "NormalizerEnv \<Rightarrow> string \<Rightarrow> RHOAINormalizerReconcile option" where
  "SetupController env token =
     map_option snd (setupKFMR env
       \<lparr>re_k8sToken = token, re_kfmrRegistryRoute = [], re_kfmrCatalogRoute = None, re_kfmr = [],
        re_storage = SetupBridgeStorageRESTClient (storage_url env) token,
        re_format = normalizer_format env,
        re_defaultOwner = sanitized_default (ne_getenv env OwnerEnvVar) DefaultOwner,
        re_defaultLifecycle = sanitized_default (ne_getenv env LifecycleEnvVar) DefaultLifecycle\<rparr>)"

text \<open>The registries' clients reach the network of the current call.\<close>

definition registries :: "NormalizerEnv \<Rightarrow> RHOAINormalizerReconcile \<Rightarrow> KubeFlowRESTClientWrapper list" where
  "registries env r = map (\<lambda>(key, kfmr). kfmr\<lparr>kw_RESTClient := ne_http env\<rparr>) (re_kfmr r)"

section \<open>Reporting a document\<close>

definition processBWriter ::
    "(catalog_doc list \<Rightarrow> string) \<Rightarrow> 'w transport \<Rightarrow> RHOAINormalizerReconcile \<Rightarrow> catalog_doc list \<Rightarrow> string
      \<Rightarrow> string \<Rightarrow> string \<Rightarrow> string \<Rightarrow> string option \<Rightarrow> 'w \<Rightarrow> go_error \<times> 'w" where
  "processBWriter render send r buf importKey reconcilerType lastUpdateTimeSinceEpoch modelCardKey modelCard w =
     (case storage_UpsertModel send (re_storage r) importKey reconcilerType lastUpdateTimeSinceEpoch
             modelCardKey modelCard (Some (render buf)) w of
        ((httpRC, msg, Some err), w') \<Rightarrow> (Some err, w')
      | ((httpRC, msg, None), w') \<Rightarrow>
          (if httpRC \<noteq> StatusCreated \<and> httpRC \<noteq> StatusOK
           then Some (''post to storage returned rc '' @ show_nat httpRC) else None, w'))"

text \<open>The later of the two epochs, compared as strings.\<close>

definition latest_epoch :: "RegisteredModel \<Rightarrow> ModelVersion \<Rightarrow> string" where
  "latest_epoch rm mv =
     (if gets (rm_LastUpdateTimeSinceEpoch rm) > gets (mv_LastUpdateTimeSinceEpoch mv)
      then gets (rm_LastUpdateTimeSinceEpoch rm) else gets (mv_LastUpdateTimeSinceEpoch mv))"

text \<open>The model card of the first artifact whose card can be fetched, and its key.\<close>

fun first_model_card ::
    "openapi_json \<Rightarrow> KubeFlowRESTClientWrapper \<Rightarrow> (ModelArtifact \<Rightarrow> string) \<Rightarrow> ModelArtifact list
      \<Rightarrow> string option \<times> string" where
  "first_model_card J kfmr key [] = (None, '''')"
| "first_model_card J kfmr key (ma # mas) =
     (case GetModelCard J kfmr (gets (ma_ModelSourceClass ma)) (gets (ma_ModelSourceGroup ma))
             (gets (ma_ModelSourceName ma)) of
        Inl err \<Rightarrow> first_model_card J kfmr key mas
      | Inr modelCard \<Rightarrow> (modelCard, key ma))"

definition model_card ::
    "openapi_json \<Rightarrow> KubeFlowRESTClientWrapper \<Rightarrow> (ModelArtifact \<Rightarrow> string) \<Rightarrow> ModelArtifact list
      \<Rightarrow> string option \<times> string" where
  "model_card J kfmr key mas =
     (if length (kw_RootCatalogURL kfmr) > 0 then first_model_card J kfmr key mas else (None, ''''))"

definition version_key :: "RHOAINormalizerReconcile \<Rightarrow> RegisteredModel \<Rightarrow> ModelVersion \<Rightarrow> string" where
  "version_key r rm mv =
     fst (BuildImportKeyAndURI (SanitizeName (rm_Name rm)) (SanitizeName (mv_Name mv)) (re_format r))"

definition service_key :: "RHOAINormalizerReconcile \<Rightarrow> InferenceService \<Rightarrow> string" where
  "service_key r is =
     fst (BuildImportKeyAndURI (SanitizeName (is_Namespace is)) (SanitizeName (is_Name is)) (re_format r))"

section \<open>Reconciling an inference service\<close>

text \<open>
  What a match with the registry yields: the documents written, the import key, the epoch, the key
  of the model card and the card.  \<^const>\<open>None\<close> inside the panic option is no match.
\<close>

type_synonym kfmr_match = "catalog_doc list \<times> string \<times> string \<times> string \<times> string option"

definition report_match ::
    "openapi_json \<Rightarrow> RHOAINormalizerReconcile \<Rightarrow> cluster \<Rightarrow> KubeFlowRESTClientWrapper \<Rightarrow> (ModelArtifact \<Rightarrow> string)
      \<Rightarrow> RegisteredModel \<Rightarrow> ModelVersion \<Rightarrow> ModelArtifact list \<Rightarrow> KfInferenceService option \<Rightarrow> InferenceService
      \<Rightarrow> catalog_doc list \<Rightarrow> kfmr_match option option" where
  "report_match J r c kfmr cardKey rm mv mas kfmrIS is bwriter = do {
     docs \<leftarrow> kf_CallBackstagePrinters J (re_defaultOwner r) (re_defaultLifecycle r) rm mv mas kfmrIS (Some is)
               kfmr c bwriter (re_format r);
     let (modelCard, modelCardKey) = model_card J kfmr cardKey mas;
     Some (Some (docs, version_key r rm mv, latest_epoch rm mv, modelCardKey, modelCard)) }"

text \<open>The first case: no inference services in the registries, match by the labels of the KServe service.\<close>

fun match_versions ::
    "openapi_json \<Rightarrow> RHOAINormalizerReconcile \<Rightarrow> cluster \<Rightarrow> KubeFlowRESTClientWrapper \<Rightarrow> InferenceService
      \<Rightarrow> catalog_doc list \<Rightarrow> RegisteredModel \<Rightarrow> ModelVersion list \<Rightarrow> kfmr_match option option" where
  "match_versions J r c kfmr is bwriter rm [] = Some None"
| "match_versions J r c kfmr is bwriter rm (mv # mvs) =
     (if KServeInferenceServiceMapping (gets (rm_Id rm)) (gets (mv_Id mv)) (is_Labels is)
      then (case ListModelArtifacts J kfmr (gets (mv_Id mv)) of
              Inr (Some mas) \<Rightarrow> report_match J r c kfmr model_card_key rm mv mas None is bwriter
            | _ \<Rightarrow> match_versions J r c kfmr is bwriter rm mvs)
      else match_versions J r c kfmr is bwriter rm mvs)"

fun match_labels ::
    "openapi_json \<Rightarrow> RHOAINormalizerReconcile \<Rightarrow> cluster \<Rightarrow> KubeFlowRESTClientWrapper \<Rightarrow> InferenceService
      \<Rightarrow> catalog_doc list \<Rightarrow> RegisteredModel list \<Rightarrow> kfmr_match option option" where
  "match_labels J r c kfmr is bwriter [] = Some None"
| "match_labels J r c kfmr is bwriter (rm # rms) = do {
     found \<leftarrow> match_versions J r c kfmr is bwriter rm
               (case ListModelVersions J kfmr (gets (rm_Id rm)) of Inl err \<Rightarrow> [] | Inr mvs \<Rightarrow> mvs);
     (case found of
        Some m \<Rightarrow> Some (Some m)
      | None \<Rightarrow> match_labels J r c kfmr is bwriter rms) }"

text \<open>The second case: the registry's inference services of a model, by name prefix and environment.\<close>

definition raw_card_key :: "ModelArtifact \<Rightarrow> string" where
  "raw_card_key ma = gets (ma_ModelSourceGroup ma) @ gets (ma_ModelSourceName ma)"

fun match_services ::
    "openapi_json \<Rightarrow> RHOAINormalizerReconcile \<Rightarrow> cluster \<Rightarrow> KubeFlowRESTClientWrapper \<Rightarrow> InferenceService
      \<Rightarrow> catalog_doc list \<Rightarrow> RegisteredModel \<Rightarrow> string \<Rightarrow> KfInferenceService list \<Rightarrow> kfmr_match option option" where
  "match_services J r c kfmr is bwriter rm rmId [] = Some None"
| "match_services J r c kfmr is bwriter rm rmId (kfmrIS # kfmrISs) =
     (if ki_Id kfmrIS \<noteq> None \<and> ki_RegisteredModelId kfmrIS = rmId \<and> has_prefix (gets (ki_Name kfmrIS)) (is_Name is)
      then (case GetServingEnvironment J kfmr (ki_ServingEnvironmentId kfmrIS) of
              Inl err \<Rightarrow> match_services J r c kfmr is bwriter rm rmId kfmrISs
            | Inr se \<Rightarrow>
                if se_Name se = is_Namespace is
                then (case (GetModelVersions J kfmr (gets (ki_ModelVersionId kfmrIS)),
                            ListModelArtifacts J kfmr (gets (ki_ModelVersionId kfmrIS))) of
                        (Inr mv, Inr (Some mas)) \<Rightarrow>
                          report_match J r c kfmr raw_card_key rm mv mas (Some kfmrIS) is bwriter
                      | _ \<Rightarrow> match_services J r c kfmr is bwriter rm rmId kfmrISs)
                else match_services J r c kfmr is bwriter rm rmId kfmrISs)
      else match_services J r c kfmr is bwriter rm rmId kfmrISs)"

fun match_models ::
    "openapi_json \<Rightarrow> RHOAINormalizerReconcile \<Rightarrow> cluster \<Rightarrow> KubeFlowRESTClientWrapper \<Rightarrow> InferenceService
      \<Rightarrow> catalog_doc list \<Rightarrow> KfInferenceService list \<Rightarrow> RegisteredModel list \<Rightarrow> kfmr_match option option" where
  "match_models J r c kfmr is bwriter kfmrISs [] = Some None"
| "match_models J r c kfmr is bwriter kfmrISs (rm # rms) =
     (case rm_Id rm of
        None \<Rightarrow> match_models J r c kfmr is bwriter kfmrISs rms
      | Some rmId \<Rightarrow> do {
          found \<leftarrow> match_services J r c kfmr is bwriter rm rmId kfmrISs;
          (case found of
             Some m \<Rightarrow> Some (Some m)
           | None \<Rightarrow> match_models J r c kfmr is bwriter kfmrISs rms) })"

text \<open>The loop over the registries: models and services pile up from one registry to the next.\<close>

fun match_registries ::
    "openapi_json \<Rightarrow> RHOAINormalizerReconcile \<Rightarrow> cluster \<Rightarrow> InferenceService \<Rightarrow> catalog_doc list
      \<Rightarrow> RegisteredModel list \<Rightarrow> KfInferenceService list \<Rightarrow> KubeFlowRESTClientWrapper list \<Rightarrow> kfmr_match option option" where
  "match_registries J r c is bwriter kfmrRMs kfmrISs [] = Some None"
| "match_registries J r c is bwriter kfmrRMs kfmrISs (kfmr # kfmrs) =
     (case ListRegisteredModels J kfmr of
        Inl err \<Rightarrow> match_registries J r c is bwriter kfmrRMs kfmrISs kfmrs
      | Inr rms \<Rightarrow>
          let kfmrRMs = kfmrRMs @ rms;
              kfmrISs = kfmrISs @ (case ListInferenceServices J kfmr of Inl err \<Rightarrow> [] | Inr iss \<Rightarrow> iss)
          in do {
            found \<leftarrow> (if length kfmrISs = 0 then match_labels J r c kfmr is bwriter kfmrRMs else Some None);
            (case found of
               Some m \<Rightarrow> Some (Some m)
             | None \<Rightarrow> do {
                 found \<leftarrow> match_models J r c kfmr is bwriter kfmrISs kfmrRMs;
                 (case found of
                    Some m \<Rightarrow> Some (Some m)
                  | None \<Rightarrow> match_registries J r c is bwriter kfmrRMs kfmrISs kfmrs) }) })"

definition processKFMR ::
    "openapi_json \<Rightarrow> NormalizerEnv \<Rightarrow> RHOAINormalizerReconcile \<Rightarrow> InferenceService \<Rightarrow> catalog_doc list
      \<Rightarrow> (kfmr_match option \<times> RHOAINormalizerReconcile) option" where
  "processKFMR J env r is bwriter = do {
     (ready, r) \<leftarrow> setupKFMR env r;
     if \<not> ready then Some (None, r)
     else do {
       found \<leftarrow> match_registries J r (ne_cluster env) is bwriter [] [] (registries env r);
       Some (found, r) } }"

text \<open>The conditions for a service that no registry knows: reconciled only once it is functional.\<close>

definition watched_conditions :: "string list" where
  "watched_conditions = [''IngressReady'', ''PredictorReady'', ''Ready'']"

definition kserve_ready :: "InferenceService \<Rightarrow> bool" where
  "kserve_ready is \<longleftrightarrow>
     length (is_Conditions is) \<noteq> 0
     \<and> is_TransitionStatus is = ''UpToDate''
     \<and> list_all (\<lambda>(ctype, status). ctype \<in> set watched_conditions \<longrightarrow> status = ''True'') (is_Conditions is)
     \<and> is_URL is \<noteq> None"

section \<open>The pass over everything\<close>

text \<open>The error of the storage service is logged and returned; the documents stay in the buffer.\<close>

definition innerStartCallBackstagePrinters ::
    "openapi_json \<Rightarrow> (catalog_doc list \<Rightarrow> string) \<Rightarrow> 'w transport \<Rightarrow> cluster \<Rightarrow> RHOAINormalizerReconcile
      \<Rightarrow> KubeFlowRESTClientWrapper \<Rightarrow> RegisteredModel \<Rightarrow> ModelVersion \<Rightarrow> KfInferenceService option
      \<Rightarrow> InferenceService option \<Rightarrow> ModelArtifact list \<Rightarrow> catalog_doc list \<Rightarrow> string \<Rightarrow> string \<Rightarrow> 'w
      \<Rightarrow> (go_error \<times> catalog_doc list \<times> 'w) option" where
  "innerStartCallBackstagePrinters J render send c r kfmr rm mv infsvc is maa ebuf importKey lastUpdateTimeSinceEpoch w = do {
     ebuf \<leftarrow> kf_CallBackstagePrinters J (re_defaultOwner r) (re_defaultLifecycle r) rm mv maa infsvc is kfmr c
               ebuf (re_format r);
     let (modelCard, modelCardKey) = model_card J kfmr model_card_key maa;
     let (err, w) = processBWriter render send r ebuf importKey KubeflowNormalizer lastUpdateTimeSinceEpoch
                      modelCardKey modelCard w;
     Some (err, ebuf, w) }"

text \<open>The first deployed service of the registry that has a KServe service with its labels.\<close>

fun deployed_service ::
    "cluster \<Rightarrow> RegisteredModel \<Rightarrow> ModelVersion \<Rightarrow> KfInferenceService list
      \<Rightarrow> (KfInferenceService \<times> InferenceService) option" where
  "deployed_service c rm mv [] = None"
| "deployed_service c rm mv (kis # mvISL) =
     (if ki_DesiredState kis \<noteq> Some INFERENCESERVICESTATE_DEPLOYED then deployed_service c rm mv mvISL
      else (case cl_List c [(INF_SVC_RM_ID_LABEL, gets (rm_Id rm)), (INF_SVC_MV_ID_LABEL, gets (mv_Id mv)),
                            (INF_SVC_INF_SVC_ID_LABEL, gets (ki_Id kis))] of
              Inr (kserveIS # items) \<Rightarrow> Some (kis, kserveIS)
            | _ \<Rightarrow> deployed_service c rm mv mvISL))"

text \<open>
  The loops thread the keys collected, the flag \<^verbatim>\<open>foundKServe\<close> (declared once per model, not per
  version), the shared buffer if there is one, and the world.
\<close>

definition shares_buffer :: "RHOAINormalizerReconcile \<Rightarrow> catalog_doc list option \<Rightarrow> bool" where
  "shares_buffer r shared \<longleftrightarrow> re_format r = CatalogInfoYamlFormat \<and> shared \<noteq> None"

definition visit_version ::
    "openapi_json \<Rightarrow> (catalog_doc list \<Rightarrow> string) \<Rightarrow> 'w transport \<Rightarrow> cluster \<Rightarrow> RHOAINormalizerReconcile
      \<Rightarrow> KubeFlowRESTClientWrapper \<Rightarrow> RegisteredModel \<Rightarrow> ModelArtifact list go_map \<Rightarrow> ModelVersion
      \<Rightarrow> string list \<times> bool \<times> catalog_doc list option \<times> 'w
      \<Rightarrow> (string list \<times> bool \<times> catalog_doc list option \<times> 'w) option" where
  "visit_version J render send c r kfmr rm maa mv acc =
     (case acc of (keys, foundKServe, shared, w) \<Rightarrow>
        let importKey = version_key r rm mv;
            keys = keys @ [importKey];
            ebuf = (if shares_buffer r shared then slice shared else []);
            artifacts = (case map_of maa (gets (mv_Id mv)) of None \<Rightarrow> [] | Some mas \<Rightarrow> mas);
            report = (\<lambda>infsvc is. innerStartCallBackstagePrinters J render send c r kfmr rm mv infsvc is artifacts
                        ebuf importKey (latest_epoch rm mv) w);
            after = (\<lambda>foundKServe (err, ebuf, w).
                       (keys, foundKServe, if shares_buffer r shared then Some ebuf else shared, w))
        in case GetKubeFlowInferenceServicesForModelVersion J kfmr mv of
             Inl err \<Rightarrow> Some (keys, foundKServe, shared, w)
           | Inr mvISL \<Rightarrow>
               if length mvISL = 0 then map_option (after foundKServe) (report None None)
               else (case deployed_service c rm mv mvISL of
                       Some (kis, kserveIS) \<Rightarrow> map_option (after True) (report (Some kis) (Some kserveIS))
                     | None \<Rightarrow>
                         if \<not> foundKServe then map_option (after foundKServe) (report None None)
                         else Some (keys, foundKServe, shared, w)))"

fun visit_versions ::
    "openapi_json \<Rightarrow> (catalog_doc list \<Rightarrow> string) \<Rightarrow> 'w transport \<Rightarrow> cluster \<Rightarrow> RHOAINormalizerReconcile
      \<Rightarrow> KubeFlowRESTClientWrapper \<Rightarrow> RegisteredModel \<Rightarrow> ModelArtifact list go_map \<Rightarrow> ModelVersion list
      \<Rightarrow> string list \<times> bool \<times> catalog_doc list option \<times> 'w
      \<Rightarrow> (string list \<times> bool \<times> catalog_doc list option \<times> 'w) option" where
  "visit_versions J render send c r kfmr rm maa [] acc = Some acc"
| "visit_versions J render send c r kfmr rm maa (mv # mva) acc = do {
     acc \<leftarrow> visit_version J render send c r kfmr rm maa mv acc;
     visit_versions J render send c r kfmr rm maa mva acc }"

fun visit_rms ::
    "openapi_json \<Rightarrow> (catalog_doc list \<Rightarrow> string) \<Rightarrow> 'w transport \<Rightarrow> cluster \<Rightarrow> RHOAINormalizerReconcile
      \<Rightarrow> KubeFlowRESTClientWrapper \<Rightarrow> ModelVersion list go_map \<Rightarrow> ModelArtifact list go_map go_map
      \<Rightarrow> RegisteredModel list \<Rightarrow> string list \<times> catalog_doc list option \<times> 'w
      \<Rightarrow> (string list \<times> catalog_doc list option \<times> 'w) option" where
  "visit_rms J render send c r kfmr mvs mas [] acc = Some acc"
| "visit_rms J render send c r kfmr mvs mas (rm # rms) (keys, shared, w) =
     (case (map_of mvs (SanitizeName (rm_Name rm)), map_of mas (SanitizeName (rm_Name rm))) of
        (Some mva, Some maa) \<Rightarrow> do {
          (keys, foundKServe, shared, w) \<leftarrow> visit_versions J render send c r kfmr rm maa mva (keys, False, shared, w);
          visit_rms J render send c r kfmr mvs mas rms (keys, shared, w) }
      | _ \<Rightarrow> visit_rms J render send c r kfmr mvs mas rms (keys, shared, w))"

text \<open>The loop over the registries; an error of one ends the whole pass (the left summand).\<close>

fun visit_registries ::
    "openapi_json \<Rightarrow> (catalog_doc list \<Rightarrow> string) \<Rightarrow> 'w transport \<Rightarrow> cluster \<Rightarrow> RHOAINormalizerReconcile
      \<Rightarrow> KubeFlowRESTClientWrapper list \<Rightarrow> string list \<times> catalog_doc list option \<times> 'w
      \<Rightarrow> (('w) + (string list \<times> catalog_doc list option \<times> 'w)) option" where
  "visit_registries J render send c r [] acc = Some (Inr acc)"
| "visit_registries J render send c r (kfmr # kfmrs) (keys, shared, w) =
     (case LoopOverKFMR J [] kfmr of
        None \<Rightarrow> None
      | Some (Inl err) \<Rightarrow> Some (Inl w)
      | Some (Inr (rms, mvs, mas)) \<Rightarrow> do {
          acc \<leftarrow> visit_rms J render send c r kfmr mvs mas rms (keys, shared, w);
          visit_registries J render send c r kfmrs acc })"

text \<open>The keys of the services that no registry manages; a failing list counts as empty.\<close>

definition managed :: "RHOAINormalizerReconcile \<Rightarrow> InferenceService \<Rightarrow> bool" where
  "managed r is \<longleftrightarrow>
     (case is_Labels is of
        None \<Rightarrow> False
      | Some labels \<Rightarrow> length (re_kfmr r) > 0
          \<and> list_ex (\<lambda>(k, v). k = INF_SVC_MV_ID_LABEL \<or> k = INF_SVC_RM_ID_LABEL) labels)"

definition unmanaged_keys :: "cluster \<Rightarrow> RHOAINormalizerReconcile \<Rightarrow> string list" where
  "unmanaged_keys c r =
     (case cl_List c [] of
        Inl err \<Rightarrow> []
      | Inr items \<Rightarrow> map (service_key r) (filter (\<lambda>is. \<not> managed r is) items))"

definition innerStart ::
    "openapi_json \<Rightarrow> (catalog_doc list \<Rightarrow> string) \<Rightarrow> 'w transport \<Rightarrow> NormalizerEnv
      \<Rightarrow> catalog_doc list option \<Rightarrow> RHOAINormalizerReconcile \<Rightarrow> 'w \<Rightarrow> (RHOAINormalizerReconcile \<times> 'w) option" where
  "innerStart J render send env shared r w = do {
     (ready, r) \<leftarrow> setupKFMR env r;
     result \<leftarrow> visit_registries J render send (ne_cluster env) r (registries env r) ([], shared, w);
     (case result of
        Inl w \<Rightarrow> Some (r, w)
      | Inr (keys, shared, w) \<Rightarrow>
          Some (r, snd (PostCurrentKeySet send (re_storage r) (keys @ unmanaged_keys (ne_cluster env) r) w))) }"

text \<open>
  Reconciling one service: gone, it starts a pass; known to a registry, its version is reported;
  else it is reported by itself once it is ready.  The result is the request to be queued again
  and the error.
\<close>

definition Reconcile ::
    "openapi_json \<Rightarrow> (catalog_doc list \<Rightarrow> string) \<Rightarrow> (payload \<Rightarrow> string) \<Rightarrow> 'w transport \<Rightarrow> NormalizerEnv
      \<Rightarrow> string \<Rightarrow> string \<Rightarrow> RHOAINormalizerReconcile \<Rightarrow> 'w
      \<Rightarrow> ((bool \<times> go_error) \<times> RHOAINormalizerReconcile \<times> 'w) option" where
  "Reconcile J render indent send env namespace name r w =
     (case cl_Get (ne_cluster env) namespace name of
        Inl (K8sError e) \<Rightarrow> Some ((False, Some e), r, w)
      | Inl NotFound \<Rightarrow>
          map_option (\<lambda>(r, w). ((False, None), r, w)) (innerStart J render send env (Some []) r w)
      | Inr is \<Rightarrow> do {
          (found, r) \<leftarrow> (if length (re_kfmrRegistryRoute r) > 0 then processKFMR J env r is [] else Some (None, r));
          (case found of
             Some (docs, importKey, lastUpdateTimeSinceEpoch, modelCardKey, modelCard) \<Rightarrow>
               (case processBWriter render send r docs importKey KubeflowNormalizer lastUpdateTimeSinceEpoch
                       modelCardKey modelCard w of
                  (err, w) \<Rightarrow> Some ((False, err), r, w))
           | None \<Rightarrow>
               if \<not> kserve_ready is then Some ((True, None), r, w)
               else do {
                 docs \<leftarrow> ks_CallBackstagePrinters (ne_http env) indent (is_Namespace is) (re_defaultLifecycle r) is
                           (ne_cluster env) [] (re_format r);
                 (case processBWriter render send r docs (service_key r is) KServeNormalizer '''' '''' None w of
                    (err, w) \<Rightarrow> Some ((False, err), r, w)) }) })"

text \<open>
  The background loop: every tick starts a pass without a shared buffer, and a cancelled context
  leaves the loop going.  An ordinary return would be the right summand, a panic of a pass is the
  left one, and a loop that goes on for ever is \<^const>\<open>None\<close>.
\<close>

datatype start_event = Tick NormalizerEnv | Done

partial_function (option) Start ::
    "openapi_json \<Rightarrow> (catalog_doc list \<Rightarrow> string) \<Rightarrow> 'w transport \<Rightarrow> (nat \<Rightarrow> start_event) \<Rightarrow> nat
      \<Rightarrow> RHOAINormalizerReconcile \<times> 'w \<Rightarrow> (unit + go_error) option" where
  "Start J render send events n state =
     (case events n of
        Done \<Rightarrow> Start J render send events (Suc n) state
      | Tick env \<Rightarrow>
          (case innerStart J render send env None (fst state) (snd state) of
             None \<Rightarrow> Some (Inl ())
           | Some state \<Rightarrow> Start J render send events (Suc n) state))"

section \<open>The keys of a pass\<close>

lemma visit_version_keys:
  "visit_version J render send c r kfmr rm maa mv (keys, f, shared, w) = Some (keys', f', shared', w')
   \<Longrightarrow> keys' = keys @ [version_key r rm mv]"
  by (auto simp: visit_version_def Let_def split: sum.splits if_splits option.splits prod.splits)

lemma visit_versions_keys:
  "visit_versions J render send c r kfmr rm maa mva (keys, f, shared, w) = Some (keys', f', shared', w')
   \<Longrightarrow> keys' = keys @ map (version_key r rm) mva"
proof (induction mva arbitrary: keys f shared w)
  case (Cons mv mva)
  then obtain k1 f1 sh1 w1 where
      v: "visit_version J render send c r kfmr rm maa mv (keys, f, shared, w) = Some (k1, f1, sh1, w1)"
    and rest: "visit_versions J render send c r kfmr rm maa mva (k1, f1, sh1, w1) = Some (keys', f', shared', w')"
    by (auto simp: Option.bind_eq_Some_conv)
  from Cons.IH [OF rest] visit_version_keys [OF v] show ?case by simp
qed simp

definition models_keys :: "RHOAINormalizerReconcile \<Rightarrow> registry_contents \<Rightarrow> string list" where
  "models_keys r contents = (case contents of (rms, mvs, mas) \<Rightarrow>
     concat (map (\<lambda>rm. map (version_key r rm) (slice (map_of mvs (SanitizeName (rm_Name rm))))) rms))"

lemma visit_rms_keys:
  assumes "visit_rms J render send c r kfmr mvs mas rms (keys, shared, w) = Some (keys', shared', w')"
    and "\<forall>rm \<in> set rms. map_of mvs (SanitizeName (rm_Name rm)) \<noteq> None \<and> map_of mas (SanitizeName (rm_Name rm)) \<noteq> None"
  shows "keys' = keys @ models_keys r (rms, mvs, mas)"
  using assms
proof (induction rms arbitrary: keys shared w)
  case Nil
  then show ?case by (simp add: models_keys_def)
next
  case (Cons rm rms)
  then obtain mva maa where maps: "map_of mvs (SanitizeName (rm_Name rm)) = Some mva"
      "map_of mas (SanitizeName (rm_Name rm)) = Some maa"
    by auto
  with Cons.prems(1) obtain k1 f1 sh1 w1 where
      v: "visit_versions J render send c r kfmr rm maa mva (keys, False, shared, w) = Some (k1, f1, sh1, w1)"
    and rest: "visit_rms J render send c r kfmr mvs mas rms (k1, sh1, w1) = Some (keys', shared', w')"
    by (auto simp: Option.bind_eq_Some_conv)
  from Cons.IH [OF rest] Cons.prems(2) visit_versions_keys [OF v] maps show ?case
    by (simp add: models_keys_def slice_def)
qed

text \<open>
  The keys of a registry: a version of a model that is not archived, unless another model of the
  same sanitised name comes after it, gives its key.
\<close>

definition registry_keys :: "openapi_json \<Rightarrow> RHOAINormalizerReconcile \<Rightarrow> KubeFlowRESTClientWrapper \<Rightarrow> string list" where
  "registry_keys J r kfmr =
     (case LoopOverKFMR J [] kfmr of Some (Inr contents) \<Rightarrow> models_keys r contents | _ \<Rightarrow> [])"

lemma LoopOverKFMR_maps:
  assumes "LoopOverKFMR J [] kfmr = Some (Inr (rms, mvs, mas))" and "rm \<in> set rms"
  shows "map_of mvs (SanitizeName (rm_Name rm)) \<noteq> None \<and> map_of mas (SanitizeName (rm_Name rm)) \<noteq> None"
proof -
  from assms(1) obtain listed where v: "visit_models J kfmr listed ([], [], []) = Some (Inr (rms, mvs, mas))"
    by (auto simp: LoopOverKFMR_def split: sum.splits)
  have rms: "rms = filter rm_active listed" using visit_models_contents [OF v] by simp
  have "filter (same_name (SanitizeName (rm_Name rm))) rms \<noteq> []"
    using assms(2) by (auto simp: filter_empty_conv same_name_def)
  then show ?thesis
    using visit_models_contents [OF v, of "SanitizeName (rm_Name rm)"]
      visit_models_artifacts [OF v, of "SanitizeName (rm_Name rm)"]
    unfolding rms [symmetric] by (auto split: list.splits)
qed

lemma visit_registries_keys:
  "visit_registries J render send c r kfmrs (keys, shared, w) = Some (Inr (keys', shared', w')) \<Longrightarrow>
   keys' = keys @ concat (map (registry_keys J r) kfmrs)
   \<and> (\<forall>kfmr \<in> set kfmrs. \<exists>contents. LoopOverKFMR J [] kfmr = Some (Inr contents))"
proof (induction kfmrs arbitrary: keys shared w)
  case (Cons kfmr kfmrs)
  then obtain rms mvs mas where l: "LoopOverKFMR J [] kfmr = Some (Inr (rms, mvs, mas))"
    by (auto split: option.splits sum.splits)
  with Cons.prems obtain k1 sh1 w1 where
      v: "visit_rms J render send c r kfmr mvs mas rms (keys, shared, w) = Some (k1, sh1, w1)"
    and rest: "visit_registries J render send c r kfmrs (k1, sh1, w1) = Some (Inr (keys', shared', w'))"
    by (auto simp: Option.bind_eq_Some_conv)
  from visit_rms_keys [OF v] LoopOverKFMR_maps [OF l] have "k1 = keys @ registry_keys J r kfmr"
    by (simp add: registry_keys_def l)
  with Cons.IH [OF rest] l show ?case by simp
qed simp

section \<open>The pass and the storage service\<close>

text \<open>
  What a pass does to the storage service is the sequence of the reports it sends, so a relation
  that one report keeps is kept by every loop of the pass, for the keys the loop reports.
\<close>

context reporting
begin

lemma processBWriter_R:
  assumes "re_storage r = client" and "processBWriter render send r buf key ty ep ck mc w = (e, w')"
  shows "R {key} w w'"
  using assms by (auto simp: processBWriter_def split: prod.splits option.splits intro: R_report)

lemma report_R:
  assumes "re_storage r = client"
    and "innerStartCallBackstagePrinters J render send c r kfmr rm mv infsvc is maa ebuf key ep w = Some (e, ebuf', w')"
  shows "R {key} w w'"
proof -
  from assms(2) obtain docs where docs: "kf_CallBackstagePrinters J (re_defaultOwner r) (re_defaultLifecycle r)
      rm mv maa infsvc is kfmr c ebuf (re_format r) = Some docs"
    by (auto simp: innerStartCallBackstagePrinters_def Option.bind_eq_Some_conv)
  obtain mc mk where mc: "model_card J kfmr model_card_key maa = (mc, mk)" by fastforce
  obtain e0 w0 where p: "processBWriter render send r docs key KubeflowNormalizer ep mk mc w = (e0, w0)" by fastforce
  from assms(2) have "w0 = w'" by (simp add: innerStartCallBackstagePrinters_def docs mc p)
  with processBWriter_R [OF assms(1) p] show ?thesis by simp
qed

lemma visit_version_R:
  assumes "re_storage r = client"
    and "visit_version J render send c r kfmr rm maa mv (keys, f, shared, w) = Some (keys', f', shared', w')"
  shows "R {version_key r rm mv} w w'"
  using assms(2)
  by (auto simp: visit_version_def Let_def split: sum.splits if_splits option.splits prod.splits
      dest: report_R [OF assms(1)])

lemma visit_versions_R:
  assumes "re_storage r = client"
  shows "visit_versions J render send c r kfmr rm maa mva (keys, f, shared, w) = Some (keys', f', shared', w')
    \<Longrightarrow> R (set (map (version_key r rm) mva)) w w'"
proof (induction mva arbitrary: keys f shared w)
  case (Cons mv mva)
  then obtain k1 f1 sh1 w1 where
      v: "visit_version J render send c r kfmr rm maa mv (keys, f, shared, w) = Some (k1, f1, sh1, w1)"
    and rest: "visit_versions J render send c r kfmr rm maa mva (k1, f1, sh1, w1) = Some (keys', f', shared', w')"
    by (auto simp: Option.bind_eq_Some_conv)
  from R_trans [OF visit_version_R [OF assms v] Cons.IH [OF rest]] show ?case by simp
qed simp

lemma visit_rms_R:
  assumes "re_storage r = client"
  shows "visit_rms J render send c r kfmr mvs mas rms (keys, shared, w) = Some (keys', shared', w')
    \<Longrightarrow> R (set (models_keys r (rms, mvs, mas))) w w'"
proof (induction rms arbitrary: keys shared w)
  case (Cons rm rms)
  let ?n = "SanitizeName (rm_Name rm)"
  show ?case
  proof (cases "map_of mvs ?n = None \<or> map_of mas ?n = None")
    case True
    with Cons.prems have "visit_rms J render send c r kfmr mvs mas rms (keys, shared, w) = Some (keys', shared', w')"
      by (auto split: option.splits)
    from Cons.IH [OF this] show ?thesis by (rule R_mono) (simp add: models_keys_def)
  next
    case False
    then obtain mva maa where maps: "map_of mvs ?n = Some mva" "map_of mas ?n = Some maa" by auto
    with Cons.prems obtain k1 f1 sh1 w1 where
        v: "visit_versions J render send c r kfmr rm maa mva (keys, False, shared, w) = Some (k1, f1, sh1, w1)"
      and rest: "visit_rms J render send c r kfmr mvs mas rms (k1, sh1, w1) = Some (keys', shared', w')"
      by (auto simp: Option.bind_eq_Some_conv)
    from R_trans [OF visit_versions_R [OF assms v] Cons.IH [OF rest]] show ?thesis
      by (rule R_mono) (simp add: models_keys_def maps slice_def)
  qed
qed simp

lemma visit_registries_R:
  assumes "re_storage r = client"
  shows "visit_registries J render send c r kfmrs (keys, shared, w) = Some res
    \<Longrightarrow> R (set (concat (map (registry_keys J r) kfmrs))) w (case res of Inl w' \<Rightarrow> w' | Inr (_, _, w') \<Rightarrow> w')"
proof (induction kfmrs arbitrary: keys shared w)
  case (Cons kfmr kfmrs)
  show ?case
  proof (cases "\<exists>contents. LoopOverKFMR J [] kfmr = Some (Inr contents)")
    case False
    with Cons.prems show ?thesis by (auto split: option.splits sum.splits)
  next
    case True
    then obtain rms mvs mas where l: "LoopOverKFMR J [] kfmr = Some (Inr (rms, mvs, mas))" by auto
    with Cons.prems obtain k1 sh1 w1 where
        v: "visit_rms J render send c r kfmr mvs mas rms (keys, shared, w) = Some (k1, sh1, w1)"
      and rest: "visit_registries J render send c r kfmrs (k1, sh1, w1) = Some res"
      by (auto simp: Option.bind_eq_Some_conv)
    from R_trans [OF visit_rms_R [OF assms v] Cons.IH [OF rest]] show ?thesis
      by (simp add: registry_keys_def l)
  qed
qed auto

end

text \<open>The set-up leaves the storage client and the format alone.\<close>

lemma setupKFMR_keeps:
  "setupKFMR env r = Some (ready, r') \<Longrightarrow> re_storage r' = re_storage r \<and> re_format r' = re_format r
    \<and> re_defaultLifecycle r' = re_defaultLifecycle r"
  by (auto simp: setupKFMR_def Let_def split: if_splits prod.splits)

lemma processKFMR_keeps:
  "processKFMR J env r is docs = Some (found, r') \<Longrightarrow> re_storage r' = re_storage r \<and> re_format r' = re_format r
    \<and> re_defaultLifecycle r' = re_defaultLifecycle r"
  by (auto simp: processKFMR_def Option.bind_eq_Some_conv split: if_splits prod.splits dest: setupKFMR_keeps)

text \<open>An error of one registry is what ends a pass early.\<close>

lemma visit_registries_Inl:
  "visit_registries J render send c r kfmrs acc = Some (Inl w) \<Longrightarrow>
   \<exists>kfmr \<in> set kfmrs. \<exists>err. LoopOverKFMR J [] kfmr = Some (Inl err)"
proof (induction kfmrs arbitrary: acc)
  case (Cons kfmr kfmrs)
  then show ?case
    by (cases acc) (auto simp: Option.bind_eq_Some_conv split: option.splits sum.splits; blast)
qed simp

text \<open>What a reconciliation finds in the registries; none if no route is configured.\<close>

definition registry_match ::
    "openapi_json \<Rightarrow> NormalizerEnv \<Rightarrow> RHOAINormalizerReconcile \<Rightarrow> InferenceService
      \<Rightarrow> (kfmr_match option \<times> RHOAINormalizerReconcile) option" where
  "registry_match J env r is =
     (if length (re_kfmrRegistryRoute r) > 0 then processKFMR J env r is [] else Some (None, r))"

lemma registry_match_keeps:
  "registry_match J env r is = Some (found, r') \<Longrightarrow> re_storage r' = re_storage r \<and> re_format r' = re_format r
    \<and> re_defaultLifecycle r' = re_defaultLifecycle r"
  by (auto simp: registry_match_def split: if_splits dest: processKFMR_keeps)

lemma Reconcile_unmatched:
  assumes "cl_Get (ne_cluster env) namespace name = Inr is" and "registry_match J env r is = Some (None, r1)"
  shows "Reconcile J render indent send env namespace name r w =
    (if \<not> kserve_ready is then Some ((True, None), r1, w)
     else map_option (\<lambda>docs. let p = processBWriter render send r1 docs (service_key r1 is) KServeNormalizer '''' '''' None w
                             in ((False, fst p), r1, snd p))
            (ks_CallBackstagePrinters (ne_http env) indent (is_Namespace is) (re_defaultLifecycle r1) is (ne_cluster env) []
               (re_format r1)))"
  using assms
  by (auto simp: Reconcile_def registry_match_def map_option_case split_beta Let_def split: option.splits)

lemma innerStart_run:
  assumes "setupKFMR env r = Some (ready, r1)"
  shows "innerStart J render send env shared r w =
    map_option (\<lambda>res. (r1, case res of
        Inl w \<Rightarrow> w
      | Inr acc \<Rightarrow> snd (PostCurrentKeySet send (re_storage r1) (fst acc @ unmanaged_keys (ne_cluster env) r1) (snd (snd acc)))))
      (visit_registries J render send (ne_cluster env) r1 (registries env r1) ([], shared, w))"
  using assms by (auto simp: innerStart_def map_option_case split_beta split: option.splits sum.splits)

text \<open>The document of a service in each format.\<close>

definition service_document :: "string \<Rightarrow> string \<Rightarrow> InferenceService \<Rightarrow> cluster \<Rightarrow> catalog_doc list \<Rightarrow> bool" where
  "service_document own lc is c docs \<longleftrightarrow>
     (let pop = \<lparr>kp_Owner = own, kp_Lifecycle = lc, kp_InferSvc = Some is, kp_CtrlClient = Some c\<rparr>
      in \<exists>md server. ks_GetModels pop = Some [md] \<and> ks_GetModelServer pop = Some server
           \<and> md_Name md = ks_schema_name is \<and> md_Tags md = label_tags is
           \<and> map_option api_URL (ms_API server) = Some (ks_endpoint c is)
           \<and> docs = [JsonDoc (marshal_ModelCatalog
               \<lparr>mcat_Models = [md], mcat_ModelServer = (if ks_endpoint c is = [] then None else Some server)\<rparr>)])"

lemma ks_document:
  assumes "fmt = JsonArrayForamt \<or> fmt = CatalogInfoYamlFormat"
    and "ks_CallBackstagePrinters get indent own lc is c [] fmt = Some docs"
  shows "if fmt = JsonArrayForamt then service_document own lc is c docs else docs = []"
proof (cases "fmt = JsonArrayForamt")
  case True
  let ?pop = "\<lparr>kp_Owner = own, kp_Lifecycle = lc, kp_InferSvc = Some is, kp_CtrlClient = Some c\<rparr>"
  obtain md where md: "ks_GetModels ?pop = Some [md]" "md_Name md = ks_schema_name is" "md_Tags md = label_tags is"
    using ks_GetModels_Some by blast
  obtain server a where ms: "ks_GetModelServer ?pop = Some server" "ms_API server = Some a" "api_URL a = ks_endpoint c is"
    using ks_GetModelServer_Some by blast
  show ?thesis
    using assms(2) True md ms
    by (simp add: ks_CallBackstagePrinters_def PrintModelCatalogPopulator_def print_catalog_def service_document_def
        split: if_splits)
next
  case False
  with assms show ?thesis by (simp add: ks_CallBackstagePrinters_def CatalogInfoYamlFormat_def JsonArrayForamt_def)
qed

lemma processBWriter_ok:
  assumes "re_storage r = SetupBridgeStorageRESTClient host token" and "services_ok h nf s"
    and "CHR ''_'' \<notin> set m" and "CHR ''_'' \<notin> set v"
    and "processBWriter render (storage_link host (StorageService h t env bt nf push)) r docs
           (fst (BuildImportKeyAndURI m v nf')) ty ep ck mc s = (None, s')"
  shows "net_view (ss_locations s') (snd (BuildImportKeyAndURI m v nf)) = Some (render docs)
    \<and> (\<exists>b. cms_view (ss_st s') (fst (BuildImportKeyAndURI m v nf)) = Some b \<and> sb_Body b = Some (render docs)
           \<and> sb_ReconcilerType b = ty)
    \<and> (\<forall>k. k \<noteq> fst (BuildImportKeyAndURI m v nf) \<longrightarrow> cms_view (ss_st s') k = cms_view (ss_st s) k)"
proof -
  obtain rc body e where up: "storage_UpsertModel (storage_link host (StorageService h t env bt nf push))
      (SetupBridgeStorageRESTClient host token) (fst (BuildImportKeyAndURI m v nf')) ty ep ck mc (Some (render docs)) s
      = ((rc, body, e), s')" and "rc = StatusOK \<or> rc = StatusCreated"
    using assms(1,5) by (auto simp: processBWriter_def split: prod.splits option.splits if_splits)
  from reported_effect [OF assms(2-4) this] report_frame [OF assms(2) up] rekey_Build [OF assms(3,4)]
  show ?thesis by (metis fst_conv option.inject)
qed

section \<open>A pass in the JSON format does not panic\<close>

lemma kf_CallBackstagePrinters_json:
  "kf_CallBackstagePrinters J own lc rm mv mas infsvc kis kfmr c writer JsonArrayForamt \<noteq> None"
  using kf_GetModelServer_pop [of own lc rm mv mas infsvc kis kfmr c]
  by (auto simp: kf_CallBackstagePrinters_def kf_pop_def Let_def)

lemma report_json:
  "re_format r = JsonArrayForamt \<Longrightarrow>
   innerStartCallBackstagePrinters J render send c r kfmr rm mv infsvc is maa ebuf key ep w \<noteq> None"
  using kf_CallBackstagePrinters_json
    [of J "re_defaultOwner r" "re_defaultLifecycle r" rm mv maa infsvc "is" kfmr c ebuf]
  by (auto simp: innerStartCallBackstagePrinters_def split_beta Let_def)

lemma visit_version_json:
  "re_format r = JsonArrayForamt \<Longrightarrow> visit_version J render send c r kfmr rm maa mv acc \<noteq> None"
  by (cases acc) (simp del: not_None_eq add: report_json visit_version_def Let_def split: sum.split option.split)

lemma visit_versions_json:
  assumes "re_format r = JsonArrayForamt"
  shows "visit_versions J render send c r kfmr rm maa mva acc \<noteq> None"
proof (induction mva arbitrary: acc)
  case (Cons mv mva)
  obtain acc1 where "visit_version J render send c r kfmr rm maa mv acc = Some acc1"
    using visit_version_json [OF assms] by blast
  then show ?case by (simp only: visit_versions.simps bind.bind_lunit Cons.IH not_False_eq_True)
qed simp

lemma visit_rms_json:
  assumes "re_format r = JsonArrayForamt"
  shows "visit_rms J render send c r kfmr mvs mas rms acc \<noteq> None"
proof (induction rms arbitrary: acc)
  case (Cons rm rms)
  obtain keys shared w where acc: "acc = (keys, shared, w)" by (cases acc)
  have "Option.bind (visit_versions J render send c r kfmr rm maa mva (keys, False, shared, w))
      (\<lambda>(keys, f, shared, w). visit_rms J render send c r kfmr mvs mas rms (keys, shared, w)) \<noteq> None" for maa mva
    by (simp del: not_None_eq add: Option.bind_eq_None_conv split_beta visit_versions_json [OF assms] Cons.IH)
  with Cons.IH show ?case by (simp del: not_None_eq add: acc split: option.split)
qed simp

lemma visit_registries_json:
  assumes "re_format r = JsonArrayForamt" and "\<forall>kfmr \<in> set kfmrs. LoopOverKFMR J [] kfmr \<noteq> None"
  shows "visit_registries J render send c r kfmrs (keys, shared, w) \<noteq> None"
  using assms(2)
proof (induction kfmrs arbitrary: keys shared w)
  case (Cons kfmr kfmrs)
  have rest: "visit_registries J render send c r kfmrs acc \<noteq> None" for acc
    using Cons by (cases acc) (simp del: not_None_eq)
  have "Option.bind (visit_rms J render send c r kfmr mvs mas rms (keys, shared, w))
      (visit_registries J render send c r kfmrs) \<noteq> None" for mvs mas rms
    by (simp del: not_None_eq add: Option.bind_eq_None_conv visit_rms_json [OF assms(1)] rest)
  with Cons.prems show ?case by (simp del: not_None_eq split: option.split sum.split)
qed simp

lemma innerStart_json:
  assumes "setupKFMR env r = Some (ready, r1)" and "re_format r = JsonArrayForamt"
    and "\<forall>kfmr \<in> set (registries env r1). LoopOverKFMR J [] kfmr \<noteq> None"
  shows "innerStart J render send env shared r w \<noteq> None"
proof -
  have "re_format r1 = JsonArrayForamt" using setupKFMR_keeps [OF assms(1)] assms(2) by simp
  from visit_registries_json [OF this assms(3)] show ?thesis by (simp add: innerStart_run [OF assms(1)])
qed

section \<open>Properties\<close>

text \<open>
  The reconciliation of a service that no registry knows queues the request again exactly
  until the service is ready, and then sends nothing; once it is ready it sends one report, under
  the key of the service, and gives its error back.
\<close>

theorem Reconcile_waits_until_ready:
  assumes "cl_Get (ne_cluster env) namespace name = Inr is" and "registry_match J env r is = Some (None, r1)"
    and "Reconcile J render indent send env namespace name r w = Some ((requeue, err), r', w')"
  shows "requeue = (\<not> kserve_ready is) \<and> r' = r1
    \<and> (if requeue then err = None \<and> w' = w
       else \<exists>docs. (err, w') = processBWriter render send r1 docs (service_key r1 is) KServeNormalizer '''' '''' None w)"
  using assms(3) unfolding Reconcile_unmatched [OF assms(1,2)]
  by (auto simp: Let_def prod_eq_iff split: if_splits)

text \<open>
  C36. The reconciliation of a service the API still has and no registry knows, with names that have no
  underscore, when it ends without an error: if the service is not ready the request is queued again and nothing is sent.  If it is ready,
  the storage service has stored, and the location service serves at the URI of the service, exactly
  its document: in the JSON format the one model its populator gives, under its schema name and with
  the tags of its labels, and the model server of that populator if the service has an endpoint; in
  the YAML format the empty document, for the printer of that format prints nothing.  No other key
  of the store is touched.
\<close>

theorem reconciled_service_is_served:
  assumes "cl_Get (ne_cluster env) namespace name = Inr is" and "registry_match J env r is = Some (None, r1)"
    and "re_format r = JsonArrayForamt \<or> re_format r = CatalogInfoYamlFormat"
    and "re_storage r = SetupBridgeStorageRESTClient host token" and "services_ok h nf s"
    and "CHR ''_'' \<notin> set (SanitizeName (is_Namespace is))" and "CHR ''_'' \<notin> set (SanitizeName (is_Name is))"
    and "BuildImportKeyAndURI (SanitizeName (is_Namespace is)) (SanitizeName (is_Name is)) nf = (key, uri)"
    and "Reconcile J render indent (storage_link host (StorageService h t benv bt nf push)) env namespace name r s
           = Some ((requeue, None), r', s')"
  shows "requeue = (\<not> kserve_ready is)
    \<and> (if requeue then s' = s
       else \<exists>docs. net_view (ss_locations s') uri = Some (render docs)
          \<and> (\<exists>b. cms_view (ss_st s') key = Some b \<and> sb_Body b = Some (render docs) \<and> sb_ReconcilerType b = KServeNormalizer)
          \<and> (\<forall>k. k \<noteq> key \<longrightarrow> cms_view (ss_st s') k = cms_view (ss_st s) k)
          \<and> (if re_format r = JsonArrayForamt
             then service_document (is_Namespace is) (re_defaultLifecycle r) is (ne_cluster env) docs
             else docs = []))"
proof (cases "kserve_ready is")
  case False
  with assms(9) show ?thesis unfolding Reconcile_unmatched [OF assms(1,2)] by simp
next
  case True
  note keeps = registry_match_keeps [OF assms(2)]
  from assms(9) obtain docs where
      p: "ks_CallBackstagePrinters (ne_http env) indent (is_Namespace is) (re_defaultLifecycle r1) is (ne_cluster env) []
            (re_format r) = Some docs"
    and w: "processBWriter render (storage_link host (StorageService h t benv bt nf push)) r1 docs (service_key r1 is)
            KServeNormalizer '''' '''' None s = (None, s')"
    and requeue: "\<not> requeue"
    using True keeps unfolding Reconcile_unmatched [OF assms(1,2)]
    by (auto simp: Let_def prod_eq_iff)
  have "re_storage r1 = SetupBridgeStorageRESTClient host token" using assms(4) keeps by simp
  from processBWriter_ok [OF this assms(5-7) w [unfolded service_key_def]] ks_document [OF assms(3) p] True requeue keeps
  show ?thesis by (auto simp: assms(8))
qed

text \<open>
  A pass in which every registry can be read ends by posting a key set: the keys of the
  versions that are not archived, of every registry, and of the services that none manages.
\<close>

theorem pass_posts_every_key:
  assumes "setupKFMR env r = Some (ready, r1)"
    and "\<forall>kfmr \<in> set (registries env r1). \<exists>contents. LoopOverKFMR J [] kfmr = Some (Inr contents)"
    and "innerStart J render send env shared r w = Some (r', w')"
  shows "r' = r1 \<and> (\<exists>w1. w' = snd (PostCurrentKeySet send (re_storage r1)
      (concat (map (registry_keys J r1) (registries env r1)) @ unmanaged_keys (ne_cluster env) r1) w1))"
proof -
  from assms(3) obtain res where
      v: "visit_registries J render send (ne_cluster env) r1 (registries env r1) ([], shared, w) = Some res"
    and res: "r' = r1" "w' = (case res of Inl w \<Rightarrow> w
      | Inr acc \<Rightarrow> snd (PostCurrentKeySet send (re_storage r1) (fst acc @ unmanaged_keys (ne_cluster env) r1) (snd (snd acc))))"
    by (auto simp: innerStart_run [OF assms(1)])
  show ?thesis
  proof (cases res)
    case (Inl w1)
    with visit_registries_Inl [of J render send] v assms(2) show ?thesis by fastforce
  next
    case (Inr x)
    obtain keys sh w1 where x: "x = (keys, sh, w1)" by (cases x)
    from visit_registries_keys [of J render send] v Inr x
    have "keys = concat (map (registry_keys J r1) (registries env r1))" by fastforce
    with res Inr x show ?thesis by auto
  qed
qed

text \<open>
  C38. A pass that meets a registry it cannot read purges nothing: an entry of the store that is
  not the entry of a version of a registry that can be read is as it was, whatever the network lost.
\<close>

theorem failed_pass_purges_nothing:
  assumes "setupKFMR env r = Some (ready, r1)" and "re_storage r = SetupBridgeStorageRESTClient host token"
    and "kfmr \<in> set (registries env r1)" and "LoopOverKFMR J [] kfmr = Some (Inl err)"
    and "services_ok h nf s"
    and "innerStart J render (storage_link host (StorageService h t benv bt nf push)) env shared r s = Some (r', s')"
    and "\<forall>key \<in> set (concat (map (registry_keys J r1) (registries env r1))). \<forall>uri. rekey nf key \<noteq> Some (k, uri)"
  shows "cms_view (ss_st s') k = cms_view (ss_st s) k"
proof -
  let ?send = "storage_link host (StorageService h t benv bt nf push)"
  have st: "re_storage r1 = SetupBridgeStorageRESTClient host token" using assms(2) setupKFMR_keeps [OF assms(1)] by simp
  from assms(6) obtain res where
      v: "visit_registries J render ?send (ne_cluster env) r1 (registries env r1) ([], shared, s) = Some res"
    and res: "s' = (case res of Inl w \<Rightarrow> w
      | Inr acc \<Rightarrow> snd (PostCurrentKeySet ?send (re_storage r1) (fst acc @ unmanaged_keys (ne_cluster env) r1) (snd (snd acc))))"
    by (auto simp: innerStart_run [OF assms(1)])
  obtain s1 where "res = Inl s1"
  proof (cases res)
    case (Inr x)
    obtain keys sh w1 where x: "x = (keys, sh, w1)" by (cases x)
    from visit_registries_keys [of J render ?send] v Inr x assms(3,4) show ?thesis by fastforce
  qed
  with touching.visit_registries_R [OF st v] res assms(5,7) show ?thesis by (simp add: touches_def)
qed

text \<open>
  C39. A pass that cannot list the inference services posts its key set all the same.  When there is no
  registry client the set is empty, and when the storage service answers it with 200, everything is purged.
\<close>

theorem failed_list_purges_everything:
  assumes "setupKFMR env r = Some (ready, r1)" and "re_storage r = SetupBridgeStorageRESTClient host token"
    and "re_kfmr r1 = []" and "cl_List (ne_cluster env) [] = Inl err"
    and "services_ok h nf s"
    and "innerStart J render (storage_link host (StorageService h t benv bt nf push)) env shared r s = Some (r', s')"
    and "fst (PostCurrentKeySet (storage_link host (StorageService h t benv bt nf push))
           (SetupBridgeStorageRESTClient host token) [] s) = (StatusOK, e)"
  shows "dom (cms_view (ss_st s')) = {}"
proof -
  let ?send = "storage_link host (StorageService h t benv bt nf push)"
  have "re_storage r1 = SetupBridgeStorageRESTClient host token" using assms(2) setupKFMR_keeps [OF assms(1)] by simp
  then have "s' = snd (PostCurrentKeySet ?send (SetupBridgeStorageRESTClient host token) [] s)"
    using assms(6) by (simp add: innerStart_run [OF assms(1)] assms(3,4) registries_def unmanaged_keys_def)
  then have "PostCurrentKeySet ?send (SetupBridgeStorageRESTClient host token) [] s = ((StatusOK, e), s')"
    using assms(7) by (simp add: prod_eq_iff)
  from key_set_effect [OF assms(5) _ _ this] show ?thesis by simp
qed

text \<open>The state after the first \<open>k\<close> events from the \<open>n\<close>th; \<^const>\<open>None\<close> after a pass that panics.\<close>

fun passes ::
    "openapi_json \<Rightarrow> (catalog_doc list \<Rightarrow> string) \<Rightarrow> 'w transport \<Rightarrow> (nat \<Rightarrow> start_event) \<Rightarrow> nat \<Rightarrow> nat
      \<Rightarrow> RHOAINormalizerReconcile \<times> 'w \<Rightarrow> (RHOAINormalizerReconcile \<times> 'w) option" where
  "passes J render send events n 0 state = Some state"
| "passes J render send events n (Suc k) state =
     (case events n of
        Done \<Rightarrow> passes J render send events (Suc n) k state
      | Tick env \<Rightarrow>
          Option.bind (innerStart J render send env None (fst state) (snd state))
            (passes J render send events (Suc n) k))"

lemma Start_raw:
  assumes "Start J render send events n state = Some y"
  shows "y = Inl () \<and> (\<exists>k. passes J render send events n k state = None)"
  using assms
proof (rule Start.raw_induct [rotated])
  fix self :: "openapi_json \<Rightarrow> (catalog_doc list \<Rightarrow> string) \<Rightarrow> 'a transport \<Rightarrow> (nat \<Rightarrow> start_event) \<Rightarrow> nat
      \<Rightarrow> RHOAINormalizerReconcile \<times> 'a \<Rightarrow> (unit + go_error) option"
    and J render and send :: "'a transport" and events n and state :: "RHOAINormalizerReconcile \<times> 'a" and y
  assume IH: "\<And>J render send events n state y. self J render send events n state = Some y \<Longrightarrow>
      y = Inl () \<and> (\<exists>k. passes J render send events n k state = None)"
    and step: "(case events n of
        Tick env \<Rightarrow>
          (case innerStart J render send env None (fst state) (snd state) of
             None \<Rightarrow> Some (Inl ())
           | Some state \<Rightarrow> self J render send events (Suc n) state)
      | Done \<Rightarrow> self J render send events (Suc n) state) = Some y"
  have later: "\<exists>k. passes J render send events n k state = None"
    if "passes J render send events n (Suc k) state = None" for k
    using that by blast
  show "y = Inl () \<and> (\<exists>k. passes J render send events n k state = None)"
  proof (cases "events n")
    case Done
    with step IH obtain k where "y = Inl ()" "passes J render send events (Suc n) k state = None" by fastforce
    with later [of k] Done show ?thesis by simp
  next
    case (Tick env)
    show ?thesis
    proof (cases "innerStart J render send env None (fst state) (snd state)")
      case None
      with step Tick later [of 0] show ?thesis by simp
    next
      case (Some state1)
      with step Tick IH obtain k where "y = Inl ()" "passes J render send events (Suc n) k state1 = None" by fastforce
      with later [of k] Tick Some show ?thesis by simp
    qed
  qed
qed

lemma passes_panic:
  "passes J render send events n k state = None \<Longrightarrow> Start J render send events n state = Some (Inl ())"
proof (induction k arbitrary: n state)
  case (Suc k)
  then show ?case
    by (subst Start.simps) (auto split: start_event.splits option.splits simp: Option.bind_eq_None_conv)
qed simp

text \<open>
  C40. \<open>Start\<close> never returns, not even after its context is done, for the select's empty case leaves
  the loop going: it runs a pass at every tick for ever, or until one panics.
\<close>

theorem Start_never_returns:
  "Start J render send events n state
   = (if \<exists>k. passes J render send events n k state = None then Some (Inl ()) else None)"
proof (cases "Start J render send events n state")
  case None
  have "passes J render send events n k state \<noteq> None" for k
  proof
    assume "passes J render send events n k state = None"
    from passes_panic [OF this] None show False by simp
  qed
  with None show ?thesis by simp
next
  case (Some y)
  from Start_raw [OF this] Some show ?thesis by simp
qed


section \<open>The properties at concrete inputs\<close>

definition example_cluster :: "InferenceService \<Rightarrow> cluster" where
  "example_cluster is = \<lparr>cl_Get = \<lambda>_ _. Inr is, cl_List = \<lambda>selector. Inr (if selector = [] then [is] else []),
     cl_ServiceAccounts = \<lambda>_. Inr [], cl_Services = \<lambda>_. Inr []\<rparr>"

definition quiet_env :: "cluster \<Rightarrow> NormalizerEnv" where
  "quiet_env c = \<lparr>ne_getenv = \<lambda>_. '''', ne_ListRoutes = \<lambda>_. None, ne_GetRoute = \<lambda>_ _. Inl ''no route'',
     ne_cluster = c, ne_http = \<lambda>_. Inl ''down''\<rparr>"

definition example_reconciler :: "KubeFlowRESTClientWrapper go_map \<Rightarrow> RHOAINormalizerReconcile" where
  "example_reconciler kfmrs = \<lparr>re_k8sToken = '''', re_kfmrRegistryRoute = [], re_kfmrCatalogRoute = None,
     re_kfmr = kfmrs, re_storage = SetupBridgeStorageRESTClient ''http://s'' '''', re_format = JsonArrayForamt,
     re_defaultOwner = ''me'', re_defaultLifecycle = ''dev''\<rparr>"

definition example_render :: "catalog_doc list \<Rightarrow> string" where
  "example_render docs = (if docs = [] then [] else ''doc'')"

text \<open>A transport that records the requests and answers 200.\<close>

definition recorder :: "http_request list transport" where
  "recorder rq rqs = (Inr \<lparr>rs_status = StatusOK, rs_body = NoPayload\<rparr>, rqs @ [rq])"

lemma example_unmatched:
  "registry_match J env (example_reconciler kfmrs) is = Some (None, example_reconciler kfmrs)"
  by (simp add: registry_match_def example_reconciler_def)

lemma example_get: "cl_Get (ne_cluster (quiet_env (example_cluster is))) ns n = Inr is"
  by (simp add: quiet_env_def example_cluster_def)

theorem Reconcile_waits_until_ready_witness:
  "let is = example_is\<lparr>is_URL := None\<rparr>;
       r = example_reconciler []
   in Reconcile example_J example_render (\<lambda>_. []) recorder (quiet_env (example_cluster is)) ''ds'' ''mnist'' r []
      = Some ((True, None), r, [])"
proof -
  let ?is = "example_is\<lparr>is_URL := None\<rparr>"
  let ?r = "example_reconciler []"
  have nr: "\<not> kserve_ready ?is" by (simp add: kserve_ready_def)
  obtain rq e r' w' where run: "Reconcile example_J example_render (\<lambda>_. []) recorder (quiet_env (example_cluster ?is)) ''ds'' ''mnist''
      ?r [] = Some ((rq, e), r', w')"
    using nr by (simp add: Reconcile_unmatched [OF example_get example_unmatched])
  from Reconcile_waits_until_ready [OF example_get example_unmatched run] nr run show ?thesis by (simp add: Let_def)
qed

lemma example_is_ready: "kserve_ready example_is"
  by (simp add: kserve_ready_def example_is_def watched_conditions_def)

theorem reconciled_service_is_served_witness:
  "\<exists>s'. net_view (ss_locations s') ''/ds/mnist/model-catalog.json'' = Some ''doc''
     \<and> map_option (snd \<circ> snd) (Reconcile example_J example_render (\<lambda>_. []) (storage_link ''http://s'' example_service)
           (quiet_env (example_cluster example_is)) ''ds'' ''mnist'' (example_reconciler []) (example_server [])) = Some s'"
proof -
  let ?run = "Reconcile example_J example_render (\<lambda>_. []) (storage_link ''http://s'' example_service)
           (quiet_env (example_cluster example_is)) ''ds'' ''mnist'' (example_reconciler []) (example_server [])"
  have "map_option fst ?run = Some (False, None)" by code_simp
  then obtain r' s' where run: "?run = Some ((False, None), r', s')" by auto
  have names: "SanitizeName (is_Namespace example_is) = ''ds''" "SanitizeName (is_Name example_is) = ''mnist''"
    by code_simp+
  have uri: "BuildImportKeyAndURI ''ds'' ''mnist'' JsonArrayForamt = (''ds_mnist'', ''/ds/mnist/model-catalog.json'')"
    by code_simp
  have r: "re_format (example_reconciler []) = JsonArrayForamt"
    "re_storage (example_reconciler []) = SetupBridgeStorageRESTClient ''http://s'' ''''"
    by (simp_all add: example_reconciler_def)
  have "\<exists>docs. net_view (ss_locations s') ''/ds/mnist/model-catalog.json'' = Some (example_render docs)
      \<and> service_document ''ds'' ''dev'' example_is (example_cluster example_is) docs"
  proof -
    have fmt: "re_format (example_reconciler []) = JsonArrayForamt \<or> re_format (example_reconciler []) = CatalogInfoYamlFormat"
      using r(1) by simp
    have plain: "CHR ''_'' \<notin> set (SanitizeName (is_Namespace example_is))" "CHR ''_'' \<notin> set (SanitizeName (is_Name example_is))"
      by (simp_all add: names)
    from reconciled_service_is_served [where t = "''''" and benv = example_env and bt = "''''" and push = True,
      OF example_get example_unmatched fmt r(2) services_ok_example plain uri [folded names],
      folded example_service_def, OF run] r(1) example_is_ready
    show ?thesis by (auto simp: quiet_env_def example_reconciler_def example_is_def)
  qed
  moreover have "example_render docs = ''doc''" if "service_document ''ds'' ''dev'' example_is (example_cluster example_is) docs" for docs
    using that by (auto simp: service_document_def Let_def example_render_def)
  ultimately show ?thesis using run by force
qed

definition live_env :: "cluster \<Rightarrow> NormalizerEnv" where
  "live_env c = (quiet_env c)\<lparr>ne_http := \<lambda>_. Inr \<lparr>rs_status = 200, rs_body = RawPayload ''json''\<rparr>\<rparr>"

lemma example_setup:
  "setupKFMR env (example_reconciler [(''k'', example_registry)])
     = Some (True, example_reconciler [(''k'', example_registry)])"
  by (simp add: setupKFMR_def example_reconciler_def)

lemma example_registries:
  "registries (live_env c) (example_reconciler [(''k'', example_registry)]) = [example_registry]"
  by (simp add: registries_def example_reconciler_def live_env_def example_registry_def example_kfmr_def)

theorem pass_posts_every_key_witness:
  "\<exists>w1. map_option snd (innerStart example_J example_render recorder (live_env (example_cluster example_is)) None
            (example_reconciler [(''k'', example_registry)]) [])
     = Some (snd (PostCurrentKeySet recorder (SetupBridgeStorageRESTClient ''http://s'' '''')
                    [''mnist_v1'', ''ds_mnist''] w1))"
proof -
  let ?r = "example_reconciler [(''k'', example_registry)]" and ?env = "live_env (example_cluster example_is)"
  let ?run = "innerStart example_J example_render recorder ?env None ?r []"
  have read: "\<forall>kfmr \<in> set (registries ?env ?r). \<exists>contents. LoopOverKFMR example_J [] kfmr = Some (Inr contents)"
    by (simp add: example_registries example_pass)
  have fmt: "re_format ?r = JsonArrayForamt" by (simp add: example_reconciler_def)
  have "?run \<noteq> None" by (rule innerStart_json [OF example_setup fmt]) (simp add: example_registries example_pass)
  then obtain r' w' where run: "?run = Some (r', w')" by auto
  have "registry_keys example_J ?r example_registry = [''mnist_v1'']" by code_simp
  moreover have "unmanaged_keys (ne_cluster ?env) ?r = [''ds_mnist'']" by code_simp
  moreover have "re_storage ?r = SetupBridgeStorageRESTClient ''http://s'' ''''" by (simp add: example_reconciler_def)
  ultimately show ?thesis
    using pass_posts_every_key [OF example_setup read run] run by (auto simp: example_registries)
qed

text \<open>A storage service with one model stored.\<close>

definition stocked_server :: "(mem_world ConfigMapBridgeStorage, location_net, nat) StorageRESTServer" where
  "stocked_server = (example_server [])\<lparr>ss_st := snd (cms_Upsert ''a_v1'' (example_body ''7'') (mem_store [] 5))\<rparr>"

lemma stocked_server_ok: "services_ok example_host JsonArrayForamt stocked_server"
proof -
  have "cms_ok (snd (cms_Upsert ''a_v1'' (example_body ''7'') (mem_store [] 5)))"
    using cms_Upsert_effect [OF cms_ok_mem_store] by (metis prod.collapse)
  then show ?thesis
    using services_ok_example [of "[]"] by (simp add: services_ok_def stocked_server_def)
qed

theorem failed_pass_purges_nothing_witness:
  "\<exists>s'. map_option snd (innerStart example_J example_render (storage_link ''http://s'' example_service)
            (quiet_env empty_cluster) None (example_reconciler [(''k'', example_registry)]) stocked_server) = Some s'
     \<and> cms_view (ss_st s') ''a_v1'' = cms_view (ss_st stocked_server) ''a_v1''
     \<and> cms_view (ss_st stocked_server) ''a_v1'' \<noteq> None"
proof -
  let ?r = "example_reconciler [(''k'', example_registry)]" and ?env = "quiet_env empty_cluster"
  let ?kfmr = "example_registry\<lparr>kw_RESTClient := \<lambda>_. Inl ''down''\<rparr>"
  let ?run = "innerStart example_J example_render (storage_link ''http://s'' example_service) ?env None ?r stocked_server"
  have regs: "registries ?env ?r = [?kfmr]"
    by (simp add: registries_def example_reconciler_def quiet_env_def)
  have "map_option isl (LoopOverKFMR example_J [] ?kfmr) = Some True" by code_simp
  then obtain err where err: "LoopOverKFMR example_J [] ?kfmr = Some (Inl err)" by (auto simp: isl_def)
  have fmt: "re_format ?r = JsonArrayForamt" by (simp add: example_reconciler_def)
  have "?run \<noteq> None" by (rule innerStart_json [OF example_setup fmt]) (simp add: regs err)
  then obtain r' s' where run: "?run = Some (r', s')" by auto
  have keys: "\<forall>key \<in> set (concat (map (registry_keys example_J ?r) (registries ?env ?r))).
      \<forall>uri. rekey JsonArrayForamt key \<noteq> Some (''a_v1'', uri)"
    by (simp add: regs registry_keys_def err)
  have st: "re_storage ?r = SetupBridgeStorageRESTClient ''http://s'' ''''" by (simp add: example_reconciler_def)
  have kfmr: "?kfmr \<in> set (registries ?env ?r)" by (simp add: regs)
  have "cms_view (ss_st stocked_server) ''a_v1'' \<noteq> None" by code_simp
  with failed_pass_purges_nothing [where t = "''''" and benv = example_env and bt = "''''" and push = True,
      OF example_setup st kfmr err stocked_server_ok, folded example_service_def, OF run keys] run
  show ?thesis by auto
qed

theorem failed_list_purges_everything_witness:
  "\<exists>s'. map_option snd (innerStart example_J example_render (storage_link ''http://s'' example_service)
            (quiet_env (empty_cluster\<lparr>cl_List := \<lambda>_. Inl ''forbidden''\<rparr>)) None (example_reconciler []) stocked_server)
          = Some s'
     \<and> dom (cms_view (ss_st s')) = {}
     \<and> cms_view (ss_st stocked_server) ''a_v1'' \<noteq> None"
proof -
  let ?r = "example_reconciler []" and ?env = "quiet_env (empty_cluster\<lparr>cl_List := \<lambda>_. Inl ''forbidden''\<rparr>)"
  let ?run = "innerStart example_J example_render (storage_link ''http://s'' example_service) ?env None ?r stocked_server"
  let ?post = "PostCurrentKeySet (storage_link ''http://s'' example_service)
      (SetupBridgeStorageRESTClient ''http://s'' '''') [] stocked_server"
  have ready: "setupKFMR ?env ?r = Some (False, ?r)"
    by (simp add: setupKFMR_def quiet_env_def example_reconciler_def)
  have st: "re_storage ?r = SetupBridgeStorageRESTClient ''http://s'' ''''" "re_kfmr ?r = []"
    by (simp_all add: example_reconciler_def)
  have fmt: "re_format ?r = JsonArrayForamt" by (simp add: example_reconciler_def)
  have "?run \<noteq> None" by (rule innerStart_json [OF ready fmt]) (simp add: registries_def st)
  then obtain r' s' where run: "?run = Some (r', s')" by auto
  have list: "cl_List (ne_cluster ?env) [] = Inl ''forbidden''" by (simp add: quiet_env_def)
  have "fst (fst ?post) = StatusOK" by code_simp
  then have post: "fst ?post = (StatusOK, snd (fst ?post))" by (simp add: prod_eq_iff)
  have "cms_view (ss_st stocked_server) ''a_v1'' \<noteq> None" by code_simp
  with failed_list_purges_everything [where t = "''''" and benv = example_env and bt = "''''" and push = True,
      OF ready st list stocked_server_ok, folded example_service_def, OF run post] run
  show ?thesis by auto
qed

end
