(* ===== verification/Startup.thy ===== *)
theory Startup
  imports Normalizer
begin

text \<open>
  How the processes set themselves up: the Kubernetes configuration, project and token of
  \<^verbatim>\<open>pkg/util/k8s-client.go\<close>, \<^verbatim>\<open>GetRESTConfig\<close> of the storage service, \<^verbatim>\<open>NewBridgeStorage\<close> and the
  \<^verbatim>\<open>main\<close> functions of \<^verbatim>\<open>cmd/storage-rest\<close> and \<^verbatim>\<open>cmd/location\<close>.

  \<open>os_env\<close> is what they ask of the operating system and of client-go: the environment, files, the
  home directory and the loaders of configurations.  The flags and the logging are left out.
\<close>

section \<open>Kubernetes configuration\<close>

record rest_config =
  cfg_Host :: string
  cfg_BearerToken :: string
  cfg_Insecure :: bool
  cfg_CAFile :: string

record os_env =
  os_Getenv :: "string \<Rightarrow> string"
  os_ReadFile :: "string \<Rightarrow> string + string"
  os_Create :: "string \<Rightarrow> go_error"
  os_WriteString :: "string \<Rightarrow> string \<Rightarrow> go_error"
  os_Sync :: "string \<Rightarrow> go_error"
  os_NewPool :: "string \<Rightarrow> go_error"
  os_HomeDir :: "string option"
  os_RawConfig :: "string + string option"
  os_InClusterConfig :: "string + rest_config"
  os_BuildConfigFromFlags :: "string \<Rightarrow> string + rest_config"
  os_GetConfigOrDie :: "rest_config option"

text \<open>
  \<^verbatim>\<open>RawConfig\<close> gives the namespace of the current context, if there is one; \<^const>\<open>None\<close> of
  \<^const>\<open>os_GetConfigOrDie\<close> is the exit of the process.
\<close>

definition PodNSEnvVar :: string where "PodNSEnvVar = ''POD_NAMESPACE''"
definition BrdgNSEnvVar :: string where "BrdgNSEnvVar = ''NAMESPACE''"
definition KubeconfigEnvVar :: string where "KubeconfigEnvVar = ''KUBECONFIG''"
definition K8sTokenEnvVar :: string where "K8sTokenEnvVar = ''K8S_TOKEN''"
definition SvcHostEnvVar :: string where "SvcHostEnvVar = ''KUBERNETES_SERVICE_HOST''"
definition SvcPortEnvVar :: string where "SvcPortEnvVar = ''KUBERNETES_SERVICE_PORT''"
definition SidecarSecretTokenEnvVar :: string where "SidecarSecretTokenEnvVar = ''token''"
definition SidecarSecretCertEnvVar :: string where "SidecarSecretCertEnvVar = ''ca.crt''"
definition LocationUrlEnvVar :: string where "LocationUrlEnvVar = ''BRIDGE_URL''"
definition RHDHTokenEnvVar :: string where "RHDHTokenEnvVar = ''RHDH_TOKEN''"
definition StorageTypeEnvVar :: string where "StorageTypeEnvVar = ''STORAGE_TYPE''"
definition PushToRHDHEnvVar :: string where "PushToRHDHEnvVar = ''PUSH_TO_RHDH''"
definition GithubBridgeStorage :: string where "GithubBridgeStorage = ''Github''"

definition ca_file :: string where "ca_file = ''/opt/app-root/src/dynamic-plugins-root/ca.crt''"

text \<open>The certificate of the secret is written to a file, from which the pool is read.\<close>

definition store_ca :: "os_env \<Rightarrow> string \<Rightarrow> go_error" where
  "store_ca env cacrt =
     (case os_Create env ca_file of
        Some err \<Rightarrow> Some err
      | None \<Rightarrow>
          (case os_WriteString env ca_file cacrt of
             Some err \<Rightarrow> Some err
           | None \<Rightarrow> (case os_Sync env ca_file of Some err \<Rightarrow> Some err | None \<Rightarrow> os_NewPool env ca_file)))"

definition InClusterConfigHackForRHDHSidecars :: "os_env \<Rightarrow> string + rest_config" where
  "InClusterConfigHackForRHDHSidecars env =
     (let token = os_Getenv env SidecarSecretTokenEnvVar;
          host = os_Getenv env SvcHostEnvVar;
          port = os_Getenv env SvcPortEnvVar;
          cacrt = os_Getenv env SidecarSecretCertEnvVar;
          config = (\<lambda>insecure file. \<lparr>cfg_Host = host @ '':'' @ port, cfg_BearerToken = token,
                      cfg_Insecure = insecure, cfg_CAFile = file\<rparr>)
      in if length host = 0 \<or> length port = 0 \<or> length token = 0 then Inl ''not in cluster''
         else if length cacrt > 0
         then (case store_ca env cacrt of
                 Some err \<Rightarrow> Inl err
               | None \<Rightarrow> Inr (config False ca_file))
         else Inr (config True ''''))"

definition GetK8sConfig :: "os_env \<Rightarrow> string \<Rightarrow> string + rest_config" where
  "GetK8sConfig env kubeconfig =
     (if length kubeconfig > 0 then os_BuildConfigFromFlags env kubeconfig
      else if length (os_Getenv env KubeconfigEnvVar) > 0
      then os_BuildConfigFromFlags env (os_Getenv env KubeconfigEnvVar)
      else (case os_InClusterConfig env of
              Inr c \<Rightarrow> Inr c
            | Inl _ \<Rightarrow>
                (case Option.bind (os_HomeDir env)
                        (\<lambda>home. case os_BuildConfigFromFlags env (home @ ''/.kube/config'') of
                                  Inr c \<Rightarrow> Some c | Inl _ \<Rightarrow> None) of
                   Some c \<Rightarrow> Inr c
                 | None \<Rightarrow>
                     (case InClusterConfigHackForRHDHSidecars env of
                        Inr c \<Rightarrow> Inr c
                      | Inl _ \<Rightarrow> Inl ''could not locate a kubeconfig''))))"

definition GetCurrentProject :: "os_env \<Rightarrow> string" where
  "GetCurrentProject env =
     (let currentProject = (case os_RawConfig env of Inr (Some ns) \<Rightarrow> ns | _ \<Rightarrow> '''')
      in if length currentProject > 0 then currentProject
         else
           let currentProject =
                 (case os_ReadFile env ''/var/run/secrets/kubernetes.io/serviceaccount/namespace'' of
                    Inr b \<Rightarrow> b
                  | Inl err \<Rightarrow> os_Getenv env BrdgNSEnvVar)
           in if length currentProject = 0 then os_Getenv env PodNSEnvVar else currentProject)"

definition GetCurrentToken :: "os_env \<Rightarrow> rest_config option \<Rightarrow> string" where
  "GetCurrentToken env cfg =
     (let from_pod = (case os_ReadFile env ''/var/run/secrets/kubernetes.io/serviceaccount/token'' of
                        Inr b \<Rightarrow> b
                      | Inl err \<Rightarrow> os_Getenv env K8sTokenEnvVar)
      in case cfg of
           None \<Rightarrow> from_pod
         | Some c \<Rightarrow> if length (cfg_BearerToken c) = 0 then from_pod else cfg_BearerToken c)"

text \<open>
  The configuration and the error it returns with, or \<^const>\<open>None\<close> when the process exits.
\<close>

definition GetRESTConfig :: "os_env \<Rightarrow> (rest_config \<times> go_error) option" where
  "GetRESTConfig env =
     (case InClusterConfigHackForRHDHSidecars env of
        Inr c \<Rightarrow> Some (c, None)
      | Inl _ \<Rightarrow>
          (case GetK8sConfig env '''' of
             Inr c \<Rightarrow> Some (c, None)
           | Inl err \<Rightarrow> map_option (\<lambda>c. (c, Some err)) (os_GetConfigOrDie env)))"

section \<open>The storage service\<close>

text \<open>The storage tier, or the nil interface.\<close>

definition NewBridgeStorage :: "os_env \<Rightarrow> string \<Rightarrow> rest_config option" where
  "NewBridgeStorage env storageType =
     (if storageType = GithubBridgeStorage then None
      else (case GetK8sConfig env '''' of Inl err \<Rightarrow> None | Inr cfg \<Rightarrow> Some cfg))"

text \<open>\<^verbatim>\<open>strconv.ParseBool\<close>.\<close>

definition parse_bool :: "string \<Rightarrow> bool option" where
  "parse_bool s =
     (if s \<in> set [''1'', ''t'', ''T'', ''true'', ''TRUE'', ''True''] then Some True
      else if s \<in> set [''0'', ''f'', ''F'', ''false'', ''FALSE'', ''False''] then Some False
      else None)"

definition push_to_rhdh :: "os_env \<Rightarrow> bool" where
  "push_to_rhdh env =
     (let pushStr = os_Getenv env PushToRHDHEnvVar
      in case parse_bool pushStr of None \<Rightarrow> False | Some push \<Rightarrow> length pushStr > 0 \<and> push)"

record storage_settings =
  st_storage :: "rest_config option"
  st_bridgeURL :: string
  st_bridgeToken :: string
  st_bkstgToken :: string
  st_format :: NormalizerFormat
  st_push :: bool

definition bridge_url :: "os_env \<Rightarrow> string" where
  "bridge_url env =
     (let bridgeURL = strip_crlf (os_Getenv env LocationUrlEnvVar);
          podIP = strip_crlf (os_Getenv env PodIPEnvVar)
      in if length podIP > 0 \<and> length bridgeURL = 0 then ''http://'' @ podIP @ '':9090'' else bridgeURL)"

definition storage_format :: "os_env \<Rightarrow> NormalizerFormat" where
  "storage_format env = os_Getenv env FormatEnvVar"

text \<open>What \<^verbatim>\<open>main\<close> starts the server with; \<^const>\<open>None\<close> is its exit.\<close>

definition storage_main :: "os_env \<Rightarrow> storage_settings option" where
  "storage_main env =
     (let bs = NewBridgeStorage env (os_Getenv env StorageTypeEnvVar)
      in case GetRESTConfig env of
           None \<Rightarrow> None
         | Some (restConfig, Some err) \<Rightarrow> None
         | Some (restConfig, None) \<Rightarrow>
             Some \<lparr>st_storage = bs, st_bridgeURL = bridge_url env,
               st_bridgeToken = GetCurrentToken env (Some restConfig),
               st_bkstgToken = strip_crlf (os_Getenv env RHDHTokenEnvVar),
               st_format = storage_format env, st_push = push_to_rhdh env\<rparr>)"

definition configured_service ::
    "storage_settings \<Rightarrow> 'b BkstgEnv \<Rightarrow> ('w ConfigMapBridgeStorage, location_net, 'b) StorageDeps" where
  "configured_service cfg env =
     StorageService (st_bridgeURL cfg) (st_bridgeToken cfg) env (st_bkstgToken cfg) (st_format cfg) (st_push cfg)"

section \<open>The location service\<close>

definition location_storage_url :: "os_env \<Rightarrow> string" where
  "location_storage_url env =
     (let st = strip_crlf (os_Getenv env StorageUrlEnvVar)
      in if length st = 0 then ''http://'' @ os_Getenv env PodIPEnvVar @ '':7070'' else st)"

definition location_format :: "os_env \<Rightarrow> NormalizerFormat" where
  "location_format env =
     (let nfstr = strip_crlf (os_Getenv env FormatEnvVar)
      in if length nfstr = 0 then JsonArrayForamt else nfstr)"

text \<open>The server and the client of the storage service that it holds.\<close>

definition location_main :: "os_env \<Rightarrow> ImportLocationServer \<times> BridgeStorageRESTClient" where
  "location_main env =
     (NewImportLocationServer (location_format env),
      SetupBridgeStorageRESTClient (location_storage_url env)
        (GetCurrentToken env (case GetK8sConfig env '''' of Inl err \<Rightarrow> None | Inr c \<Rightarrow> Some c)))"


section \<open>Facts\<close>

lemma format_uri:
  "snd (BuildImportKeyAndURI m v f) = snd (BuildImportKeyAndURI m v f') \<longleftrightarrow> (f = JsonArrayForamt) = (f' = JsonArrayForamt)"
  by (simp add: BuildImportKeyAndURI_def Let_def)

lemma strip_crlf_json: "strip_crlf JsonArrayForamt = JsonArrayForamt" "JsonArrayForamt \<noteq> []"
  by code_simp+

text \<open>
  The storage service starts exactly if one of its two loaders finds a configuration: the error of the
  second is still returned when the last resort has found one.
\<close>

lemma storage_main_starts_iff:
  "storage_main env \<noteq> None \<longleftrightarrow>
     (\<exists>c. InClusterConfigHackForRHDHSidecars env = Inr c) \<or> (\<exists>c. GetK8sConfig env '''' = Inr c)"
  by (auto simp: storage_main_def GetRESTConfig_def Let_def split: sum.splits option.splits)

section \<open>Property\<close>

text \<open>
  C30. Started in one environment, the location service and the storage service give every model
  version the same URI exactly if the format variable is spelled \<open>JsonArrayFormat\<close>, or is, line ends
  aside, neither that nor empty: unset, it means JSON to the one and YAML to the other.
\<close>

theorem services_agree_iff:
  "(\<forall>m v. snd (BuildImportKeyAndURI m v (ils_format (fst (location_main env))))
        = snd (BuildImportKeyAndURI m v (storage_format env)))
   \<longleftrightarrow> (if os_Getenv env FormatEnvVar = JsonArrayForamt then True
       else \<not> (strip_crlf (os_Getenv env FormatEnvVar) = [] \<or> strip_crlf (os_Getenv env FormatEnvVar) = JsonArrayForamt))"
  using strip_crlf_json
  by (simp add: format_uri location_main_def NewImportLocationServer_def location_format_def storage_format_def Let_def)

end
