(* ===== verification/Deploy.thy ===== *)
theory Deploy
  imports Startup
begin

text \<open>
  The deployment of the location service by hand, \<^verbatim>\<open>struct.go\<close>, \<^verbatim>\<open>create.go\<close>, \<^verbatim>\<open>add_content.go\<close>,
  \<^verbatim>\<open>ready.go\<close> and \<^verbatim>\<open>delete.go\<close> of \<^verbatim>\<open>pkg/cmd/server/location/client\<close>.

  The cluster is a world behind the calls of the Kubernetes clients (\<open>deploy_client\<close>).  Of the
  objects only the fields the code sets are there.  A call that fails still gives the object its
  client returns.
\<close>

section \<open>The objects\<close>

record DeployService =
  sv_Namespace :: string
  sv_Name :: string
  sv_Labels :: "string go_map"
  sv_Selector :: "string go_map"
  sv_Ports :: "(string \<times> string \<times> int \<times> int) list"

text \<open>A port is its name, protocol, port and target port.\<close>

record DeployRoute =
  dr_Namespace :: string
  dr_Name :: string
  dr_To :: "string \<times> string"
  dr_Ingress :: "(string \<times> string list) list"

text \<open>The target is its kind and name; an ingress is its host and the statuses of its conditions.\<close>

record DeployContainer =
  dc_Name :: string
  dc_Image :: string
  dc_ImagePullPolicy :: string
  dc_Ports :: "(string \<times> int) list"
  dc_Limits :: "string go_map"
  dc_Requests :: "string go_map"
  dc_ReadOnlyRootFilesystem :: bool
  dc_VolumeMounts :: "(string \<times> string \<times> bool) list"

record DeployDeployment =
  dp_Namespace :: string
  dp_Name :: string
  dp_Labels :: "string go_map"
  dp_Replicas :: int
  dp_MatchLabels :: "string go_map"
  dp_TemplateLabels :: "string go_map"
  dp_Containers :: "DeployContainer list"
  dp_RunAsNonRoot :: bool
  dp_Volumes :: "(string \<times> string \<times> int) list"

record DeployConfigMap =
  dm_Namespace :: string
  dm_Name :: string
  dm_BinaryData :: "string go_map option"

record Artifacts =
  af_Kubeconfig :: string
  af_Namespace :: string
  af_cm :: "DeployConfigMap option"
  af_svc :: DeployService
  af_route :: DeployRoute
  af_dpm :: DeployDeployment
  af_routeURL :: string

definition artifact_name :: string where "artifact_name = ''bac-import-model''"

text \<open>A volume is its name, the name of its ConfigMap and its mode.\<close>

definition NewArtifacts :: "string \<Rightarrow> string \<Rightarrow> Artifacts" where
  "NewArtifacts kubeconfig namespace =
     \<lparr>af_Kubeconfig = kubeconfig, af_Namespace = namespace, af_cm = None,
      af_svc = \<lparr>sv_Namespace = namespace, sv_Name = artifact_name, sv_Labels = [(''app'', artifact_name)],
        sv_Selector = [(''app'', artifact_name)], sv_Ports = [(''location'', ''TCP'', 8080, 8080)]\<rparr>,
      af_route = \<lparr>dr_Namespace = namespace, dr_Name = artifact_name, dr_To = (''Service'', artifact_name),
        dr_Ingress = []\<rparr>,
      af_dpm = \<lparr>dp_Namespace = namespace, dp_Name = artifact_name,
        dp_Labels = [(''app.kubernetes.io/name'', artifact_name)], dp_Replicas = 1,
        dp_MatchLabels = [(''app'', artifact_name)], dp_TemplateLabels = [(''app'', artifact_name)],
        dp_Containers =
          [\<lparr>dc_Name = ''location'', dc_Image = ''quay.io/gabemontero/import-location:latest'',
            dc_ImagePullPolicy = ''Always'', dc_Ports = [(''location'', 8080)],
            dc_Limits = [(''cpu'', ''500m''), (''memory'', ''384Mi'')],
            dc_Requests = [(''cpu'', ''5m''), (''memory'', ''64Mi'')],
            dc_ReadOnlyRootFilesystem = True, dc_VolumeMounts = [(''location'', ''/data'', True)]\<rparr>],
        dp_RunAsNonRoot = True, dp_Volumes = [(''location'', artifact_name, 420)]\<rparr>,
      af_routeURL = ''''\<rparr>"

section \<open>The operations\<close>

datatype watch_type = Added | Modified | Deleted | Bookmark | Error

text \<open>An event of a watch; the assertion that its object is a route panics on any other object.\<close>

record watch_event =
  we_Type :: watch_type
  we_Object :: "DeployRoute option"

record 'w deploy_client =
  dl_CreateService :: "string \<Rightarrow> DeployService \<Rightarrow> 'w \<Rightarrow> (DeployService \<times> k8s_error option) \<times> 'w"
  dl_CreateRoute :: "string \<Rightarrow> DeployRoute \<Rightarrow> 'w \<Rightarrow> (DeployRoute \<times> k8s_error option) \<times> 'w"
  dl_CreateDeployment :: "string \<Rightarrow> DeployDeployment \<Rightarrow> 'w \<Rightarrow> (DeployDeployment \<times> k8s_error option) \<times> 'w"
  dl_DeleteDeployment :: "string \<Rightarrow> string \<Rightarrow> 'w \<Rightarrow> k8s_error option \<times> 'w"
  dl_DeleteService :: "string \<Rightarrow> string \<Rightarrow> 'w \<Rightarrow> k8s_error option \<times> 'w"
  dl_DeleteRoute :: "string \<Rightarrow> string \<Rightarrow> 'w \<Rightarrow> k8s_error option \<times> 'w"
  dl_GetConfigMap :: "string \<Rightarrow> string \<Rightarrow> 'w \<Rightarrow> (DeployConfigMap \<times> k8s_error option) \<times> 'w"
  dl_CreateConfigMap :: "string \<Rightarrow> DeployConfigMap \<Rightarrow> 'w \<Rightarrow> k8s_error option \<times> 'w"
  dl_UpdateConfigMap :: "string \<Rightarrow> DeployConfigMap \<Rightarrow> 'w \<Rightarrow> k8s_error option \<times> 'w"
  dl_WatchRoutes :: "string \<Rightarrow> 'w \<Rightarrow> (string + watch_event list) \<times> 'w"

datatype deploy_error = ConfigError string | ApiError k8s_error | WatchFailed string | RouteDeleted | NotReady

definition Create ::
    "os_env \<Rightarrow> 'w deploy_client \<Rightarrow> Artifacts \<Rightarrow> 'w \<Rightarrow> deploy_error option \<times> Artifacts \<times> 'w" where
  "Create env cl a w =
     (case GetK8sConfig env (af_Kubeconfig a) of
        Inl err \<Rightarrow> (Some (ConfigError err), a, w)
      | Inr restCfg \<Rightarrow>
          (case dl_CreateService cl (af_Namespace a) (af_svc a) w of
             ((svc, Some err), w) \<Rightarrow> (Some (ApiError err), a\<lparr>af_svc := svc\<rparr>, w)
           | ((svc, None), w) \<Rightarrow>
               let a = a\<lparr>af_svc := svc\<rparr>
               in case dl_CreateRoute cl (af_Namespace a) (af_route a) w of
                    ((route, Some err), w) \<Rightarrow> (Some (ApiError err), a\<lparr>af_route := route\<rparr>, w)
                  | ((route, None), w) \<Rightarrow>
                      let a = a\<lparr>af_route := route\<rparr>
                      in case dl_CreateDeployment cl (af_Namespace a) (af_dpm a) w of
                           ((dpm, err), w) \<Rightarrow> (map_option ApiError err, a\<lparr>af_dpm := dpm\<rparr>, w)))"

text \<open>\<open>Delete\<close> goes on when an object is gone already.\<close>

definition fatal :: "k8s_error option \<Rightarrow> k8s_error option" where
  "fatal err = (case err of Some NotFound \<Rightarrow> None | _ \<Rightarrow> err)"

definition Delete :: "os_env \<Rightarrow> 'w deploy_client \<Rightarrow> Artifacts \<Rightarrow> 'w \<Rightarrow> deploy_error option \<times> 'w" where
  "Delete env cl a w =
     (case GetK8sConfig env (af_Kubeconfig a) of
        Inl err \<Rightarrow> (Some (ConfigError err), w)
      | Inr restCfg \<Rightarrow>
          (case dl_DeleteDeployment cl (af_Namespace a) artifact_name w of
             (err, w) \<Rightarrow>
               (case fatal err of
                  Some e \<Rightarrow> (Some (ApiError e), w)
                | None \<Rightarrow>
                    (case dl_DeleteService cl (af_Namespace a) artifact_name w of
                       (err, w) \<Rightarrow>
                         (case fatal err of
                            Some e \<Rightarrow> (Some (ApiError e), w)
                          | None \<Rightarrow>
                              (case dl_DeleteRoute cl (af_Namespace a) artifact_name w of
                                 (err, w) \<Rightarrow> (map_option ApiError (fatal err), w)))))))"

text \<open>After it has created the map, \<open>AddContent\<close> updates it all the same.\<close>

definition AddContent ::
    "os_env \<Rightarrow> 'w deploy_client \<Rightarrow> string \<Rightarrow> string \<Rightarrow> Artifacts \<Rightarrow> 'w \<Rightarrow> deploy_error option \<times> Artifacts \<times> 'w" where
  "AddContent env cl key content a w =
     (case GetK8sConfig env (af_Kubeconfig a) of
        Inl err \<Rightarrow> (Some (ConfigError err), a, w)
      | Inr restCfg \<Rightarrow>
          (case dl_GetConfigMap cl (af_Namespace a) artifact_name w of
             ((cm, Some (K8sError err)), w) \<Rightarrow> (Some (ApiError (K8sError err)), a\<lparr>af_cm := Some cm\<rparr>, w)
           | ((cm, err), w) \<Rightarrow>
               let notFound = (err = Some NotFound);
                   cm = (if notFound then cm\<lparr>dm_Namespace := af_Namespace a, dm_Name := artifact_name\<rparr> else cm);
                   data = (case dm_BinaryData cm of None \<Rightarrow> [] | Some m \<Rightarrow> m);
                   cm = cm\<lparr>dm_BinaryData := Some (AList.update key content data)\<rparr>;
                   a = a\<lparr>af_cm := Some cm\<rparr>;
                   (err, w) = (if notFound then dl_CreateConfigMap cl (af_Namespace a) cm w else (None, w))
               in case err of
                    Some e \<Rightarrow> (Some (ApiError e), a, w)
                  | None \<Rightarrow>
                      (case dl_UpdateConfigMap cl (af_Namespace a) cm w of
                         (err, w) \<Rightarrow> (map_option ApiError err, a, w))))"

text \<open>
  The loop over the events of the watch, which ends when the channel is closed: the error or the
  host of the route.
\<close>

fun await_route :: "string \<Rightarrow> watch_event list \<Rightarrow> (deploy_error + string) option" where
  "await_route name [] = Some (Inl NotReady)"
| "await_route name (event # events) =
     (if we_Type event = Error then Some (Inl (WatchFailed ''route watch received error event''))
      else (case we_Object event of
              None \<Rightarrow> None
            | Some item \<Rightarrow>
                if dr_Name item \<noteq> name then await_route name events
                else if we_Type event = Deleted then Some (Inl RouteDeleted)
                else (case dr_Ingress item of
                        (host, status # conditions) # ingress \<Rightarrow>
                          if status = ''True'' then Some (Inr host) else await_route name events
                      | _ \<Rightarrow> await_route name events)))"

definition Ready ::
    "os_env \<Rightarrow> 'w deploy_client \<Rightarrow> Artifacts \<Rightarrow> 'w \<Rightarrow> (deploy_error option \<times> Artifacts \<times> 'w) option" where
  "Ready env cl a w =
     (case GetK8sConfig env (af_Kubeconfig a) of
        Inl err \<Rightarrow> Some (Some (ConfigError err), a, w)
      | Inr restCfg \<Rightarrow>
          (case dl_WatchRoutes cl (af_Namespace a) w of
             (Inl err, w) \<Rightarrow> Some (Some (WatchFailed err), a, w)
           | (Inr events, w) \<Rightarrow>
               map_option (\<lambda>res. case res of
                   Inl err \<Rightarrow> (Some err, a, w)
                 | Inr host \<Rightarrow> (None, a\<lparr>af_routeURL := ''http://'' @ host\<rparr>, w))
                 (await_route (dr_Name (af_route a)) events)))"


section \<open>Facts\<close>

text \<open>An event that makes the route ready, and one that the loop passes over.\<close>

definition admits :: "string \<Rightarrow> string \<Rightarrow> watch_event \<Rightarrow> bool" where
  "admits name host event \<longleftrightarrow> we_Type event \<noteq> Error \<and> we_Type event \<noteq> Deleted
     \<and> (\<exists>item conditions ingress. we_Object event = Some item \<and> dr_Name item = name
          \<and> dr_Ingress item = (host, ''True'' # conditions) # ingress)"

definition passed :: "string \<Rightarrow> watch_event \<Rightarrow> bool" where
  "passed name event \<longleftrightarrow> we_Type event \<noteq> Error \<and> we_Object event \<noteq> None
     \<and> (dr_Name (the (we_Object event)) = name \<longrightarrow> we_Type event \<noteq> Deleted \<and> (\<forall>host. \<not> admits name host event))"

lemma await_route_Cons:
  "await_route name (event # events) = Some (Inr host) \<longleftrightarrow>
     admits name host event \<or> (passed name event \<and> await_route name events = Some (Inr host))"
  by (auto simp: admits_def passed_def split: option.splits list.splits prod.splits if_splits)

lemma first_such_Cons:
  "(\<exists>pre y post. x # xs = pre @ y # post \<and> list_all P pre \<and> Q y)
   \<longleftrightarrow> Q x \<or> P x \<and> (\<exists>pre y post. xs = pre @ y # post \<and> list_all P pre \<and> Q y)"
proof
  assume "\<exists>pre y post. x # xs = pre @ y # post \<and> list_all P pre \<and> Q y"
  then obtain pre y post where "x # xs = pre @ y # post" "list_all P pre" "Q y" by blast
  then show "Q x \<or> P x \<and> (\<exists>pre y post. xs = pre @ y # post \<and> list_all P pre \<and> Q y)"
    by (cases pre) auto
next
  assume "Q x \<or> P x \<and> (\<exists>pre y post. xs = pre @ y # post \<and> list_all P pre \<and> Q y)"
  then show "\<exists>pre y post. x # xs = pre @ y # post \<and> list_all P pre \<and> Q y"
  proof
    assume "Q x"
    then have "x # xs = [] @ x # xs \<and> list_all P [] \<and> Q x" by simp
    then show ?thesis by blast
  next
    assume "P x \<and> (\<exists>pre y post. xs = pre @ y # post \<and> list_all P pre \<and> Q y)"
    then obtain pre y post where "x # xs = (x # pre) @ y # post \<and> list_all P (x # pre) \<and> Q y" by auto
    then show ?thesis by blast
  qed
qed

lemma await_route_ready:
  "await_route name events = Some (Inr host) \<longleftrightarrow>
     (\<exists>pre event post. events = pre @ event # post \<and> list_all (passed name) pre \<and> admits name host event)"
proof (induction events)
  case (Cons event events)
  show ?case unfolding await_route_Cons Cons.IH first_such_Cons ..
qed simp

text \<open>Deleting what is gone already is no error: only another failure of the API ends \<open>Delete\<close>.\<close>

lemma Delete_tolerates_missing:
  assumes "GetK8sConfig env (af_Kubeconfig a) = Inr c"
    and "dl_DeleteDeployment cl (af_Namespace a) artifact_name w = (e1, w1)"
    and "dl_DeleteService cl (af_Namespace a) artifact_name w1 = (e2, w2)"
    and "dl_DeleteRoute cl (af_Namespace a) artifact_name w2 = (e3, w3)"
    and "{e1, e2, e3} \<subseteq> {None, Some NotFound}"
  shows "Delete env cl a w = (None, w3)"
  using assms by (auto simp: Delete_def fatal_def)

end
