(* ===== verification/Bridge.thy ===== *)
theory Bridge
  imports Normalizer
begin

text \<open>
  The services and the controller together, as one transition system: the storage service answers
  its clients one request at a time, Backstage reads from the location service, and the controller
  reconciles services and runs its passes.  What the controller does is an instance of the contract
  \<open>posting\<close>, whose relation is here a run of the services; so a state of the whole bridge
  is one that its services reach by requests alone, and what holds of every run of the services
  holds of the bridge.
\<close>

section \<open>Runs of the services\<close>

text \<open>
  A run, with the requests the storage service has answered.  A read of the location service may
  change its model cards' counters.
\<close>

inductive services_run ::
    "('w ConfigMapBridgeStorage, location_net, 'b) StorageDeps
      \<Rightarrow> ('w ConfigMapBridgeStorage, location_net, 'b) StorageRESTServer \<Rightarrow> http_request list
      \<Rightarrow> ('w ConfigMapBridgeStorage, location_net, 'b) StorageRESTServer \<Rightarrow> bool"
  for D s0 where
  run_start: "services_run D s0 [] s0"
| run_request: "services_run D s0 cs s \<Longrightarrow> ss_serve D c s = (g, s') \<Longrightarrow> services_run D s0 (cs @ [c]) s'"
| run_read: "services_run D s0 cs s \<Longrightarrow> rq_method c = GET \<Longrightarrow> ils_serve c (ln_server (ss_locations s)) = (g, i) \<Longrightarrow>
    services_run D s0 cs (s\<lparr>ss_locations := (ss_locations s)\<lparr>ln_server := i\<rparr>\<rparr>)"

lemma services_run_append:
  assumes "services_run D s0 cs s" and "services_run D s cs' s'"
  shows "services_run D s0 (cs @ cs') s'"
  using assms(2)
proof induction
  case (run_request cs' s1 c g s2)
  from services_run.run_request [OF run_request.IH run_request.hyps(2)] show ?case by simp
qed (auto intro: services_run.intros assms(1))

text \<open>The requests of the normaliser's client are such requests.\<close>

lemma storage_link_run:
  assumes "storage_link host D rq s = (res, s')"
  shows "\<exists>cs. services_run D s cs s'"
proof (cases "s' = s")
  case False
  then obtain g where "ss_serve D (rq\<lparr>rq_url := drop (length host) (rq_url rq)\<rparr>) s = (g, s')"
    using assms by (auto simp: storage_link_def split: if_splits prod.splits)
  from run_request [OF run_start this] show ?thesis by blast
qed (auto intro: run_start)

lemma client_result_snd: "snd (client_result x) = snd x"
  by (auto simp: client_result_def split: prod.splits sum.splits)

interpretation tracing: posting "storage_link host D" client "\<lambda>_ s s'. \<exists>cs. services_run D s cs s'"
  for host D client
proof unfold_locales
  fix key ty ep ck mc buf s x s'
  assume "storage_UpsertModel (storage_link host D) client key ty ep ck mc buf s = (x, s')"
  then obtain rq res where "storage_link host D rq s = (res, s')"
    by (auto simp: storage_UpsertModel_def Let_def split: prod.splits sum.splits)
  then show "\<exists>cs. services_run D s cs s'" by (rule storage_link_run)
next
  fix keys s x s'
  assume "PostCurrentKeySet (storage_link host D) client keys s = (x, s')"
  then have "s' = snd (PostCurrentKeySet (storage_link host D) client keys s)" by simp
  then obtain rq res where "storage_link host D rq s = (res, s')"
    unfolding PostCurrentKeySet_def client_result_snd by (metis prod.collapse)
  then show "\<exists>cs. services_run D s cs s'" by (rule storage_link_run)
qed (auto intro: run_start services_run_append)


section \<open>A pass in two parts\<close>

text \<open>
  The part of \<^const>\<open>innerStart\<close> before its last request: the reports, and the list of the services.
  The keys are missing if a registry could not be read.
\<close>

definition pass_reports ::
    "openapi_json \<Rightarrow> (catalog_doc list \<Rightarrow> string) \<Rightarrow> 'w transport \<Rightarrow> NormalizerEnv
      \<Rightarrow> catalog_doc list option \<Rightarrow> RHOAINormalizerReconcile \<Rightarrow> 'w
      \<Rightarrow> (RHOAINormalizerReconcile \<times> string list option \<times> 'w) option" where
  "pass_reports J render send env shared r w = do {
     (ready, r) \<leftarrow> setupKFMR env r;
     result \<leftarrow> visit_registries J render send (ne_cluster env) r (registries env r) ([], shared, w);
     (case result of
        Inl w \<Rightarrow> Some (r, None, w)
      | Inr (keys, shared, w) \<Rightarrow> Some (r, Some (keys @ unmanaged_keys (ne_cluster env) r), w)) }"

definition pass_posts ::
    "'w transport \<Rightarrow> RHOAINormalizerReconcile \<times> string list option \<times> 'w \<Rightarrow> RHOAINormalizerReconcile \<times> 'w" where
  "pass_posts send x =
     (case x of
        (r, None, w) \<Rightarrow> (r, w)
      | (r, Some keys, w) \<Rightarrow> (r, snd (PostCurrentKeySet send (re_storage r) keys w)))"

lemma innerStart_split:
  "innerStart J render send env shared r w = map_option (pass_posts send) (pass_reports J render send env shared r w)"
proof (cases "setupKFMR env r")
  case (Some x)
  obtain ready r1 where x: "x = (ready, r1)" by fastforce
  show ?thesis
  proof (cases "visit_registries J render send (ne_cluster env) r1 (registries env r1) ([], shared, w)")
    case (Some res)
    with \<open>setupKFMR env r = Some x\<close> x show ?thesis
      by (cases res) (auto simp: innerStart_def pass_reports_def pass_posts_def)
  qed (simp add: innerStart_def pass_reports_def \<open>setupKFMR env r = Some x\<close> x)
qed (simp add: innerStart_def pass_reports_def)

section \<open>What the controller does to the services\<close>

context reporting
begin

lemma pass_reports_R:
  assumes "re_storage r = client" and "pass_reports J render send env shared r w = Some (r', keys, w')"
  shows "re_storage r' = client \<and> re_format r' = re_format r \<and> R UNIV w w'"
proof -
  from assms(2) obtain ready r1 res where "setupKFMR env r = Some (ready, r1)"
    and visit: "visit_registries J render send (ne_cluster env) r1 (registries env r1) ([], shared, w) = Some res"
    and rest: "(case res of
        Inl w \<Rightarrow> Some (r1, None, w)
      | Inr (ks, shared, w) \<Rightarrow> Some (r1, Some (ks @ unmanaged_keys (ne_cluster env) r1), w)) = Some (r', keys, w')"
    by (auto simp: pass_reports_def Option.bind_eq_Some_conv)
  then have up: "setupKFMR env r = Some (ready, r')"
    and v: "visit_registries J render send (ne_cluster env) r' (registries env r') ([], shared, w) = Some res"
    and res: "w' = (case res of Inl w \<Rightarrow> w | Inr (_, _, w) \<Rightarrow> w)"
    by (auto split: sum.splits)
  from setupKFMR_keeps [OF up] assms(1) have st: "re_storage r' = client" "re_format r' = re_format r" by simp_all
  from R_mono [OF visit_registries_R [OF st(1) v] subset_UNIV] res st show ?thesis by simp
qed

end

context posting
begin

lemma innerStart_R:
  assumes "re_storage r = client" and "innerStart J render send env shared r w = Some (r', w')"
  shows "re_storage r' = client \<and> re_format r' = re_format r \<and> R UNIV w w'"
proof -
  from assms(2) obtain keys w1 where p: "pass_reports J render send env shared r w = Some (r', keys, w1)"
    and post: "(r', w') = pass_posts send (r', keys, w1)"
    by (auto simp: innerStart_split pass_posts_def split: option.splits)
  note reports = pass_reports_R [OF assms(1) p]
  show ?thesis
  proof (cases keys)
    case None
    with post reports show ?thesis by (simp add: pass_posts_def)
  next
    case (Some ks)
    with post reports have "PostCurrentKeySet send client ks w1 = (fst (PostCurrentKeySet send client ks w1), w')"
      by (simp add: pass_posts_def)
    from R_trans [of UNIV w w1, OF _ R_keyset [OF this]] reports show ?thesis by simp
  qed
qed

lemma Reconcile_R:
  assumes "re_storage r = client" and "Reconcile J render indent send env namespace name r w = Some (out, r', w')"
  shows "re_storage r' = client \<and> re_format r' = re_format r \<and> R UNIV w w'"
proof (cases "cl_Get (ne_cluster env) namespace name")
  case (Inl err)
  with assms show ?thesis
    by (auto simp: Reconcile_def split: k8s_error.splits dest: innerStart_R [OF assms(1)])
next
  case (Inr infsvc)
  from assms(2) Inr obtain found r1 where m: "registry_match J env r infsvc = Some (found, r1)"
    by (auto simp: Reconcile_def registry_match_def Option.bind_eq_Some_conv)
  with assms(1) have st: "re_storage r1 = client" and fmt: "re_format r1 = re_format r"
    by (simp_all add: registry_match_keeps)
  have reported: "R UNIV w (snd (processBWriter render send r1 docs key ty ep ck mc w))" for docs key ty ep ck mc
    by (rule R_mono [OF processBWriter_R [OF st surjective_pairing]]) simp
  show ?thesis
  proof (cases found)
    case None
    with assms(2) m st fmt reported show ?thesis
      unfolding Reconcile_unmatched [OF Inr m [unfolded None]]
      by (auto simp: Let_def split: if_splits)
  next
    case (Some match)
    with assms(2) m Inr st fmt reported show ?thesis
      by (auto simp: Reconcile_def registry_match_def split_beta)
  qed
qed

end

section \<open>The bridge\<close>

text \<open>
  A step of the bridge: a pass up to its key set, started by a tick or by the event of a service
  that is gone; the key set of one of the passes under way; an event of the watch; a
  request of another client; a read of the location service.  Each pass and each event happens in
  whatever cluster and network there are at that time.
\<close>

inductive bridge_reachable ::
    "openapi_json \<Rightarrow> (catalog_doc list \<Rightarrow> string) \<Rightarrow> (payload \<Rightarrow> string) \<Rightarrow> string
      \<Rightarrow> ('w ConfigMapBridgeStorage, location_net, 'b) StorageDeps
      \<Rightarrow> RHOAINormalizerReconcile \<Rightarrow> ('w ConfigMapBridgeStorage, location_net, 'b) StorageRESTServer
      \<Rightarrow> RHOAINormalizerReconcile \<Rightarrow> string list list
      \<Rightarrow> ('w ConfigMapBridgeStorage, location_net, 'b) StorageRESTServer \<Rightarrow> bool"
  for J render indent host D r0 s0 where
  bridge_init: "bridge_reachable J render indent host D r0 s0 r0 [] s0"
| bridge_pass: "bridge_reachable J render indent host D r0 s0 r pending s \<Longrightarrow>
    pass_reports J render (storage_link host D) env shared r s = Some (r', keys, s') \<Longrightarrow>
    bridge_reachable J render indent host D r0 s0 r' (pending @ (case keys of None \<Rightarrow> [] | Some ks \<Rightarrow> [ks])) s'"
| bridge_post: "bridge_reachable J render indent host D r0 s0 r pending s \<Longrightarrow> keys \<in> set pending \<Longrightarrow>
    PostCurrentKeySet (storage_link host D) (re_storage r) keys s = (x, s') \<Longrightarrow>
    bridge_reachable J render indent host D r0 s0 r (remove1 keys pending) s'"
| bridge_event: "bridge_reachable J render indent host D r0 s0 r pending s \<Longrightarrow>
    Reconcile J render indent (storage_link host D) env namespace name r s = Some (out, r', s') \<Longrightarrow>
    bridge_reachable J render indent host D r0 s0 r' pending s'"
| bridge_request: "bridge_reachable J render indent host D r0 s0 r pending s \<Longrightarrow> ss_serve D c s = (g, s') \<Longrightarrow>
    bridge_reachable J render indent host D r0 s0 r pending s'"
| bridge_read: "bridge_reachable J render indent host D r0 s0 r pending s \<Longrightarrow> rq_method c = GET \<Longrightarrow>
    ils_serve c (ln_server (ss_locations s)) = (g, i) \<Longrightarrow>
    bridge_reachable J render indent host D r0 s0 r pending (s\<lparr>ss_locations := (ss_locations s)\<lparr>ln_server := i\<rparr>\<rparr>)"

text \<open>The bridge refines the runs of the services; the controller keeps its client and its format.\<close>

lemma bridge_services_run:
  "bridge_reachable J render indent host D r0 s0 r pending s \<Longrightarrow>
   re_storage r = re_storage r0 \<and> re_format r = re_format r0 \<and> (\<exists>cs. services_run D s0 cs s)"
proof (induction rule: bridge_reachable.induct)
  case bridge_init
  show ?case by (auto intro: run_start)
next
  case (bridge_pass r pending s env shared r' keys s')
  with tracing.pass_reports_R [OF refl bridge_pass.hyps(2)] show ?case by (auto dest: services_run_append)
next
  case (bridge_post r pending s keys x s')
  with tracing.R_keyset [OF bridge_post.hyps(3)] show ?case by (auto dest: services_run_append)
next
  case (bridge_event r pending s env namespace name out r' s')
  with tracing.Reconcile_R [OF refl bridge_event.hyps(2)] show ?case by (auto dest: services_run_append)
next
  case (bridge_request r pending s c g s')
  then show ?case by (auto intro: run_request)
next
  case (bridge_read r pending s c g i)
  then show ?case by (auto intro: run_read)
qed

section \<open>What every run of the services keeps\<close>

text \<open>The request posts \<open>pb\<close> under an import key that means the key \<open>k\<close> and the URI \<open>uri\<close>.\<close>

definition posts_at :: "NormalizerFormat \<Rightarrow> http_request \<Rightarrow> string \<Rightarrow> string \<Rightarrow> PostBody \<Rightarrow> bool" where
  "posts_at nf c k uri pb \<longleftrightarrow> rq_method c = POST \<and> rq_url c = UpsertURI \<and> gin_BindJSON c = (pb, None)
     \<and> rekey nf (gin_Query c KeyQueryParam) = Some (k, uri)"

text \<open>Every document and every stored body is an initial one or was posted where it is.\<close>

definition accounted ::
    "NormalizerFormat \<Rightarrow> ('w ConfigMapBridgeStorage, location_net, 'b) StorageRESTServer \<Rightarrow> http_request list
      \<Rightarrow> ('w ConfigMapBridgeStorage, location_net, 'b) StorageRESTServer \<Rightarrow> bool" where
  "accounted nf s0 cs s \<longleftrightarrow>
     (\<forall>uri doc. net_view (ss_locations s) uri = Some doc \<longrightarrow> net_view (ss_locations s0) uri = Some doc
        \<or> (\<exists>c \<in> set cs. \<exists>k pb. posts_at nf c k uri pb \<and> pb_Body pb = Some doc))
     \<and> (\<forall>k b. cms_view (ss_st s) k = Some b \<longrightarrow> cms_view (ss_st s0) k = Some b
        \<or> (\<exists>c \<in> set cs. \<exists>uri pb. posts_at nf c k uri pb \<and> pb_Body pb = sb_Body b))"

lemma accountedI:
  assumes "\<And>uri doc. net_view (ss_locations s) uri = Some doc \<Longrightarrow> net_view (ss_locations s0) uri = Some doc
        \<or> (\<exists>c \<in> set cs. \<exists>k pb. posts_at nf c k uri pb \<and> pb_Body pb = Some doc)"
    and "\<And>k b. cms_view (ss_st s) k = Some b \<Longrightarrow> cms_view (ss_st s0) k = Some b
        \<or> (\<exists>c \<in> set cs. \<exists>uri pb. posts_at nf c k uri pb \<and> pb_Body pb = sb_Body b)"
  shows "accounted nf s0 cs s"
  using assms unfolding accounted_def by blast

lemma accounted_refl [simp]: "accounted nf s cs s"
  by (simp add: accounted_def)

lemma accounted_trans:
  assumes "accounted nf s0 cs s1" and "accounted nf s1 cs' s2"
  shows "accounted nf s0 (cs @ cs') s2"
proof (rule accountedI)
  fix uri doc
  assume "net_view (ss_locations s2) uri = Some doc"
  then show "net_view (ss_locations s0) uri = Some doc
      \<or> (\<exists>c \<in> set (cs @ cs'). \<exists>k pb. posts_at nf c k uri pb \<and> pb_Body pb = Some doc)"
    using assms unfolding accounted_def set_append by (meson UnCI)
next
  fix k b
  assume "cms_view (ss_st s2) k = Some b"
  then show "cms_view (ss_st s0) k = Some b
      \<or> (\<exists>c \<in> set (cs @ cs'). \<exists>uri pb. posts_at nf c k uri pb \<and> pb_Body pb = sb_Body b)"
    using assms unfolding accounted_def set_append by (meson UnCI)
qed

lemma accounted_same_views:
  "net_view (ss_locations s') = net_view (ss_locations s) \<Longrightarrow> cms_view (ss_st s') = cms_view (ss_st s) \<Longrightarrow>
   accounted nf s cs s'"
  by (simp add: accounted_def)

lemma query_keeps:
  assumes "services_ok h nf s"
    and "handleCatalogList (StorageService h t env bt nf push) s = (g, s')
      \<or> handleCatalogFetch (StorageService h t env bt nf push) c s = (g, s')"
  shows "services_ok h nf s' \<and> cms_view (ss_st s') = cms_view (ss_st s) \<and> ss_locations s' = ss_locations s"
proof -
  have inv: "cms_ok (ss_st s)" using assms(1) by (simp add: services_ok_def)
  have st: "sd_st (StorageService h t env bt nf push) = ConfigMapStorage" by (simp add: StorageService_def Let_def)
  have "s' = s \<or> (\<exists>st'. s' = s\<lparr>ss_st := st'\<rparr> \<and> cms_ok st' \<and> cms_view st' = cms_view (ss_st s))"
    using assms(2) unfolding handleCatalogList_def handleCatalogFetch_def Let_def st
    by (auto split: prod.splits option.splits if_splits dest: cms.list_keeps [OF inv] cms.fetch_keeps [OF inv])
  with assms(1) show ?thesis by (auto simp: services_ok_def cache_ok_def)
qed

lemma serve_accounted:
  assumes "services_ok h nf s" and "ss_serve (StorageService h t env bt nf push) c s = (g, s')"
  shows "services_ok h nf s' \<and> accounted nf s [c] s'"
proof -
  let ?D = "StorageService h t env bt nf push"
  consider (post) "rq_method c = POST" "rq_url c = UpsertURI" "handleCatalogUpsertPost ?D c s = (g, s')"
    | (keys) "handleCatalogCurrentKeySetPost ?D c s = (g, s')"
    | (query) "handleCatalogList ?D s = (g, s') \<or> handleCatalogFetch ?D c s = (g, s')"
    | (none) "s' = s"
    using assms(2) by (auto simp: ss_serve_def split: http_method.splits if_splits)
  then show ?thesis
  proof cases
    case post
    from services_ok_post [OF assms(1), of t env bt push c] post(3) have "services_ok h nf s'" by simp
    moreover have "accounted nf s [c] s'"
    proof (rule accountedI)
      fix uri doc
      assume "net_view (ss_locations s') uri = Some doc"
      from post_provenance(1) [OF assms(1) post(3) this] show "net_view (ss_locations s) uri = Some doc
          \<or> (\<exists>c \<in> set [c]. \<exists>k pb. posts_at nf c k uri pb \<and> pb_Body pb = Some doc)"
        using post(1,2) by (auto simp: posts_at_def)
    next
      fix k b
      assume "cms_view (ss_st s') k = Some b"
      from post_provenance(2) [OF assms(1) post(3) this] show "cms_view (ss_st s) k = Some b
          \<or> (\<exists>c \<in> set [c]. \<exists>uri pb. posts_at nf c k uri pb \<and> pb_Body pb = sb_Body b)"
        using post(1,2) by (auto simp: posts_at_def)
    qed
    ultimately show ?thesis ..
  next
    case keys
    from services_ok_keyset [OF assms(1), of t env bt push c] keys have "services_ok h nf s'" by simp
    moreover have "accounted nf s [c] s'"
      by (rule accountedI) (rule disjI1, erule keyset_provenance [OF assms(1) keys])+
    ultimately show ?thesis ..
  next
    case query
    from query_keeps [OF assms(1) query] show ?thesis by (simp add: accounted_same_views)
  next
    case none
    with assms(1) show ?thesis by simp
  qed
qed

lemma read_accounted:
  assumes "services_ok h nf s" and "rq_method c = GET" and "ils_serve c (ln_server (ss_locations s)) = (g, i)"
  shows "services_ok h nf (s\<lparr>ss_locations := (ss_locations s)\<lparr>ln_server := i\<rparr>\<rparr>)
    \<and> accounted nf s cs (s\<lparr>ss_locations := (ss_locations s)\<lparr>ln_server := i\<rparr>\<rparr>)"
proof -
  have "ils_view i = ils_view (ln_server (ss_locations s))"
    using assms(3)
  proof (cases rule: ils_serve_cases)
    case Card
    then show ?thesis using handleModelCardGet_view [of c "ln_server (ss_locations s)"] by simp
  qed (use assms(2) in simp_all)
  moreover have "ils_format i = ils_format (ln_server (ss_locations s))" by (rule ils_serve_format [OF assms(3)])
  ultimately show ?thesis
    using assms(1)
    by (auto intro: accounted_same_views simp: services_ok_def cache_ok_def net_inv_def net_ok_def net_view_def)
qed

lemma services_run_accounted:
  assumes "services_ok h nf s0" and "services_run (StorageService h t env bt nf push) s0 cs s"
  shows "services_ok h nf s \<and> accounted nf s0 cs s"
  using assms(2)
proof induction
  case run_start
  with assms(1) show ?case by simp
next
  case (run_request cs s c g s')
  with serve_accounted [of h nf s t env bt push c g s'] show ?case by (auto intro: accounted_trans)
next
  case (run_read cs s c g i)
  with read_accounted [of h nf s c g i "[]"] accounted_trans [of nf s0 cs s "[]"] show ?case by auto
qed


section \<open>A pass that reads every registry\<close>

text \<open>Keys made of sanitised names can be listed: they have no comma and are not empty.\<close>

definition listable :: "string \<Rightarrow> bool" where
  "listable key \<longleftrightarrow> key \<noteq> [] \<and> CHR '','' \<notin> set key"

lemma listable_Build: "listable (fst (BuildImportKeyAndURI (SanitizeName a) (SanitizeName b) nf))"
proof -
  have "CHR '','' \<notin> set (SanitizeName n)" for n
    using SanitizeName_name_ok [of n]
    by (auto simp: name_ok_def list_all_iff name_char_def is_alnum_def is_lower_def is_upper_def is_digit_def
        less_eq_char_simp)
  then show ?thesis by (auto simp: listable_def BuildImportKeyAndURI_def Let_def remove_char_def)
qed

lemma listable_pass_keys:
  "k \<in> set (concat (map (registry_keys J r) kfmrs) @ unmanaged_keys c r) \<Longrightarrow> listable k"
  by (auto simp: registry_keys_def models_keys_def unmanaged_keys_def version_key_def service_key_def listable_Build
      split: option.splits sum.splits)

section \<open>Properties\<close>

text \<open>
  C15. In every state the whole bridge reaches, by passes whose key sets may come late,
  reconciliations, requests of other clients and reads, in any order, the services' invariants hold and the controller talks to the same storage
  service in the same format; every document the location service has and every body the storage
  service has was there at the start or was posted to the storage service, under a key that means
  the URI or the key where it is.
\<close>

theorem bridge_invariant:
  assumes "services_ok h nf s0"
    and "bridge_reachable J render indent host (StorageService h t benv bt nf push) r0 s0 r pending s"
  shows "services_ok h nf s \<and> re_storage r = re_storage r0 \<and> re_format r = re_format r0
    \<and> (\<exists>cs. services_run (StorageService h t benv bt nf push) s0 cs s \<and> accounted nf s0 cs s)"
  using bridge_services_run [OF assms(2)] services_run_accounted [OF assms(1)] by blast

text \<open>
  C35. A pass that reads every registry changes, before its key set, only entries of the versions
  it has read; then it posts the keys of these versions and of the services that none manages.  When the
  storage service answers 200, the keys stored are those of the list that were stored: the
  store has converged to what the registries and the cluster hold.
\<close>

theorem pass_converges:
  assumes "setupKFMR env r = Some (ready, r1)" and "re_storage r = SetupBridgeStorageRESTClient host token"
    and "\<forall>kfmr \<in> set (registries env r1). \<exists>contents. LoopOverKFMR J [] kfmr = Some (Inr contents)"
    and "services_ok h nf s"
    and "innerStart J render (storage_link host (StorageService h t benv bt nf push)) env shared r s = Some (r', s')"
    and "versions = concat (map (registry_keys J r1) (registries env r1))"
    and "keys = versions @ unmanaged_keys (ne_cluster env) r1"
  shows "\<exists>s1 rc e. services_ok h nf s1
    \<and> (\<forall>k. (\<forall>key \<in> set versions. \<forall>uri. rekey nf key \<noteq> Some (k, uri)) \<longrightarrow> cms_view (ss_st s1) k = cms_view (ss_st s) k)
    \<and> PostCurrentKeySet (storage_link host (StorageService h t benv bt nf push))
        (SetupBridgeStorageRESTClient host token) keys s1 = ((rc, e), s')
    \<and> (rc = StatusOK \<longrightarrow> dom (cms_view (ss_st s')) = dom (cms_view (ss_st s1)) \<inter> set keys)"
proof -
  let ?send = "storage_link host (StorageService h t benv bt nf push)"
  let ?client = "SetupBridgeStorageRESTClient host token"
  have st: "re_storage r1 = ?client" using assms(2) setupKFMR_keeps [OF assms(1)] by simp
  from assms(5) obtain res where
      v: "visit_registries J render ?send (ne_cluster env) r1 (registries env r1) ([], shared, s) = Some res"
    and res: "s' = (case res of Inl w \<Rightarrow> w
      | Inr acc \<Rightarrow> snd (PostCurrentKeySet ?send (re_storage r1) (fst acc @ unmanaged_keys (ne_cluster env) r1) (snd (snd acc))))"
    by (auto simp: innerStart_run [OF assms(1)])
  obtain vs sh s1 where full: "res = Inr (vs, sh, s1)"
  proof (cases res)
    case (Inl w1)
    with visit_registries_Inl [of J render ?send] v assms(3) show ?thesis by fastforce
  qed (metis prod.collapse)
  from visit_registries_keys [OF v [unfolded full]] assms(6) have vs: "vs = versions" by simp
  have "s' = snd (PostCurrentKeySet ?send ?client keys s1)" using res full vs st assms(7) by simp
  then obtain rc e where post: "PostCurrentKeySet ?send ?client keys s1 = ((rc, e), s')"
    by (metis prod.collapse)
  have listable: "\<forall>k \<in> set keys. listable k" using listable_pass_keys assms(6,7) by blast
  then have "keys \<noteq> [[]]" "\<forall>k \<in> set keys. CHR '','' \<notin> set k" by (auto simp: listable_def)
  moreover have "touches h nf (set versions) s s1"
    using touching.visit_registries_R [OF st v] full assms(6) by simp
  then have ok: "services_ok h nf s1"
    and frame: "\<forall>k. (\<forall>key \<in> set versions. \<forall>uri. rekey nf key \<noteq> Some (k, uri)) \<longrightarrow> cms_view (ss_st s1) k = cms_view (ss_st s) k"
    using assms(4) by (simp_all add: touches_def)
  ultimately have "rc = StatusOK \<longrightarrow> dom (cms_view (ss_st s')) = dom (cms_view (ss_st s1)) \<inter> set keys"
    using key_set_effect [OF ok _ _ post] by blast
  with ok frame post show ?thesis by blast
qed


section \<open>The properties at concrete inputs\<close>

theorem bridge_invariant_witness:
  "\<exists>r s c. bridge_reachable example_J example_render (\<lambda>_. []) ''http://s'' example_service
        (example_reconciler []) (example_server []) r [] s
     \<and> services_ok example_host JsonArrayForamt s
     \<and> net_view (ss_locations s) ''/ds/mnist/model-catalog.json'' = Some ''doc''
     \<and> (\<exists>k pb. posts_at JsonArrayForamt c k ''/ds/mnist/model-catalog.json'' pb \<and> pb_Body pb = Some ''doc'')"
proof -
  let ?uri = "''/ds/mnist/model-catalog.json''"
  let ?run = "Reconcile example_J example_render (\<lambda>_. []) (storage_link ''http://s'' example_service)
           (quiet_env (example_cluster example_is)) ''ds'' ''mnist'' (example_reconciler []) (example_server [])"
  have "map_option (\<lambda>(_, _, s). net_view (ss_locations s) ?uri) ?run = Some (Some ''doc'')" by code_simp
  then obtain out r s where run: "?run = Some (out, r, s)" and doc: "net_view (ss_locations s) ?uri = Some ''doc''"
    by auto
  from bridge_event [OF bridge_init run]
  have reach: "bridge_reachable example_J example_render (\<lambda>_. []) ''http://s'' example_service
      (example_reconciler []) (example_server []) r [] s" .
  from bridge_invariant [where t = "''''" and benv = example_env and bt = "''''" and push = True,
      OF services_ok_example, folded example_service_def, OF reach]
  obtain cs where ok: "services_ok example_host JsonArrayForamt s"
    and acc: "accounted JsonArrayForamt (example_server []) cs s" by blast
  have "net_view (ss_locations (example_server [])) ?uri = None" by code_simp
  with acc [unfolded accounted_def, THEN conjunct1, THEN spec, THEN spec, THEN mp, OF doc]
  obtain c k pb where "posts_at JsonArrayForamt c k ?uri pb" "pb_Body pb = Some ''doc''" by auto
  with reach ok doc show ?thesis by blast
qed

theorem pass_converges_witness:
  "\<exists>s' s1 rc e. map_option snd (innerStart example_J example_render (storage_link ''http://s'' example_service)
          (live_env (example_cluster example_is)) None (example_reconciler [(''k'', example_registry)]) stocked_server) = Some s'
     \<and> cms_view (ss_st s1) ''a_v1'' = cms_view (ss_st stocked_server) ''a_v1''
     \<and> cms_view (ss_st stocked_server) ''a_v1'' \<noteq> None
     \<and> PostCurrentKeySet (storage_link ''http://s'' example_service) (SetupBridgeStorageRESTClient ''http://s'' '''')
          [''mnist_v1'', ''ds_mnist''] s1 = ((rc, e), s')
     \<and> (rc = StatusOK \<longrightarrow> cms_view (ss_st s') ''a_v1'' = None)"
proof -
  let ?r = "example_reconciler [(''k'', example_registry)]" and ?env = "live_env (example_cluster example_is)"
  let ?run = "innerStart example_J example_render (storage_link ''http://s'' example_service) ?env None ?r stocked_server"
  have read: "\<forall>kfmr \<in> set (registries ?env ?r). \<exists>contents. LoopOverKFMR example_J [] kfmr = Some (Inr contents)"
    by (simp add: example_registries example_pass)
  have fmt: "re_format ?r = JsonArrayForamt" by (simp add: example_reconciler_def)
  have "?run \<noteq> None" by (rule innerStart_json [OF example_setup fmt]) (simp add: example_registries example_pass)
  then obtain r' s' where run: "?run = Some (r', s')" by auto
  have "registry_keys example_J ?r example_registry = [''mnist_v1'']" by code_simp
  then have versions: "[''mnist_v1''] = concat (map (registry_keys example_J ?r) (registries ?env ?r))"
    by (simp add: example_registries)
  have "unmanaged_keys (ne_cluster ?env) ?r = [''ds_mnist'']" by code_simp
  then have keys: "[''mnist_v1'', ''ds_mnist''] = [''mnist_v1''] @ unmanaged_keys (ne_cluster ?env) ?r" by simp
  have st: "re_storage ?r = SetupBridgeStorageRESTClient ''http://s'' ''''" by (simp add: example_reconciler_def)
  have other: "rekey JsonArrayForamt ''mnist_v1'' \<noteq> Some (''a_v1'', uri)" for uri by (simp add: example_key)
  have stocked: "cms_view (ss_st stocked_server) ''a_v1'' \<noteq> None" by code_simp
  from pass_converges [where t = "''''" and benv = example_env and bt = "''''" and push = True,
      OF example_setup st read stocked_server_ok, folded example_service_def, OF run versions keys]
  obtain s1 rc e where frame: "\<forall>k. (\<forall>key \<in> set [''mnist_v1'']. \<forall>uri. rekey JsonArrayForamt key \<noteq> Some (k, uri)) \<longrightarrow>
        cms_view (ss_st s1) k = cms_view (ss_st stocked_server) k"
    and post: "PostCurrentKeySet (storage_link ''http://s'' example_service) (SetupBridgeStorageRESTClient ''http://s'' '''')
          [''mnist_v1'', ''ds_mnist''] s1 = ((rc, e), s')"
    and purged: "rc = StatusOK \<longrightarrow> dom (cms_view (ss_st s')) = dom (cms_view (ss_st s1)) \<inter> set [''mnist_v1'', ''ds_mnist'']"
    by (elim exE conjE)
  have s1: "cms_view (ss_st s1) ''a_v1'' = cms_view (ss_st stocked_server) ''a_v1''"
    using frame other by simp
  have "rc = StatusOK \<longrightarrow> ''a_v1'' \<notin> dom (cms_view (ss_st s'))" using purged by simp
  with run s1 stocked post show ?thesis by (auto simp: domIff)
qed


section \<open>A service reported while a pass is under way\<close>

lemma processBWriter_stored:
  assumes "re_storage r = SetupBridgeStorageRESTClient host token" and "services_ok h nf s"
    and "CHR ''_'' \<notin> set m" and "CHR ''_'' \<notin> set v"
    and "processBWriter render (storage_link host (StorageService h t env bt nf push)) r docs
           (fst (BuildImportKeyAndURI m v nf')) ty ep ck mc s = (None, s')"
  shows "cms_view (ss_st s') (fst (BuildImportKeyAndURI m v nf)) \<noteq> None"
proof -
  obtain rc body e where up: "storage_UpsertModel (storage_link host (StorageService h t env bt nf push))
      (SetupBridgeStorageRESTClient host token) (fst (BuildImportKeyAndURI m v nf')) ty ep ck mc (Some (render docs)) s
      = ((rc, body, e), s')" and "rc = StatusOK \<or> rc = StatusCreated"
    using assms(1,5) by (auto simp: processBWriter_def split: prod.splits option.splits if_splits)
  from reported_effect [OF assms(2-4) this] show ?thesis by auto
qed

lemma fst_Build_format: "fst (BuildImportKeyAndURI m v nf) = fst (BuildImportKeyAndURI m v nf')"
  by (simp add: BuildImportKeyAndURI_def Let_def)

lemma pass_reports_keys:
  assumes "pass_reports J render send env shared r w = Some (r1, Some keys, w1)"
  shows "\<forall>k \<in> set keys. listable k"
proof -
  from assms obtain ready r' res where
      visit: "visit_registries J render send (ne_cluster env) r' (registries env r') ([], shared, w) = Some res"
    and rest: "(case res of
        Inl w \<Rightarrow> Some (r', None, w)
      | Inr (ks, shared, w) \<Rightarrow> Some (r', Some (ks @ unmanaged_keys (ne_cluster env) r'), w)) = Some (r1, Some keys, w1)"
    by (auto simp: pass_reports_def Option.bind_eq_Some_conv)
  then obtain ks sh where "visit_registries J render send (ne_cluster env) r1 (registries env r1) ([], shared, w)
      = Some (Inr (ks, sh, w1))"
    and keys: "keys = ks @ unmanaged_keys (ne_cluster env) r1"
    by (auto split: sum.splits)
  from visit_registries_keys [OF this(1)]
  have "ks = concat (map (registry_keys J r1) (registries env r1))" by simp
  with keys listable_pass_keys show ?thesis by blast
qed

text \<open>A key set adds nothing, and a pass only the entries of the versions it has read.\<close>

lemma PostCurrentKeySet_keeps_absent:
  assumes "services_ok h nf s" and "cms_view (ss_st s) k = None"
    and "PostCurrentKeySet (storage_link host (StorageService h t env bt nf push))
           (SetupBridgeStorageRESTClient host token) keys s = (x, s')"
  shows "services_ok h nf s' \<and> cms_view (ss_st s') k = None"
proof -
  obtain g where post: "handleCatalogCurrentKeySetPost (StorageService h t env bt nf push) (keyset_request token keys) s = (g, s')"
    using assms(3) by (auto simp: PostCurrentKeySet_link split: prod.splits)
  have "cms_view (ss_st s') k = None"
    using keyset_provenance(2) [OF assms(1) post, of k] assms(2) by (cases "cms_view (ss_st s') k") auto
  moreover have "services_ok h nf s'"
    using services_ok_keyset [OF assms(1), of t env bt push "keyset_request token keys"] post by simp
  ultimately show ?thesis by simp
qed

lemma pass_keeps_absent:
  assumes "services_ok h nf s" and "cms_view (ss_st s) k = None"
    and up: "setupKFMR env r = Some (ready, r1)" and st: "re_storage r = SetupBridgeStorageRESTClient host token"
    and run: "innerStart J render (storage_link host (StorageService h t benv bt nf push)) env shared r s = Some (r', s')"
    and other: "\<forall>key \<in> set (concat (map (registry_keys J r1) (registries env r1))). \<forall>uri. rekey nf key \<noteq> Some (k, uri)"
  shows "cms_view (ss_st s') k = None"
proof -
  let ?send = "storage_link host (StorageService h t benv bt nf push)"
  have st1: "re_storage r1 = SetupBridgeStorageRESTClient host token" using st setupKFMR_keeps [OF up] by simp
  from run obtain res where
      v: "visit_registries J render ?send (ne_cluster env) r1 (registries env r1) ([], shared, s) = Some res"
    and res: "s' = (case res of Inl w \<Rightarrow> w
      | Inr acc \<Rightarrow> snd (PostCurrentKeySet ?send (re_storage r1) (fst acc @ unmanaged_keys (ne_cluster env) r1) (snd (snd acc))))"
    by (auto simp: innerStart_run [OF up])
  define s1 where "s1 = (case res of Inl w \<Rightarrow> w | Inr (_, _, w) \<Rightarrow> w)"
  from touching.visit_registries_R [OF st1 v] assms(1,2) other
  have ok1: "services_ok h nf s1" and absent: "cms_view (ss_st s1) k = None"
    by (simp_all add: touches_def s1_def)
  show ?thesis
  proof (cases res)
    case (Inl w)
    with res absent show ?thesis by (simp add: s1_def)
  next
    case (Inr acc)
    obtain x where "PostCurrentKeySet ?send (SetupBridgeStorageRESTClient host token)
        (fst acc @ unmanaged_keys (ne_cluster env) r1) s1 = (x, s')"
      using res Inr st1 by (simp add: s1_def split_beta) (metis prod.collapse)
    from PostCurrentKeySet_keeps_absent [OF ok1 absent this] show ?thesis by simp
  qed
qed

text \<open>
  C31. A ready service that is reported while a pass is under way that has listed the services
  before is stored at first; but when the key set of the pass arrives and is answered with 200, its
  entry is purged, and the next pass, whichever it is, does not bring it back, for a pass reports model
  versions only and leaves the services to their events.
\<close>

theorem late_service_is_purged:
  assumes "services_ok h nf s" and "re_storage r = SetupBridgeStorageRESTClient host token"
    and "pass_reports J render (storage_link host (StorageService h t benv bt nf push)) env shared r s
           = Some (r1, Some keys, s1)"
    and "service_key r1 is \<notin> set keys"
    and "cl_Get (ne_cluster env') namespace name = Inr is" and "registry_match J env' r1 is = Some (None, r2)"
    and "kserve_ready is"
    and "CHR ''_'' \<notin> set (SanitizeName (is_Namespace is))" and "CHR ''_'' \<notin> set (SanitizeName (is_Name is))"
    and "Reconcile J render indent (storage_link host (StorageService h t benv bt nf push)) env' namespace name r1 s1
           = Some ((requeue, None), r3, s2)"
    and "PostCurrentKeySet (storage_link host (StorageService h t benv bt nf push))
           (SetupBridgeStorageRESTClient host token) keys s2 = ((StatusOK, e), s3)"
    and "setupKFMR env'' r3 = Some (ready, r4)"
    and "innerStart J render (storage_link host (StorageService h t benv bt nf push)) env'' shared' r3 s3 = Some (r4, s4)"
    and "\<forall>key \<in> set (concat (map (registry_keys J r4) (registries env'' r4))).
           \<forall>uri. rekey nf key \<noteq> Some (service_key r1 is, uri)"
  shows "cms_view (ss_st s2) (service_key r1 is) \<noteq> None
    \<and> cms_view (ss_st s3) (service_key r1 is) = None \<and> cms_view (ss_st s4) (service_key r1 is) = None"
proof -
  let ?D = "StorageService h t benv bt nf push"
  let ?client = "SetupBridgeStorageRESTClient host token"
  let ?key = "service_key r1 is"
  have key: "?key = fst (BuildImportKeyAndURI (SanitizeName (is_Namespace is)) (SanitizeName (is_Name is)) nf)"
    unfolding service_key_def by (rule fst_Build_format)
  from touching.pass_reports_R [OF assms(2,3)] assms(1) have st1: "re_storage r1 = ?client" and ok1: "services_ok h nf s1"
    by (simp_all add: touches_def)
  have st2: "re_storage r2 = ?client" and fmt2: "re_format r2 = re_format r1"
    using registry_match_keeps [OF assms(6)] st1 by simp_all
  from assms(10) obtain docs where
      p: "processBWriter render (storage_link host ?D) r2 docs (service_key r2 is) KServeNormalizer '''' '''' None s1 = (None, s2)"
    and r3: "r3 = r2"
    using assms(7) unfolding Reconcile_unmatched [OF assms(5,6)] by (auto simp: Let_def prod_eq_iff)
  from processBWriter_stored [OF st2 ok1 assms(8,9) p [unfolded service_key_def]] key
  have stored: "cms_view (ss_st s2) ?key \<noteq> None" by simp
  from touching.processBWriter_R [OF st2 p] ok1 have ok2: "services_ok h nf s2" by (simp add: touches_def)
  have "\<forall>k \<in> set keys. CHR '','' \<notin> set k" "keys \<noteq> [[]]"
    using pass_reports_keys [OF assms(3)] by (auto simp: listable_def)
  from key_set_effect [OF ok2 this assms(11) refl] assms(4) have purged: "cms_view (ss_st s3) ?key = None" by blast
  have "services_ok h nf s3"
    using services_ok_keyset [OF ok2, of t benv bt push "keyset_request token keys"] assms(11)
    by (auto simp: PostCurrentKeySet_link split: prod.splits)
  from pass_keeps_absent [OF this purged assms(12) _ assms(13,14)] st2 r3 stored purged show ?thesis by simp
qed


lemma quiet_setup: "setupKFMR (quiet_env c) (example_reconciler []) = Some (False, example_reconciler [])"
  by (simp add: setupKFMR_def quiet_env_def example_reconciler_def)

theorem late_service_is_purged_witness:
  "\<exists>r3 s2 s3 r4 s4.
     pass_reports example_J example_render (storage_link ''http://s'' example_service) (quiet_env empty_cluster) None
        (example_reconciler []) (example_server []) = Some (example_reconciler [], Some [], example_server [])
     \<and> Reconcile example_J example_render (\<lambda>_. []) (storage_link ''http://s'' example_service)
           (quiet_env (example_cluster example_is)) ''ds'' ''mnist'' (example_reconciler []) (example_server [])
         = Some ((False, None), r3, s2)
     \<and> s3 = snd (PostCurrentKeySet (storage_link ''http://s'' example_service)
           (SetupBridgeStorageRESTClient ''http://s'' '''') [] s2)
     \<and> innerStart example_J example_render (storage_link ''http://s'' example_service)
           (quiet_env (example_cluster example_is)) None r3 s3 = Some (r4, s4)
     \<and> cms_view (ss_st s2) ''ds_mnist'' \<noteq> None \<and> cms_view (ss_st s3) ''ds_mnist'' = None
     \<and> cms_view (ss_st s4) ''ds_mnist'' = None"
proof -
  let ?r = "example_reconciler []" and ?send = "storage_link ''http://s'' example_service"
  let ?env = "quiet_env (example_cluster example_is)" and ?client = "SetupBridgeStorageRESTClient ''http://s'' ''''"
  let ?run = "Reconcile example_J example_render (\<lambda>_. []) ?send ?env ''ds'' ''mnist'' ?r (example_server [])"
  have st: "re_storage ?r = ?client" by (simp add: example_reconciler_def)
  have regs: "registries env ?r = []" for env by (simp add: registries_def example_reconciler_def)
  have pass: "pass_reports example_J example_render ?send (quiet_env empty_cluster) None ?r (example_server [])
      = Some (?r, Some [], example_server [])"
    by (simp add: pass_reports_def quiet_setup regs unmanaged_keys_def) (simp add: quiet_env_def empty_cluster_def)
  have "map_option (\<lambda>(out, _, s). (out, fst (fst (PostCurrentKeySet ?send ?client [] s)))) ?run
      = Some ((False, None), StatusOK)" by code_simp
  then obtain r3 s2 where run: "?run = Some ((False, None), r3, s2)"
    and rc: "fst (fst (PostCurrentKeySet ?send ?client [] s2)) = StatusOK" by auto
  define s3 where "s3 = snd (PostCurrentKeySet ?send ?client [] s2)"
  have post: "PostCurrentKeySet ?send ?client [] s2 = ((StatusOK, snd (fst (PostCurrentKeySet ?send ?client [] s2))), s3)"
    using rc by (simp add: s3_def prod_eq_iff)
  have r3: "r3 = ?r"
    using run unfolding Reconcile_unmatched [OF example_get example_unmatched] by (auto simp: Let_def split: if_splits)
  have up: "setupKFMR ?env r3 = Some (False, ?r)" by (simp add: r3 quiet_setup)
  have "innerStart example_J example_render ?send ?env None r3 s3
      = Some (?r, snd (PostCurrentKeySet ?send ?client (unmanaged_keys (ne_cluster ?env) ?r) s3))"
    by (simp add: r3 innerStart_run [OF quiet_setup] regs st)
  then obtain s4 where later: "innerStart example_J example_render ?send ?env None r3 s3 = Some (?r, s4)" by blast
  have key: "service_key ?r example_is = ''ds_mnist''" by code_simp
  have names: "CHR ''_'' \<notin> set (SanitizeName (is_Namespace example_is))"
    "CHR ''_'' \<notin> set (SanitizeName (is_Name example_is))" by code_simp+
  have gone: "service_key ?r example_is \<notin> set []" by simp
  have other: "\<forall>key \<in> set (concat (map (registry_keys example_J ?r) (registries ?env ?r))).
      \<forall>uri. rekey JsonArrayForamt key \<noteq> Some (service_key ?r example_is, uri)" by (simp add: regs)
  from late_service_is_purged [where t = "''''" and benv = example_env and bt = "''''" and push = True,
      OF services_ok_example st, folded example_service_def,
      OF pass gone example_get example_unmatched example_is_ready names run post up later other]
  show ?thesis using pass run s3_def later unfolding key by blast
qed

end
