(* ===== verification/Repair.thy ===== *)
theory Repair
  imports Bridge
begin

text \<open>
  What the two services hold after requests that were all answered with 200 or 201.  For each
  accepted request there is an abstract operation on one map from keys to documents; the stored
  bodies follow that map, and the location service serves the stored document of every key that a
  post was accepted for, whatever it served before.  So a pass of the normaliser in which
  every request is accepted repairs the keys it reports.  The requests a pass sends, which it
  does not keep, are made visible by a transport that logs them; a pass over that transport
  does what it does over the bare one.
\<close>

section \<open>The abstract map\<close>

text \<open>A key without a slash that the services keep as it is; then its URI is not that of another such key.\<close>

definition plain_key :: "NormalizerFormat \<Rightarrow> string \<Rightarrow> bool" where
  "plain_key nf k \<longleftrightarrow> CHR ''/'' \<notin> set k \<and> (case rekey nf k of None \<Rightarrow> False | Some (k', _) \<Rightarrow> k' = k)"

definition is_upsert :: "http_request \<Rightarrow> bool" where
  "is_upsert c \<longleftrightarrow> rq_method c = POST \<and> rq_url c = UpsertURI"

definition is_keyset :: "http_request \<Rightarrow> bool" where
  "is_keyset c \<longleftrightarrow> rq_method c = POST \<and> rq_url c = CurrentKeySetURI"

text \<open>What a request that is accepted does to the map: a post sets its key, a key set restricts the map.\<close>

definition request_spec :: "NormalizerFormat \<Rightarrow> http_request \<Rightarrow> (string \<rightharpoonup> bytes) \<Rightarrow> (string \<rightharpoonup> bytes)" where
  "request_spec nf c m =
     (if is_upsert c
      then (case rekey nf (gin_Query c KeyQueryParam) of
              None \<Rightarrow> m
            | Some (k, _) \<Rightarrow> m(k \<mapsto> pb_Body (fst (gin_BindJSON c))))
      else if is_keyset c then m |` set (posted_keys c)
      else m)"

text \<open>The map the store holds, and the keys whose document the location service serves.\<close>

definition stored_docs :: "('w ConfigMapBridgeStorage, location_net, 'b) StorageRESTServer \<Rightarrow> (string \<rightharpoonup> bytes)" where
  "stored_docs s k = map_option sb_Body (cms_view (ss_st s) k)"

definition in_step ::
    "NormalizerFormat \<Rightarrow> ('w ConfigMapBridgeStorage, location_net, 'b) StorageRESTServer \<Rightarrow> string \<Rightarrow> bool" where
  "in_step nf s k \<longleftrightarrow>
     (case (stored_docs s k, rekey nf k) of
        (None, _) \<Rightarrow> True
      | (Some doc, Some (_, uri)) \<Rightarrow> net_view (ss_locations s) uri = doc
      | _ \<Rightarrow> False)"

definition reported :: "NormalizerFormat \<Rightarrow> http_request list \<Rightarrow> string \<Rightarrow> bool" where
  "reported nf cs k \<longleftrightarrow>
     list_ex (\<lambda>c. is_upsert c \<and> (case rekey nf (gin_Query c KeyQueryParam) of None \<Rightarrow> False | Some (k', _) \<Rightarrow> k' = k)) cs"

text \<open>The stored keys are plain, as all keys built from sanitised names are.\<close>

definition plain_store ::
    "NormalizerFormat \<Rightarrow> ('w ConfigMapBridgeStorage, location_net, 'b) StorageRESTServer \<Rightarrow> bool" where
  "plain_store nf s \<longleftrightarrow> (\<forall>k \<in> dom (stored_docs s). plain_key nf k)"

text \<open>From \<open>s\<close> to \<open>s'\<close> the services have followed the map through the requests \<open>cs\<close>.\<close>

definition follows ::
    "string \<Rightarrow> NormalizerFormat \<Rightarrow> http_request list \<Rightarrow> ('w ConfigMapBridgeStorage, location_net, 'b) StorageRESTServer
      \<Rightarrow> ('w ConfigMapBridgeStorage, location_net, 'b) StorageRESTServer \<Rightarrow> bool" where
  "follows h nf cs s s' \<longleftrightarrow> (services_ok h nf s \<and> plain_store nf s \<longrightarrow>
     services_ok h nf s' \<and> plain_store nf s'
     \<and> stored_docs s' = fold (request_spec nf) cs (stored_docs s)
     \<and> (\<forall>k. in_step nf s k \<or> reported nf cs k \<longrightarrow> in_step nf s' k))"

lemma follows_refl [simp]: "follows h nf [] s s"
  by (simp add: follows_def reported_def)

lemma follows_trans: "follows h nf cs s s1 \<Longrightarrow> follows h nf cs' s1 s2 \<Longrightarrow> follows h nf (cs @ cs') s s2"
  by (auto simp: follows_def reported_def)

section \<open>Plain keys have their own URI\<close>

lemma set_go_split: "x \<in> set (go_split c s) \<Longrightarrow> set x \<subseteq> set s"
proof (induction s arbitrary: x)
  case (Cons y ys)
  have fields: "\<Union> (set ` set (go_split c ys)) \<subseteq> set ys" using Cons.IH by blast
  have "go_split c ys = hd (go_split c ys) # tl (go_split c ys)" by simp
  with fields have "set (hd (go_split c ys)) \<union> \<Union> (set ` set (tl (go_split c ys))) \<subseteq> set ys"
    by (metis Sup_insert image_insert list.simps(15))
  with fields Cons.prems show ?case by (auto split: if_splits)
qed simp

lemma rekey_slashless:
  assumes "rekey nf key = Some (k, uri)" and "CHR ''/'' \<notin> set key"
  shows "\<exists>a b fn. k = a @ ''_'' @ b \<and> uri = ''/'' @ a @ ''/'' @ b @ ''/'' @ fn \<and> CHR ''/'' \<notin> set a \<and> CHR ''/'' \<notin> set b"
proof -
  let ?segs = "go_split (CHR ''_'') key"
  from assms(1) have len: "\<not> length ?segs < 2" and b: "BuildImportKeyAndURI (?segs ! 0) (?segs ! 1) nf = (k, uri)"
    by (auto simp: rekey_def Let_def split: if_splits)
  have "?segs ! 0 \<in> set ?segs" "?segs ! 1 \<in> set ?segs" using len by (simp_all del: One_nat_def)
  then have "CHR ''/'' \<notin> set (remove_char (CHR '' '') (?segs ! 0))" "CHR ''/'' \<notin> set (remove_char (CHR '' '') (?segs ! 1))"
    using assms(2) set_go_split by (fastforce simp: remove_char_def)+
  with b show ?thesis unfolding BuildImportKeyAndURI_def Let_def by blast
qed

lemma rekey_plain:
  assumes "rekey nf key = Some (k, uri)" and "CHR ''/'' \<notin> set key"
  shows "plain_key nf k"
  using rekey_slashless [OF assms] rekey_rekey [OF assms(1)] by (auto simp: plain_key_def)

lemma split_unique:
  assumes "a @ c # t = a' @ c # t'" and "c \<notin> set a" and "c \<notin> set a'"
  shows "a = a' \<and> t = t'"
  using assms by (auto simp: append_eq_append_conv2 Cons_eq_append_conv append_eq_Cons_conv)

lemma plain_uri_inject:
  assumes "plain_key nf k" "rekey nf k = Some (x, uri)" and "plain_key nf k'" "rekey nf k' = Some (x', uri)"
  shows "k = k'"
proof -
  have x: "x = k" "x' = k'" and slash: "CHR ''/'' \<notin> set k" "CHR ''/'' \<notin> set k'"
    using assms by (auto simp: plain_key_def)
  obtain a b fn where k: "k = a @ ''_'' @ b" and u: "uri = ''/'' @ a @ ''/'' @ b @ ''/'' @ fn"
    and ab: "CHR ''/'' \<notin> set a" "CHR ''/'' \<notin> set b"
    using rekey_slashless [OF assms(2) slash(1)] x by blast
  obtain a' b' fn' where k': "k' = a' @ ''_'' @ b'" and u': "uri = ''/'' @ a' @ ''/'' @ b' @ ''/'' @ fn'"
    and ab': "CHR ''/'' \<notin> set a'" "CHR ''/'' \<notin> set b'"
    using rekey_slashless [OF assms(4) slash(2)] x by blast
  have "a @ CHR ''/'' # (b @ CHR ''/'' # fn) = a' @ CHR ''/'' # (b' @ CHR ''/'' # fn')" using u u' by simp
  from split_unique [OF this ab(1) ab'(1)] have "a = a'" "b @ CHR ''/'' # fn = b' @ CHR ''/'' # fn'" by simp_all
  with split_unique [OF this(2) ab(2) ab'(2)] k k' show ?thesis by simp
qed

section \<open>One accepted request\<close>

lemma in_stepI:
  "(\<And>doc. stored_docs s k = Some doc \<Longrightarrow> \<exists>k' uri. rekey nf k = Some (k', uri) \<and> net_view (ss_locations s) uri = doc)
   \<Longrightarrow> in_step nf s k"
  by (cases "stored_docs s k") (auto simp: in_step_def split: option.splits)

lemma in_stepD:
  "in_step nf s k \<Longrightarrow> stored_docs s k = Some doc
   \<Longrightarrow> \<exists>k' uri. rekey nf k = Some (k', uri) \<and> net_view (ss_locations s) uri = doc"
  by (auto simp: in_step_def split: option.splits)

text \<open>A key whose entry is as it was and whose URI no changed entry shares stays in step.\<close>

lemma in_step_frame:
  assumes "in_step nf s k" and "stored_docs s' k = stored_docs s k \<or> stored_docs s' k = None"
    and "\<And>k' uri. stored_docs s' k \<noteq> None \<Longrightarrow> rekey nf k = Some (k', uri)
           \<Longrightarrow> net_view (ss_locations s') uri = net_view (ss_locations s) uri"
  shows "in_step nf s' k"
proof (rule in_stepI)
  fix doc
  assume doc: "stored_docs s' k = Some doc"
  with assms(2) have "stored_docs s k = Some doc" by auto
  from in_stepD [OF assms(1) this] assms(3) doc
  show "\<exists>k' uri. rekey nf k = Some (k', uri) \<and> net_view (ss_locations s') uri = doc" by fastforce
qed

lemma post_follows:
  assumes "is_upsert c" and "CHR ''/'' \<notin> set (gin_Query c KeyQueryParam)"
    and "handleCatalogUpsertPost (StorageService h t env bt nf push) c s = (g, s')"
    and "gr_status g = StatusOK \<or> gr_status g = StatusCreated"
  shows "follows h nf [c] s s'"
  unfolding follows_def
proof
  assume "services_ok h nf s \<and> plain_store nf s"
  then have ok: "services_ok h nf s" and plain: "plain_store nf s" by simp_all
  note frame = post_frame [OF ok assms(3)]
  have "gr_status g \<noteq> StatusBadRequest" using assms(4) by (auto simp: status_defs)
  with frame obtain pb k uri where bind: "gin_BindJSON c = (pb, None)"
    and key: "rekey nf (gin_Query c KeyQueryParam) = Some (k, uri)" by (metis option.exhaust prod.collapse snd_conv)
  from accepted_post_effect [OF ok bind key assms(3,4)]
  have stored: "stored_docs s' k = Some (pb_Body pb)" and served: "net_view (ss_locations s') uri = pb_Body pb"
    by (auto simp: stored_docs_def)
  have other: "stored_docs s' j = stored_docs s j" if "j \<noteq> k" for j
    using frame key that by (simp add: stored_docs_def)
  have plain_k: "plain_key nf k" by (rule rekey_plain [OF key assms(2)])
  have docs: "stored_docs s' = (stored_docs s)(k \<mapsto> pb_Body pb)" using stored other by (simp add: fun_eq_iff)
  have "in_step nf s' j" if "in_step nf s j \<or> j = k" for j
  proof (cases "j = k")
    case True
    with stored served rekey_rekey [OF key] show ?thesis by (auto intro: in_stepI)
  next
    case False
    with that have "in_step nf s j" by simp
    then show ?thesis
    proof (rule in_step_frame)
      fix k' u
      assume "stored_docs s' j \<noteq> None" and u: "rekey nf j = Some (k', u)"
      then have "plain_key nf j" using plain other [OF False] by (auto simp: plain_store_def)
      from plain_uri_inject [OF this u plain_k] rekey_rekey [OF key] False have "u \<noteq> uri" by blast
      with frame key show "net_view (ss_locations s') u = net_view (ss_locations s) u" by simp
    qed (use other [OF False] in simp)
  qed
  moreover have "plain_store nf s'" using plain plain_k by (auto simp: plain_store_def docs)
  ultimately show "services_ok h nf s' \<and> plain_store nf s' \<and> stored_docs s' = fold (request_spec nf) [c] (stored_docs s)
    \<and> (\<forall>k. in_step nf s k \<or> reported nf [c] k \<longrightarrow> in_step nf s' k)"
    using frame assms(1) key bind docs by (simp add: request_spec_def reported_def)
qed

lemma keyset_follows:
  assumes "is_keyset c" and "handleCatalogCurrentKeySetPost (StorageService h t env bt nf push) c s = (g, s')"
    and "gr_status g = StatusOK"
  shows "follows h nf [c] s s'"
  unfolding follows_def
proof
  assume "services_ok h nf s \<and> plain_store nf s"
  then have ok: "services_ok h nf s" and plain: "plain_store nf s" by simp_all
  have inv: "cms_ok (ss_st s)" "net_inv h nf (ss_locations s)" using ok by (simp_all add: services_ok_def)
  note facts = svc.currentkeyset_facts [OF inv assms(2), unfolded StorageService_format]
  note dom = facts(5) [OF assms(3)]
  have docs: "stored_docs s' k = (stored_docs s |` set (posted_keys c)) k" for k
    using facts(1) dom by (cases "k \<in> set (posted_keys c)") (auto simp: stored_docs_def restrict_map_def)
  have "in_step nf s' j" if "in_step nf s j" for j
    using that
  proof (rule in_step_frame)
    show "stored_docs s' j = stored_docs s j \<or> stored_docs s' j = None" by (simp add: docs restrict_map_def)
  next
    fix k' u
    assume j: "stored_docs s' j \<noteq> None" and u: "rekey nf j = Some (k', u)"
    then have posted: "j \<in> set (posted_keys c)" and "j \<in> dom (stored_docs s)"
      by (auto simp: docs restrict_map_def split: if_splits)
    then have pj: "plain_key nf j" using plain by (simp add: plain_store_def)
    have "rekey nf x \<noteq> Some (x', u)" if x: "x \<in> dom (cms_view (ss_st s)) - set (posted_keys c)" for x x'
    proof
      assume "rekey nf x = Some (x', u)"
      moreover have "plain_key nf x" using plain x by (auto simp: plain_store_def stored_docs_def)
      ultimately have "x = j" using plain_uri_inject pj u by blast
      with posted x show False by simp
    qed
    then show "net_view (ss_locations s') u = net_view (ss_locations s) u" using facts(3) by simp
  qed
  moreover have "plain_store nf s'" using plain by (auto simp: plain_store_def docs restrict_map_def split: if_splits)
  moreover have "services_ok h nf s'" using services_ok_keyset [OF ok, of t env bt push c] assms(2) by simp
  moreover have "\<not> is_upsert c" using assms(1) by (auto simp: is_upsert_def is_keyset_def uri_defs)
  ultimately show "services_ok h nf s' \<and> plain_store nf s' \<and> stored_docs s' = fold (request_spec nf) [c] (stored_docs s)
    \<and> (\<forall>k. in_step nf s k \<or> reported nf [c] k \<longrightarrow> in_step nf s' k)"
    using assms(1) docs by (simp add: request_spec_def reported_def fun_eq_iff)
qed

text \<open>Every accepted request.\<close>

lemma accepted_follows:
  assumes "ss_serve (StorageService h t env bt nf push) c s = (g, s')"
    and "gr_status g = StatusOK \<or> gr_status g = StatusCreated"
    and "is_upsert c \<longrightarrow> CHR ''/'' \<notin> set (gin_Query c KeyQueryParam)"
  shows "follows h nf [c] s s'"
proof -
  let ?D = "StorageService h t env bt nf push"
  consider (post) "is_upsert c" "handleCatalogUpsertPost ?D c s = (g, s')"
    | (keys) "is_keyset c" "handleCatalogCurrentKeySetPost ?D c s = (g, s')"
    | (query) "\<not> is_upsert c" "\<not> is_keyset c" "handleCatalogList ?D s = (g, s') \<or> handleCatalogFetch ?D c s = (g, s')"
    | (none) "gr_status g = StatusNotFound"
    using assms(1)
    by (auto simp: ss_serve_def is_upsert_def is_keyset_def gin_defs split: http_method.splits if_splits)
  then show ?thesis
  proof cases
    case post
    with assms(2,3) show ?thesis by (auto intro: post_follows)
  next
    case keys
    have "gr_status g = StatusOK"
      using assms(2) keys(2)
      by (auto simp: handleCatalogCurrentKeySetPost_def gin_defs status_defs split: prod.splits option.splits if_splits)
    with keys show ?thesis by (rule keyset_follows)
  next
    case query
    have "follows h nf [c] s s'" if "services_ok h nf s"
    proof -
      from query_keeps [OF that query(3)] have ok: "services_ok h nf s'" and docs: "stored_docs s' = stored_docs s"
        and served: "ss_locations s' = ss_locations s"
        by (simp_all add: stored_docs_def fun_eq_iff)
      have "in_step nf s' k = in_step nf s k" for k unfolding in_step_def docs served ..
      with ok docs show ?thesis
        using query(1,2) by (simp add: follows_def request_spec_def reported_def plain_store_def)
    qed
    then show ?thesis by (auto simp: follows_def)
  next
    case none
    with assms(2) show ?thesis by (auto simp: status_defs)
  qed
qed

section \<open>Transports that answer alike\<close>

text \<open>
  Whatever else a transport keeps beside the world, a pass that gets the same answers does the same.
\<close>

locale same_answers =
  fixes send' :: "'v transport" and send :: "'w transport" and world :: "'v \<Rightarrow> 'w"
  assumes same: "send rq (world v) = apsnd world (send' rq v)"
begin

lemma UpsertModel_same:
  "storage_UpsertModel send b key ty ep ck mc buf (world v) = apsnd world (storage_UpsertModel send' b key ty ep ck mc buf v)"
  by (simp add: storage_UpsertModel_def Let_def same split_beta split: sum.split)

lemma PostCurrentKeySet_same:
  "PostCurrentKeySet send b keys (world v) = apsnd world (PostCurrentKeySet send' b keys v)"
  by (simp add: PostCurrentKeySet_def client_result_def same split_beta split: sum.split)

lemma processBWriter_same:
  "processBWriter render send r buf key ty ep ck mc (world v) = apsnd world (processBWriter render send' r buf key ty ep ck mc v)"
  by (simp add: processBWriter_def UpsertModel_same split_beta split: option.split)

lemma report_same:
  "innerStartCallBackstagePrinters J render send c r kfmr rm mv infsvc is maa ebuf key ep (world v)
   = map_option (apsnd (apsnd world)) (innerStartCallBackstagePrinters J render send' c r kfmr rm mv infsvc is maa ebuf key ep v)"
  by (simp add: innerStartCallBackstagePrinters_def processBWriter_same split_beta map_option_bind comp_def)

lemma visit_version_same:
  "visit_version J render send c r kfmr rm maa mv (keys, f, shared, world v)
   = map_option (apsnd (apsnd (apsnd world))) (visit_version J render send' c r kfmr rm maa mv (keys, f, shared, v))"
  by (simp add: visit_version_def Let_def report_same option.map_comp comp_def split_beta split: sum.split option.split)

lemma visit_versions_same:
  "visit_versions J render send c r kfmr rm maa mva (keys, f, shared, world v)
   = map_option (apsnd (apsnd (apsnd world))) (visit_versions J render send' c r kfmr rm maa mva (keys, f, shared, v))"
proof (induction mva arbitrary: keys f shared v)
  case (Cons mv mva)
  show ?case
  proof (cases "visit_version J render send' c r kfmr rm maa mv (keys, f, shared, v)")
    case (Some acc)
    then show ?thesis using Cons.IH by (cases acc) (simp add: visit_version_same)
  qed (simp add: visit_version_same)
qed simp

lemma visit_rms_same:
  "visit_rms J render send c r kfmr mvs mas rms (keys, shared, world v)
   = map_option (apsnd (apsnd world)) (visit_rms J render send' c r kfmr mvs mas rms (keys, shared, v))"
proof (induction rms arbitrary: keys shared v)
  case (Cons rm rms)
  have "Option.bind (visit_versions J render send c r kfmr rm maa mva (keys, False, shared, world v))
      (\<lambda>(keys, f, shared, w). visit_rms J render send c r kfmr mvs mas rms (keys, shared, w))
    = map_option (apsnd (apsnd world)) (Option.bind (visit_versions J render send' c r kfmr rm maa mva (keys, False, shared, v))
      (\<lambda>(keys, f, shared, w). visit_rms J render send' c r kfmr mvs mas rms (keys, shared, w)))" for maa mva
    by (cases "visit_versions J render send' c r kfmr rm maa mva (keys, False, shared, v)")
      (auto simp: visit_versions_same Cons.IH)
  then show ?case by (simp add: Cons.IH split: option.split)
qed simp

lemma visit_registries_same:
  "visit_registries J render send c r kfmrs (keys, shared, world v)
   = map_option (map_sum world (apsnd (apsnd world))) (visit_registries J render send' c r kfmrs (keys, shared, v))"
proof (induction kfmrs arbitrary: keys shared v)
  case (Cons kfmr kfmrs)
  have "Option.bind (visit_rms J render send c r kfmr mvs mas rms (keys, shared, world v))
      (visit_registries J render send c r kfmrs)
    = map_option (map_sum world (apsnd (apsnd world)))
        (Option.bind (visit_rms J render send' c r kfmr mvs mas rms (keys, shared, v))
          (visit_registries J render send' c r kfmrs))" for mvs mas rms
    by (cases "visit_rms J render send' c r kfmr mvs mas rms (keys, shared, v)") (auto simp: visit_rms_same Cons.IH)
  then show ?case by (simp split: option.split sum.split)
qed simp

lemma innerStart_same:
  "innerStart J render send env shared r (world v) = map_option (apsnd world) (innerStart J render send' env shared r v)"
proof (cases "setupKFMR env r")
  case (Some x)
  then obtain ready r1 where up: "setupKFMR env r = Some (ready, r1)" by (cases x) auto
  show ?thesis
    by (cases "visit_registries J render send' (ne_cluster env) r1 (registries env r1) ([], shared, v)")
      (auto simp: innerStart_run [OF up] visit_registries_same PostCurrentKeySet_same split: sum.split)
qed (simp add: innerStart_def)

end

section \<open>The log of a pass\<close>

type_synonym answer_log = "(http_request \<times> (string + http_response)) list"

definition logged :: "'w transport \<Rightarrow> ('w \<times> answer_log) transport" where
  "logged send rq x = (case send rq (fst x) of (a, w) \<Rightarrow> (a, (w, snd x @ [(rq, a)])))"

interpretation logging: same_answers "logged send" send fst for send
  by unfold_locales (simp add: logged_def split_beta)

definition accepted :: "http_request \<times> (string + http_response) \<Rightarrow> bool" where
  "accepted x \<longleftrightarrow>
     (case snd x of Inl err \<Rightarrow> False | Inr resp \<Rightarrow> rs_status resp = StatusOK \<or> rs_status resp = StatusCreated)"

text \<open>The requests as the server sees them.\<close>

definition requests :: "string \<Rightarrow> answer_log \<Rightarrow> http_request list" where
  "requests host log = map (\<lambda>(rq, a). rq\<lparr>rq_url := drop (length host) (rq_url rq)\<rparr>) log"

lemma requests_append [simp]: "requests host (log @ log') = requests host log @ requests host log'"
  by (simp add: requests_def)

text \<open>What a stretch of a pass has logged, and where it has led when it was accepted.\<close>

definition logs_to ::
    "string \<Rightarrow> NormalizerFormat \<Rightarrow> string \<Rightarrow> string set
      \<Rightarrow> ('w ConfigMapBridgeStorage, location_net, 'b) StorageRESTServer \<times> answer_log
      \<Rightarrow> ('w ConfigMapBridgeStorage, location_net, 'b) StorageRESTServer \<times> answer_log \<Rightarrow> bool" where
  "logs_to h nf host K x x' \<longleftrightarrow> ((\<forall>key \<in> K. CHR ''/'' \<notin> set key) \<longrightarrow>
     (\<exists>d. snd x' = snd x @ d \<and> (list_all accepted d \<longrightarrow> follows h nf (requests host d) (fst x) (fst x'))))"

lemma link_follows:
  assumes "storage_link host (StorageService h t env bt nf push) rq s = (a, s')" and "accepted (rq, a)"
    and "CHR ''/'' \<notin> set (gin_Query rq KeyQueryParam) \<or> rq_url rq \<noteq> host @ UpsertURI"
  shows "follows h nf (requests host [(rq, a)]) s s'"
proof -
  let ?c = "rq\<lparr>rq_url := drop (length host) (rq_url rq)\<rparr>"
  have pre: "has_prefix (rq_url rq) host"
    using assms(1,2) by (auto simp: storage_link_def accepted_def split: if_splits)
  then obtain u where u: "rq_url rq = host @ u" unfolding has_prefix_def by (metis append_take_drop_id)
  from pre obtain g where "ss_serve (StorageService h t env bt nf push) ?c s = (g, s')" and "a = Inr (gin_response g)"
    using assms(1,2) by (auto simp: storage_link_def accepted_def split: if_splits prod.splits)
  moreover have "is_upsert ?c \<longrightarrow> CHR ''/'' \<notin> set (gin_Query ?c KeyQueryParam)"
    using assms(3) u by (auto simp: is_upsert_def gin_Query_def)
  ultimately show ?thesis
    using accepted_follows [of h t env bt nf push ?c s g s'] assms(2)
    by (simp add: requests_def accepted_def gin_response_def)
qed

lemma logged_step:
  assumes "logged (storage_link host (StorageService h t env bt nf push)) rq x = (a, x')"
    and "CHR ''/'' \<notin> set (gin_Query rq KeyQueryParam) \<or> rq_url rq \<noteq> host @ UpsertURI"
  shows "snd x' = snd x @ [(rq, a)]
    \<and> (accepted (rq, a) \<longrightarrow> follows h nf (requests host [(rq, a)]) (fst x) (fst x'))"
  using assms link_follows [of host h t env bt nf push rq "fst x" a "fst x'"]
  by (auto simp: logged_def split: prod.splits)

interpretation recording: reporting "logged (storage_link host (StorageService h t env bt nf push))"
  "SetupBridgeStorageRESTClient host token" "logs_to h nf host"
  for host token h t env bt nf push
proof unfold_locales
  fix w :: "('w ConfigMapBridgeStorage, location_net, 'b) StorageRESTServer \<times> answer_log"
  show "logs_to h nf host {} w w" by (auto simp: logs_to_def requests_def)
next
  fix K K' and w w1 w2 :: "('w ConfigMapBridgeStorage, location_net, 'b) StorageRESTServer \<times> answer_log"
  assume "logs_to h nf host K w w1" and "logs_to h nf host K' w1 w2"
  then show "logs_to h nf host (K \<union> K') w w2"
    by (fastforce simp: logs_to_def intro: follows_trans)
next
  fix K K' and w w1 :: "('w ConfigMapBridgeStorage, location_net, 'b) StorageRESTServer \<times> answer_log"
  assume "logs_to h nf host K w w1" and "K \<subseteq> K'"
  then show "logs_to h nf host K' w w1" by (auto simp: logs_to_def)
next
  fix key ty ep ck mc buf x w and w' :: "('w ConfigMapBridgeStorage, location_net, 'b) StorageRESTServer \<times> answer_log"
  let ?rq = "\<lparr>rq_method = POST, rq_url = host @ UpsertURI, rq_query = [(KeyQueryParam, key), (TypeQueryParam, ty)],
    rq_token = token, rq_body = JsonPayload (Some (marshal_PostBody (storage_post_body ep ck mc buf)))\<rparr>"
  assume "storage_UpsertModel (logged (storage_link host (StorageService h t env bt nf push)))
    (SetupBridgeStorageRESTClient host token) key ty ep ck mc buf w = (x, w')"
  then obtain a where step: "logged (storage_link host (StorageService h t env bt nf push)) ?rq w = (a, w')"
    by (auto simp: storage_UpsertModel_def Let_def SetupBridgeStorageRESTClient_def split: prod.splits sum.splits)
  have "gin_Query ?rq KeyQueryParam = key" by (simp add: gin_Query_def)
  with logged_step [OF step] show "logs_to h nf host {key} w w'" by (auto simp: logs_to_def)
qed

section \<open>Sequences of requests\<close>

text \<open>The storage service serving one request after the other.\<close>

fun serve_all ::
    "('s, 'l, 'b) StorageDeps \<Rightarrow> http_request list \<Rightarrow> ('s, 'l, 'b) StorageRESTServer
      \<Rightarrow> gin_result list \<times> ('s, 'l, 'b) StorageRESTServer" where
  "serve_all D [] s = ([], s)"
| "serve_all D (c # cs) s =
     (case ss_serve D c s of (g, s) \<Rightarrow> (case serve_all D cs s of (gs, s) \<Rightarrow> (g # gs, s)))"

definition success :: "gin_result \<Rightarrow> bool" where
  "success g \<longleftrightarrow> gr_status g = StatusOK \<or> gr_status g = StatusCreated"

definition slashless_post :: "http_request \<Rightarrow> bool" where
  "slashless_post c \<longleftrightarrow> (is_upsert c \<longrightarrow> CHR ''/'' \<notin> set (gin_Query c KeyQueryParam))"

lemma serve_all_follows:
  assumes "serve_all (StorageService h t env bt nf push) cs s = (gs, s')"
    and "list_all success gs" and "list_all slashless_post cs"
  shows "follows h nf cs s s'"
  using assms
proof (induction cs arbitrary: s gs)
  case (Cons c cs)
  then obtain g s1 gs1 where c: "ss_serve (StorageService h t env bt nf push) c s = (g, s1)"
    and cs: "serve_all (StorageService h t env bt nf push) cs s1 = (gs1, s')" and gs: "gs = g # gs1"
    by (auto split: prod.splits)
  have "follows h nf [c] s s1"
    using accepted_follows [OF c] Cons.prems(2,3) by (simp add: gs success_def slashless_post_def)
  moreover have "follows h nf cs s1 s'" using Cons.IH [OF cs] Cons.prems(2,3) by (simp add: gs)
  ultimately show ?case using follows_trans by fastforce
qed simp

text \<open>Whatever state the services are in, accepted requests make them follow the map.\<close>

lemma accepted_requests_refine_map:
  assumes "services_ok h nf s" and "plain_store nf s"
    and "serve_all (StorageService h t env bt nf push) cs s = (gs, s')"
    and "list_all success gs" and "list_all slashless_post cs"
  shows "services_ok h nf s' \<and> plain_store nf s'
    \<and> stored_docs s' = fold (request_spec nf) cs (stored_docs s)
    \<and> (\<forall>k. in_step nf s k \<or> reported nf cs k \<longrightarrow> in_step nf s' k)"
  using serve_all_follows [OF assms(3-5)] assms(1,2) by (simp add: follows_def)

section \<open>A pass\<close>

lemma slashless_Build: "CHR ''/'' \<notin> set (fst (BuildImportKeyAndURI (SanitizeName a) (SanitizeName b) nf))"
proof -
  have "CHR ''/'' \<notin> set (SanitizeName n)" for n
    using SanitizeName_name_ok [of n]
    by (auto simp: name_ok_def list_all_iff name_char_def is_alnum_def is_lower_def is_upper_def is_digit_def
        less_eq_char_simp)
  then show ?thesis by (auto simp: BuildImportKeyAndURI_def Let_def remove_char_def)
qed

lemma slashless_versions: "k \<in> set (concat (map (registry_keys J r) kfmrs)) \<Longrightarrow> CHR ''/'' \<notin> set k"
  by (auto simp: registry_keys_def models_keys_def version_key_def slashless_Build split: option.splits sum.splits)

lemma posted_listable: "\<forall>k \<in> set keys. listable k \<Longrightarrow> posted_keys (keyset_request token keys) = keys"
  by (intro posted_keys_request) (auto simp: listable_def)

lemma keyset_logged:
  assumes "PostCurrentKeySet (logged (storage_link host (StorageService h t env bt nf push)))
      (SetupBridgeStorageRESTClient host token) keys x = (y, x')"
    and "\<forall>k \<in> set keys. listable k"
  shows "\<exists>rq a. snd x' = snd x @ [(rq, a)]
    \<and> requests host [(rq, a)] = [keyset_request token keys] \<and> posted_keys (keyset_request token keys) = keys
    \<and> (accepted (rq, a) \<longrightarrow> follows h nf [keyset_request token keys] (fst x) (fst x'))"
proof -
  let ?rq = "\<lparr>rq_method = POST, rq_url = host @ CurrentKeySetURI, rq_query = [(KeyQueryParam, go_join '','' keys)],
    rq_token = token, rq_body = NoPayload\<rparr>"
  have snd_x': "x' = snd (PostCurrentKeySet (logged (storage_link host (StorageService h t env bt nf push)))
      (SetupBridgeStorageRESTClient host token) keys x)" using assms(1) by simp
  obtain a where "logged (storage_link host (StorageService h t env bt nf push)) ?rq x = (a, x')"
    unfolding snd_x' PostCurrentKeySet_def client_result_snd by (simp add: SetupBridgeStorageRESTClient_def) (metis prod.collapse)
  moreover have "rq_url ?rq \<noteq> host @ UpsertURI" by (simp add: uri_defs)
  moreover have "requests host [(?rq, a)] = [keyset_request token keys]" for a
    by (simp add: requests_def keyset_request_def)
  moreover have "posted_keys (keyset_request token keys) = keys"
    by (rule posted_listable [OF assms(2)])
  ultimately show ?thesis using logged_step by metis
qed

lemma clean_pass:
  assumes "setupKFMR env r = Some (ready, r1)" and "re_storage r = SetupBridgeStorageRESTClient host token"
    and "innerStart J render (logged (storage_link host (StorageService h t benv bt nf push))) env shared r (s, [])
           = Some (r', s', log)"
    and "list_all accepted log"
  shows "follows h nf (requests host log) s s'
    \<and> ((\<forall>kfmr \<in> set (registries env r1). \<exists>contents. LoopOverKFMR J [] kfmr = Some (Inr contents)) \<longrightarrow>
         requests host log \<noteq> [] \<and> last (requests host log) = keyset_request token
           (concat (map (registry_keys J r1) (registries env r1)) @ unmanaged_keys (ne_cluster env) r1))"
proof -
  let ?send = "logged (storage_link host (StorageService h t benv bt nf push))"
  let ?client = "SetupBridgeStorageRESTClient host token"
  let ?versions = "concat (map (registry_keys J r1) (registries env r1))"
  let ?keys = "?versions @ unmanaged_keys (ne_cluster env) r1"
  have st: "re_storage r1 = ?client" using assms(2) setupKFMR_keeps [OF assms(1)] by simp
  from assms(3) obtain res where
      v: "visit_registries J render ?send (ne_cluster env) r1 (registries env r1) ([], shared, (s, [])) = Some res"
    and res: "(s', log) = (case res of Inl w \<Rightarrow> w
      | Inr acc \<Rightarrow> snd (PostCurrentKeySet ?send (re_storage r1) (fst acc @ unmanaged_keys (ne_cluster env) r1) (snd (snd acc))))"
    by (auto simp: innerStart_run [OF assms(1)])
  obtain s1 d where s1: "(s1, d) = (case res of Inl w \<Rightarrow> w | Inr (_, _, w) \<Rightarrow> w)" by (metis prod.collapse)
  from recording.visit_registries_R [OF st v] slashless_versions
  have reports: "list_all accepted d \<longrightarrow> follows h nf (requests host d) s s1"
    by (auto simp: logs_to_def s1 [symmetric])
  show ?thesis
  proof (cases res)
    case (Inl w)
    with res s1 reports assms(4) visit_registries_Inl [OF v [unfolded Inl]] show ?thesis by fastforce
  next
    case (Inr acc)
    obtain vs sh where acc: "acc = (vs, sh, s1, d)" using s1 Inr by (cases acc) auto
    have vs: "vs = ?versions" using visit_registries_keys [OF v [unfolded Inr acc]] by simp
    have "PostCurrentKeySet ?send ?client ?keys (s1, d)
        = (fst (PostCurrentKeySet ?send ?client ?keys (s1, d)), (s', log))"
      using res by (simp add: Inr acc vs st)
    from keyset_logged [OF this] listable_pass_keys obtain rq a where
        log: "log = d @ [(rq, a)]" and rq: "requests host [(rq, a)] = [keyset_request token ?keys]"
      and post: "accepted (rq, a) \<longrightarrow> follows h nf [keyset_request token ?keys] s1 s'"
      by fastforce
    from follows_trans [of h nf "requests host d" s s1 "[keyset_request token ?keys]" s'] reports post assms(4)
    show ?thesis by (simp add: log rq)
  qed
qed

lemma fold_last_keyset:
  assumes "cs \<noteq> []" and "is_keyset (last cs)"
  shows "dom (fold (request_spec nf) cs m) \<subseteq> set (posted_keys (last cs))"
proof -
  have "cs = butlast cs @ [last cs]" using assms(1) by simp
  then have "fold (request_spec nf) cs m = request_spec nf (last cs) (fold (request_spec nf) (butlast cs) m)"
    by (metis fold_simps fold_append comp_apply)
  moreover have "\<not> is_upsert (last cs)" using assms(2) by (auto simp: is_upsert_def is_keyset_def uri_defs)
  ultimately show ?thesis using assms(2) by (auto simp: request_spec_def restrict_map_def split: if_splits)
qed

section \<open>Properties\<close>

text \<open>
  C14. A pass in which every request is answered with 200 or 201 repairs: afterwards the store is
  what the requests of the pass, one after the other, make of the map it held; every key the pass
  has reported is, if still stored, served by the location service with the stored document,
  whatever the two held before; no other key falls out of step; and if the registries could be
  read, only keys of the posted list are stored.  The log of the requests is a ghost:
  the pass does the same without it.
\<close>

theorem clean_pass_repairs:
  assumes "services_ok h nf s" and "plain_store nf s"
    and "setupKFMR env r = Some (ready, r1)" and "re_storage r = SetupBridgeStorageRESTClient host token"
    and "innerStart J render (logged (storage_link host (StorageService h t benv bt nf push))) env shared r (s, [])
           = Some (r', s', log)"
    and "list_all accepted log"
  shows "innerStart J render (storage_link host (StorageService h t benv bt nf push)) env shared r s = Some (r', s')
    \<and> services_ok h nf s' \<and> plain_store nf s'
    \<and> stored_docs s' = fold (request_spec nf) (requests host log) (stored_docs s)
    \<and> (\<forall>k. in_step nf s k \<or> reported nf (requests host log) k \<longrightarrow> in_step nf s' k)
    \<and> ((\<forall>kfmr \<in> set (registries env r1). \<exists>contents. LoopOverKFMR J [] kfmr = Some (Inr contents)) \<longrightarrow>
         dom (stored_docs s') \<subseteq> set (concat (map (registry_keys J r1) (registries env r1))
                                    @ unmanaged_keys (ne_cluster env) r1))"
proof -
  let ?D = "StorageService h t benv bt nf push"
  let ?keys = "concat (map (registry_keys J r1) (registries env r1)) @ unmanaged_keys (ne_cluster env) r1"
  from clean_pass [OF assms(3-6)] assms(1,2)
  have follows: "services_ok h nf s' \<and> plain_store nf s'
      \<and> stored_docs s' = fold (request_spec nf) (requests host log) (stored_docs s)
      \<and> (\<forall>k. in_step nf s k \<or> reported nf (requests host log) k \<longrightarrow> in_step nf s' k)"
    by (simp add: follows_def)
  have "dom (stored_docs s') \<subseteq> set ?keys"
    if read: "\<forall>kfmr \<in> set (registries env r1). \<exists>contents. LoopOverKFMR J [] kfmr = Some (Inr contents)"
  proof -
    from clean_pass [OF assms(3-6)] read have "requests host log \<noteq> []"
      and l: "last (requests host log) = keyset_request token ?keys" by simp_all
    moreover have "is_keyset (last (requests host log))" by (simp add: l is_keyset_def keyset_request_def)
    moreover have "posted_keys (keyset_request token ?keys) = ?keys"
      using listable_pass_keys by (intro posted_listable ballI)
    ultimately show ?thesis using fold_last_keyset [of "requests host log"] follows by metis
  qed
  moreover have "innerStart J render (storage_link host ?D) env shared r s = Some (r', s')"
    using logging.innerStart_same [of J render "storage_link host ?D" env shared r "(s, [])"] assms(5) by simp
  ultimately show ?thesis using follows by blast
qed

section \<open>The properties at concrete inputs\<close>

text \<open>A model is stored whose document the location service has not got.\<close>

definition unserved_server :: "(mem_world ConfigMapBridgeStorage, location_net, nat) StorageRESTServer" where
  "unserved_server = \<lparr>ss_st = snd (cms_Upsert ''mnist_v1'' (example_body ''7'') (mem_store [] 5)),
     ss_pushedLocations = [], ss_locations = example_net [], ss_bkstg = None, ss_world = 0\<rparr>"

lemma unserved_server_ok:
  "services_ok example_host JsonArrayForamt unserved_server" "plain_store JsonArrayForamt unserved_server"
proof -
  note up = cms_Upsert_effect [OF cms_ok_mem_store prod.collapse [symmetric], of "''mnist_v1''" "example_body ''7''" "[]" 5]
  from up show "services_ok example_host JsonArrayForamt unserved_server"
    by (simp add: services_ok_def unserved_server_def cache_ok_def net_inv_def net_ok_def example_net_def example_host_def
        NewImportLocationServer_def)
  have "cms_view (mem_store [] 5) k = None" for k by code_simp
  with up have eff: "dom (cms_view (ss_st unserved_server)) \<subseteq> {''mnist_v1''}"
    by (auto simp: unserved_server_def split: if_splits)
  have "plain_key JsonArrayForamt ''mnist_v1''" by code_simp
  moreover have "dom (stored_docs unserved_server) = dom (cms_view (ss_st unserved_server))"
    by (auto simp: stored_docs_def)
  ultimately show "plain_store JsonArrayForamt unserved_server" using eff by (auto simp: plain_store_def)
qed

text \<open>
  A pass that reports one version and posts the key set, with a renderer that ignores the document:
  the requests it sends are then known without the document.
\<close>

lemma constant_report:
  assumes "re_format r = JsonArrayForamt" and "model_card J kfmr model_card_key maa = (mc, mk)"
  shows "\<exists>e ebuf'. innerStartCallBackstagePrinters J (\<lambda>_. doc) send c r kfmr rm mv infsvc is maa ebuf key ep w
    = Some (e, ebuf', snd (processBWriter (\<lambda>_. doc) send r [] key KubeflowNormalizer ep mk mc w))"
proof -
  have "processBWriter (\<lambda>_. doc) send r docs key ty ep mk mc w = processBWriter (\<lambda>_. doc) send r [] key ty ep mk mc w"
    for docs ty by (simp add: processBWriter_def)
  moreover obtain x where "kf_CallBackstagePrinters J (re_defaultOwner r) (re_defaultLifecycle r) rm mv maa infsvc is kfmr c ebuf
      (re_format r) = Some x"
    unfolding assms(1) using kf_CallBackstagePrinters_json by fast
  ultimately show ?thesis
    unfolding innerStartCallBackstagePrinters_def by (simp add: assms(2) split_beta) metis
qed

lemma clean_run:
  fixes send :: "'w transport"
  defines "r \<equiv> example_reconciler [(''k'', example_registry)]"
  shows "innerStart example_J (\<lambda>_. doc) send (live_env (example_cluster example_is)) None r w
    = Some (r, snd (PostCurrentKeySet send (SetupBridgeStorageRESTClient ''http://s'' '''') [''mnist_v1'', ''ds_mnist'']
        (snd (processBWriter (\<lambda>_. doc) send r [] ''mnist_v1'' KubeflowNormalizer (latest_epoch example_rm example_mv) '''' None w))))"
proof -
  let ?env = "live_env (example_cluster example_is)"
  have fmt: "re_format r = JsonArrayForamt" by (simp add: r_def example_reconciler_def)
  have card: "model_card example_J example_registry model_card_key [example_ma] = (None, '''')" by code_simp
  have none: "GetKubeFlowInferenceServicesForModelVersion example_J example_registry example_mv = Inr []" by code_simp
  have key: "version_key r example_rm example_mv = ''mnist_v1''" by (simp add: r_def) code_simp
  have unmanaged: "unmanaged_keys (ne_cluster ?env) r = [''ds_mnist'']" by (simp add: r_def) code_simp
  have shares: "\<not> shares_buffer r None" by (simp add: shares_buffer_def)
  have "\<exists>e ebuf. innerStartCallBackstagePrinters example_J (\<lambda>_. doc) send (ne_cluster ?env) r example_registry
      example_rm example_mv None None [example_ma] [] ''mnist_v1'' (latest_epoch example_rm example_mv) w
    = Some (e, ebuf, snd (processBWriter (\<lambda>_. doc) send r [] ''mnist_v1'' KubeflowNormalizer
        (latest_epoch example_rm example_mv) '''' None w))"
    by (rule constant_report [OF fmt card])
  then obtain e ebuf where report: "innerStartCallBackstagePrinters example_J (\<lambda>_. doc) send (ne_cluster ?env) r example_registry
      example_rm example_mv None None [example_ma] [] ''mnist_v1'' (latest_epoch example_rm example_mv) w
    = Some (e, ebuf, snd (processBWriter (\<lambda>_. doc) send r [] ''mnist_v1'' KubeflowNormalizer
        (latest_epoch example_rm example_mv) '''' None w))"
    by blast
  have "visit_version example_J (\<lambda>_. doc) send (ne_cluster ?env) r example_registry example_rm [(''2'', [example_ma])] example_mv
      ([], False, None, w)
    = Some ([''mnist_v1''], False, None, snd (processBWriter (\<lambda>_. doc) send r [] ''mnist_v1'' KubeflowNormalizer (latest_epoch example_rm example_mv) '''' None w))"
    by (simp add: visit_version_def Let_def none key shares report example_sel gets_def)
  moreover have "re_storage r = SetupBridgeStorageRESTClient ''http://s'' ''''" by (simp add: r_def example_reconciler_def)
  ultimately show ?thesis
    by (simp add: innerStart_run [OF example_setup, folded r_def] example_registries [folded r_def] example_pass
        example_sel SanitizeName_mnist unmanaged)
qed

lemma logged_report_reported:
  assumes "re_storage r = SetupBridgeStorageRESTClient host token" and "rekey nf key = Some (k, uri)"
  shows "reported nf (requests host (snd (snd (processBWriter render (logged send) r docs key ty ep ck mc x)))) k"
  using assms
  by (simp add: processBWriter_def storage_UpsertModel_def SetupBridgeStorageRESTClient_def Let_def logged_def split_beta
      reported_def requests_def is_upsert_def gin_Query_def split: sum.split option.split)

lemma logged_keyset_keeps:
  "reported nf (requests host (snd x)) k \<Longrightarrow>
   reported nf (requests host (snd (snd (PostCurrentKeySet (logged send) b keys x)))) k"
  by (simp add: PostCurrentKeySet_def client_result_snd logged_def split_beta reported_def)
theorem clean_pass_repairs_witness:
  "\<exists>r' s'. innerStart example_J (\<lambda>_. ''doc'') (storage_link ''http://s'' example_service)
        (live_env (example_cluster example_is)) None (example_reconciler [(''k'', example_registry)]) unserved_server
      = Some (r', s')
    \<and> \<not> in_step JsonArrayForamt unserved_server ''mnist_v1'' \<and> in_step JsonArrayForamt s' ''mnist_v1''
    \<and> dom (stored_docs s') \<subseteq> {''mnist_v1'', ''ds_mnist''}"
proof -
  let ?r = "example_reconciler [(''k'', example_registry)]" and ?env = "live_env (example_cluster example_is)"
  let ?send = "logged (storage_link ''http://s'' example_service)"
  let ?client = "SetupBridgeStorageRESTClient ''http://s'' ''''"
  define x where "x = snd (PostCurrentKeySet ?send ?client [''mnist_v1'', ''ds_mnist'']
        (snd (processBWriter (\<lambda>_. ''doc'') ?send ?r [] ''mnist_v1'' KubeflowNormalizer (latest_epoch example_rm example_mv) ''''
                None (unserved_server, []))))"
  have run: "innerStart example_J (\<lambda>_. ''doc'') ?send ?env None ?r (unserved_server, []) = Some (?r, fst x, snd x)"
    by (simp add: clean_run x_def)
  have clean: "list_all accepted (snd x)" unfolding x_def by code_simp
  have st: "re_storage ?r = ?client" by (simp add: example_reconciler_def)
  have rep: "reported JsonArrayForamt (requests ''http://s'' (snd x)) ''mnist_v1''"
    unfolding x_def by (intro logged_keyset_keeps logged_report_reported [OF st example_key])
  have before: "\<not> in_step JsonArrayForamt unserved_server ''mnist_v1''" by code_simp
  have read: "\<forall>kfmr \<in> set (registries ?env ?r). \<exists>contents. LoopOverKFMR example_J [] kfmr = Some (Inr contents)"
    by (simp add: example_registries example_pass)
  have "registry_keys example_J ?r example_registry = [''mnist_v1'']" by code_simp
  moreover have "unmanaged_keys (ne_cluster ?env) ?r = [''ds_mnist'']" by code_simp
  ultimately have keys: "concat (map (registry_keys example_J ?r) (registries ?env ?r)) @ unmanaged_keys (ne_cluster ?env) ?r
      = [''mnist_v1'', ''ds_mnist'']" by (simp add: example_registries)
  from clean_pass_repairs [where t = "''''" and benv = example_env and bt = "''''" and push = True,
      OF unserved_server_ok example_setup st, folded example_service_def, OF run clean, unfolded keys] rep read
  show ?thesis using before by (metis list.simps(15) set_simps(1))
qed

end
