(* ===== verification/Handlers.thy ===== *)
theory Handlers
  imports StorageServer
begin

text \<open>
  The handlers of \<^verbatim>\<open>pkg/cmd/server/storage/server.go\<close> as goroutines.  Gin runs every request in a
  goroutine of its own; the handlers share the storage tier, the map \<^verbatim>\<open>pushedLocations\<close> of pointers,
  the bodies behind the pointers, and the clients.  The mutex of the service is held by \<^verbatim>\<open>sync\<close> and
  \<^verbatim>\<open>del\<close> only.  A step of a handler here is one call of a client, one access to the cache under the
  mutex, or one read of a body or write to a field of it through a pointer; between two steps any other
  handler may run.  The arguments of a call are read before it, so a call carries copies.
  \<^verbatim>\<open>setupBkstg\<close> is one step.

  The bodies are in a heap and a pointer is an index of it.  The theory \<open>StorageServer\<close>, where a handler
  runs in one go, has references by key in place of the pointers; a handler that is not disturbed does the
  same in both.
\<close>

section \<open>The shared state\<close>

record ('s, 'l, 'b) shared =
  sh_st :: 's
  sh_heap :: "StorageBody list"
  sh_pushed :: "nat go_map"
  sh_mutex :: bool
  sh_locations :: 'l
  sh_bkstg :: "BackstageRESTClientWrapper option"
  sh_world :: 'b

text \<open>The service as the handlers that run in one go see it: the pointers of the cache are followed.\<close>

definition server_of :: "('s, 'l, 'b) shared \<Rightarrow> ('s, 'l, 'b) StorageRESTServer" where
  "server_of sh = \<lparr>ss_st = sh_st sh, ss_pushedLocations = AList.map_ran (\<lambda>_ p. sh_heap sh ! p) (sh_pushed sh),
     ss_locations = sh_locations sh, ss_bkstg = sh_bkstg sh, ss_world = sh_world sh\<rparr>"

definition new_shared :: "('s, 'l, 'b) StorageRESTServer \<Rightarrow> ('s, 'l, 'b) shared" where
  "new_shared s = \<lparr>sh_st = ss_st s, sh_heap = [], sh_pushed = [], sh_mutex = False,
     sh_locations = ss_locations s, sh_bkstg = ss_bkstg s, sh_world = ss_world s\<rparr>"

definition shared_setupBkstg ::
    "('s, 'l, 'b) StorageDeps \<Rightarrow> ('s, 'l, 'b) shared \<Rightarrow> bool \<times> ('s, 'l, 'b) shared" where
  "shared_setupBkstg D sh =
     (case setupBkstg D (server_of sh) of
        (available, s) \<Rightarrow> (available, sh\<lparr>sh_bkstg := ss_bkstg s, sh_world := ss_world s\<rparr>))"

text \<open>A new body, and a write through a pointer.\<close>

definition sh_new :: "StorageBody \<Rightarrow> ('s, 'l, 'b) shared \<Rightarrow> nat \<times> ('s, 'l, 'b) shared" where
  "sh_new b sh = (length (sh_heap sh), sh\<lparr>sh_heap := sh_heap sh @ [b]\<rparr>)"

definition sh_write :: "nat \<Rightarrow> (StorageBody \<Rightarrow> StorageBody) \<Rightarrow> ('s, 'l, 'b) shared \<Rightarrow> ('s, 'l, 'b) shared" where
  "sh_write p f sh = sh\<lparr>sh_heap := (sh_heap sh)[p := f (sh_heap sh ! p)]\<rparr>"

section \<open>Where a handler is\<close>

text \<open>What the upsert handler has read from its request.\<close>

record upsert_job =
  uj_key :: string
  uj_uri :: string
  uj_type :: string
  uj_post :: PostBody

text \<open>
  The places between two steps, each named by the step to come.  \<open>Sync_fetch\<close> to \<open>Sync_remove\<close> are in
  \<^verbatim>\<open>sync\<close>, with the mutex held.  The numbers are the pointer \<^verbatim>\<open>sb\<close>, the booleans \<^verbatim>\<open>alreadyPushed\<close>, the
  lists of errors those recorded so far; of the key set handler, the posted keys and the listed keys
  still to be looked at.  \<open>First_call\<close>, \<open>Check_call\<close> and \<open>Last_call\<close> are calls under way: Go evaluates the
  arguments of a call before it, so the copy \<^verbatim>\<open>*sb\<close> a call of \<^verbatim>\<open>st.Upsert\<close> is given, like the identifier
  \<^verbatim>\<open>bkstg.GetLocation\<close> is given, is taken a step earlier, and may be out of date when the call takes
  effect, as it does only once the storage tier lets it in.
\<close>

datatype handler_pc =
    Read_store http_request
  | Sync_lock upsert_job
  | Sync_fetch upsert_job
  | Sync_location upsert_job StorageBody
  | Sync_remove upsert_job
  | Read_pushed upsert_job nat
  | Set_body upsert_job nat bool
  | Set_type upsert_job nat bool
  | Store_first upsert_job nat bool
  | First_call upsert_job nat bool StorageBody
  | Push upsert_job nat bool
  | Check_location upsert_job nat "handler_error list"
  | Check_call upsert_job nat "handler_error list" string
  | Setup_import upsert_job nat "handler_error list"
  | Import upsert_job nat "handler_error list"
  | Set_location upsert_job nat "handler_error list" string string
  | Set_target upsert_job nat "handler_error list" string
  | Store_last upsert_job nat "handler_error list"
  | Last_call upsert_job nat "handler_error list" StorageBody
  | List_keys "string list"
  | Purge_next "string list" "string list" "handler_error list"
  | Purge_remove string StorageBody "string list" "string list" "handler_error list"
  | Purge_del string StorageBody "string list" "string list" "handler_error list"
  | Purge_setup string StorageBody "string list" "string list" "handler_error list"
  | Purge_location string StorageBody "string list" "string list" "handler_error list"
  | Purge_model string "string list" "string list" "handler_error list"
  | Answered gin_result

text \<open>What a handler does before it first touches the shared state.\<close>

definition upsert_start :: "('s, 'l, 'b) StorageDeps \<Rightarrow> http_request \<Rightarrow> handler_pc" where
  "upsert_start D c =
     (let key = gin_Query c KeyQueryParam;
          reconcilerType = gin_Query c TypeQueryParam
      in if length key = 0
         then Answered (gin_error StatusBadRequest [Errorf ''need a 'key' parameter''])
         else (case gin_BindJSON c of
                 (postBody, Some err) \<Rightarrow>
                   Answered (gin_error StatusBadRequest [Errorf err, Errorf (''error reading POST body: '' @ err)])
               | (postBody, None) \<Rightarrow>
                   (case rekey (sd_format D) key of
                      None \<Rightarrow> Answered (gin_error StatusBadRequest [Errorf (''bad key format: '' @ key)])
                    | Some (key, uri) \<Rightarrow>
                        Sync_lock \<lparr>uj_key = key, uj_uri = uri, uj_type = reconcilerType, uj_post = postBody\<rparr>)))"

definition handler_start :: "('s, 'l, 'b) StorageDeps \<Rightarrow> http_request \<Rightarrow> handler_pc" where
  "handler_start D c =
     (case rq_method c of
        POST \<Rightarrow>
          if rq_url c = UpsertURI then upsert_start D c
          else if rq_url c = CurrentKeySetURI then List_keys (posted_keys c)
          else Answered (gin_status StatusNotFound)
      | GET \<Rightarrow>
          if rq_url c = ListURI \<or> rq_url c = FetchURI then Read_store c
          else Answered (gin_status StatusNotFound)
      | DELETE \<Rightarrow> Answered (gin_status StatusNotFound))"

section \<open>One step\<close>

text \<open>
  \<^const>\<open>None\<close> if the handler has answered or waits for the mutex.  The mutex is given back by a deferred
  call, also when \<^verbatim>\<open>sync\<close> panics.
\<close>

fun handler_step ::
    "('s, 'l, 'b) StorageDeps \<Rightarrow> handler_pc \<Rightarrow> ('s, 'l, 'b) shared
      \<Rightarrow> (handler_pc \<times> ('s, 'l, 'b) shared) option" where
  "handler_step D (Read_store c) sh =
     (case ss_serve D c (server_of sh) of (g, s) \<Rightarrow> Some (Answered g, sh\<lparr>sh_st := ss_st s\<rparr>))"
| "handler_step D (Sync_lock j) sh =
     (if sh_mutex sh then None
      else (case map_of (sh_pushed sh) (uj_key j) of
              None \<Rightarrow> Some (Sync_fetch j, sh\<lparr>sh_mutex := True\<rparr>)
            | Some p \<Rightarrow>
                if sb_LocationIDValid (sh_heap sh ! p) then Some (Read_pushed j p, sh)
                else Some (Sync_fetch j, sh\<lparr>sh_mutex := True\<rparr>)))"
| "handler_step D (Sync_fetch j) sh =
     (case bs_Fetch (sd_st D) (uj_key j) (sh_st sh) of
        ((ssb, err), st) \<Rightarrow>
          (let sh = sh\<lparr>sh_st := st\<rparr>
           in if err = None \<and> length (sb_LocationId ssb) > 0 then Some (Sync_location j ssb, sh)
              else if err = None
              then (case sh_new ssb (sh\<lparr>sh_mutex := False\<rparr>) of (p, sh) \<Rightarrow> Some (Read_pushed j p, sh))
              else Some (Answered (gin_status StatusInternalServerError), sh\<lparr>sh_mutex := False\<rparr>)))"
| "handler_step D (Sync_location j ssb) sh =
     (case sh_bkstg sh of
        None \<Rightarrow> Some (Answered (gin_status StatusInternalServerError), sh\<lparr>sh_mutex := False\<rparr>)
      | Some w \<Rightarrow>
          (case bi_GetLocation (sd_bkstg D w) (sb_LocationId ssb) (sh_world sh) of
             ((_, None), b) \<Rightarrow>
               (case sh_new (ssb\<lparr>sb_LocationIDValid := True\<rparr>) (sh\<lparr>sh_world := b, sh_mutex := False\<rparr>) of
                  (p, sh) \<Rightarrow> Some (Read_pushed j p, sh\<lparr>sh_pushed := AList.update (uj_key j) p (sh_pushed sh)\<rparr>))
           | ((_, Some _), b) \<Rightarrow>
               Some (Sync_remove j,
                     sh\<lparr>sh_world := b, sh_pushed := AList.delete (uj_key j) (sh_pushed sh)\<rparr>)))"
| "handler_step D (Sync_remove j) sh =
     (case bs_Remove (sd_st D) (uj_key j) (sh_st sh) of
        (Some err, st) \<Rightarrow>
          Some (Answered (gin_status StatusInternalServerError), sh\<lparr>sh_st := st, sh_mutex := False\<rparr>)
      | (None, st) \<Rightarrow>
          (case sh_new StorageBody_zero (sh\<lparr>sh_st := st, sh_mutex := False\<rparr>) of
             (p, sh) \<Rightarrow> Some (Read_pushed j p, sh)))"
| "handler_step D (Read_pushed j p) sh = Some (Set_body j p (length (sb_LocationId (sh_heap sh ! p)) > 0), sh)"
| "handler_step D (Set_body j p alreadyPushed) sh =
     Some (Set_type j p alreadyPushed, sh_write p (\<lambda>b. b\<lparr>sb_Body := pb_Body (uj_post j)\<rparr>) sh)"
| "handler_step D (Set_type j p alreadyPushed) sh =
     Some (Store_first j p alreadyPushed, sh_write p (\<lambda>b. b\<lparr>sb_ReconcilerType := uj_type j\<rparr>) sh)"
| "handler_step D (Store_first j p alreadyPushed) sh = Some (First_call j p alreadyPushed (sh_heap sh ! p), sh)"
| "handler_step D (First_call j p alreadyPushed sb) sh =
     (case bs_Upsert (sd_st D) (uj_key j) sb (sh_st sh) of
        (Some err, st) \<Rightarrow>
          Some (Answered (gin_error StatusInternalServerError
                  [Errorf (''error upserting to storage key '' @ uj_key j @ '' POST body: '' @ err)]),
                sh\<lparr>sh_st := st\<rparr>)
      | (None, st) \<Rightarrow> Some (Push j p alreadyPushed, sh\<lparr>sh_st := st\<rparr>))"
| "handler_step D (Push j p alreadyPushed) sh =
     (case sd_UpsertModel D (uj_key j) (uj_post j) (sh_locations sh) of
        ((rc, Some err), l) \<Rightarrow>
          Some (Answered (gin_error StatusInternalServerError
                  [ErrorfDump (''error upserting to bridge uri '' @ uj_uri j @ '' POST body: msg '')]),
                sh\<lparr>sh_locations := l\<rparr>)
      | ((rc, None), l) \<Rightarrow>
          (let errs = (if rc \<noteq> StatusCreated \<and> rc \<noteq> StatusOK
                       then [ErrorfDump (''error upserting to bridge uri '' @ uj_uri j @ '' POST body: msg '')] else [])
           in Some (if alreadyPushed then Check_location j p errs else Setup_import j p errs,
                    sh\<lparr>sh_locations := l\<rparr>)))"
| "handler_step D (Check_location j p errs) sh = Some (Check_call j p errs (sb_LocationId (sh_heap sh ! p)), sh)"
| "handler_step D (Check_call j p errs locationId) sh =
     (case sh_bkstg sh of
        None \<Rightarrow> Some (Answered (gin_error StatusInternalServerError errs), sh)
      | Some w \<Rightarrow>
          (case bi_GetLocation (sd_bkstg D w) locationId (sh_world sh) of
             ((locationMap, err), b) \<Rightarrow>
               Some (if err \<noteq> None \<or> length locationMap = 0 \<or> \<not> snd (snd (ParseImportLocationMap locationMap))
                     then Setup_import j p errs
                     else Answered (gin_error StatusOK errs), sh\<lparr>sh_world := b\<rparr>)))"
| "handler_step D (Setup_import j p errs) sh =
     (case shared_setupBkstg D sh of
        (available, sh) \<Rightarrow>
          Some (if \<not> available \<or> \<not> sd_pushToRHDH D then Store_last j p errs else Import j p errs, sh))"
| "handler_step D (Import j p errs) sh =
     (case sh_bkstg sh of
        None \<Rightarrow> Some (Answered (gin_error StatusInternalServerError errs), sh)
      | Some w \<Rightarrow>
          (case bi_ImportLocation (sd_bkstg D w) (sd_HostURL D @ uj_uri j) (sh_world sh) of
             ((_, Some err), b) \<Rightarrow> Some (Answered (gin_error StatusCreated errs), sh\<lparr>sh_world := b\<rparr>)
           | ((impResp, None), b) \<Rightarrow>
               (case ParseImportLocationMap impResp of
                  (retID, retTarget, rok) \<Rightarrow>
                    Some (if \<not> rok
                          then Answered (gin_error StatusBadRequest
                                 (errs @ [ErrorfDump ''parsing of import location return had an issue: '']))
                          else Set_location j p errs retID retTarget, sh\<lparr>sh_world := b\<rparr>))))"
| "handler_step D (Set_location j p errs retID retTarget) sh =
     Some (Set_target j p errs retTarget, sh_write p (\<lambda>b. b\<lparr>sb_LocationId := retID\<rparr>) sh)"
| "handler_step D (Set_target j p errs retTarget) sh =
     Some (Store_last j p errs, sh_write p (\<lambda>b. b\<lparr>sb_LocationTarget := retTarget\<rparr>) sh)"
| "handler_step D (Store_last j p errs) sh = Some (Last_call j p errs (sh_heap sh ! p), sh)"
| "handler_step D (Last_call j p errs sb) sh =
     (case bs_Upsert (sd_st D) (uj_key j) sb (sh_st sh) of
        (Some err, st) \<Rightarrow>
          Some (Answered (gin_error StatusInternalServerError
                  (errs @ [Errorf (''error upserting to storage key '' @ uj_key j @ '' POST body plus backstage ID: '' @ err)])),
                sh\<lparr>sh_st := st\<rparr>)
      | (None, st) \<Rightarrow> Some (Answered (gin_error StatusCreated errs), sh\<lparr>sh_st := st\<rparr>))"
| "handler_step D (List_keys keys) sh =
     (case bs_List (sd_st D) (sh_st sh) of
        ((_, Some err), st) \<Rightarrow>
          Some (Answered (gin_error StatusInternalServerError [Errorf err]), sh\<lparr>sh_st := st\<rparr>)
      | ((currentKeys, None), st) \<Rightarrow> Some (Purge_next keys currentKeys [], sh\<lparr>sh_st := st\<rparr>))"
| "handler_step D (Purge_next keys [] errors) sh =
     Some (Answered
            (if length errors > 0
             then gin_error StatusInternalServerError [ErrorfDump (show_nat (length errors) @ '' errors: '')]
             else gin_status StatusOK), sh)"
| "handler_step D (Purge_next keys (k # ks) errors) sh =
     (if k \<in> set keys then Some (Purge_next keys ks errors, sh)
      else (case bs_Fetch (sd_st D) k (sh_st sh) of
              ((sb, _), st) \<Rightarrow> Some (Purge_remove k sb keys ks errors, sh\<lparr>sh_st := st\<rparr>)))"
| "handler_step D (Purge_remove k sb keys ks errors) sh =
     (case bs_Remove (sd_st D) k (sh_st sh) of
        (Some err, st) \<Rightarrow> Some (Purge_next keys ks (errors @ [Errorf err]), sh\<lparr>sh_st := st\<rparr>)
      | (None, st) \<Rightarrow> Some (Purge_del k sb keys ks errors, sh\<lparr>sh_st := st\<rparr>))"
| "handler_step D (Purge_del k sb keys ks errors) sh =
     (if sh_mutex sh then None
      else Some (Purge_setup k sb keys ks errors, sh\<lparr>sh_pushed := AList.delete k (sh_pushed sh)\<rparr>))"
| "handler_step D (Purge_setup k sb keys ks errors) sh =
     (case shared_setupBkstg D sh of
        (bkstAvailable, sh) \<Rightarrow>
          Some (if length (sb_LocationId sb) > 0 \<and> bkstAvailable then Purge_location k sb keys ks errors
                else Purge_model k keys ks errors, sh))"
| "handler_step D (Purge_location k sb keys ks errors) sh =
     (case sh_bkstg sh of
        None \<Rightarrow> Some (Answered (gin_status StatusInternalServerError), sh)
      | Some w \<Rightarrow>
          Some (Purge_model k keys ks errors,
                sh\<lparr>sh_world := snd (bi_DeleteLocation (sd_bkstg D w) (sb_LocationId sb) (sh_world sh))\<rparr>))"
| "handler_step D (Purge_model k keys ks errors) sh =
     (case sd_RemoveModel D k (sh_locations sh) of
        ((rc, Some err), l) \<Rightarrow> Some (Purge_next keys ks (errors @ [Errorf err]), sh\<lparr>sh_locations := l\<rparr>)
      | ((rc, None), l) \<Rightarrow>
          Some (Purge_next keys ks
                  (if rc \<noteq> StatusOK \<and> rc \<noteq> StatusCreated
                   then errors @ [ErrorfDump (''bad rc removing from storage key '' @ show_nat rc @ '': '')]
                   else errors), sh\<lparr>sh_locations := l\<rparr>))"
| "handler_step D (Answered g) sh = None"

section \<open>Requests interleaved\<close>

text \<open>A request arrives and gets a goroutine; a handler takes a step.\<close>

inductive handlers_step ::
    "('s, 'l, 'b) StorageDeps \<Rightarrow> handler_pc list \<times> ('s, 'l, 'b) shared
      \<Rightarrow> handler_pc list \<times> ('s, 'l, 'b) shared \<Rightarrow> bool"
  for D where
  handler_steps: "i < length pcs \<Longrightarrow> handler_step D (pcs ! i) sh = Some (pc, sh') \<Longrightarrow>
    handlers_step D (pcs, sh) (pcs[i := pc], sh')"

inductive handlers_run ::
    "('s, 'l, 'b) StorageDeps \<Rightarrow> ('s, 'l, 'b) shared \<Rightarrow> http_request list
      \<Rightarrow> handler_pc list \<times> ('s, 'l, 'b) shared \<Rightarrow> bool"
  for D sh0 where
  handlers_start: "handlers_run D sh0 [] ([], sh0)"
| handlers_arrive: "handlers_run D sh0 cs (pcs, sh) \<Longrightarrow>
    handlers_run D sh0 (cs @ [c]) (pcs @ [handler_start D c], sh)"
| handlers_next: "handlers_run D sh0 cs x \<Longrightarrow> handlers_step D x y \<Longrightarrow> handlers_run D sh0 cs y"

inductive_cases handlers_stepE: "handlers_step D (pcs, sh) y"


section \<open>One handler alone\<close>

text \<open>Keys and pointers of the cache are distinct, and the pointers are in the heap.\<close>

definition heap_ok :: "('s, 'l, 'b) shared \<Rightarrow> bool" where
  "heap_ok sh \<longleftrightarrow> distinct (map fst (sh_pushed sh)) \<and> distinct (map snd (sh_pushed sh))
     \<and> (\<forall>p \<in> set (map snd (sh_pushed sh)). p < length (sh_heap sh))"

text \<open>The pointer \<open>p\<close> that the handler of key \<open>k\<close> has is the reference \<open>r\<close>.\<close>

definition ref_at :: "('s, 'l, 'b) shared \<Rightarrow> string \<Rightarrow> nat \<Rightarrow> sb_ref \<Rightarrow> bool" where
  "ref_at sh k p r \<longleftrightarrow> p < length (sh_heap sh)
     \<and> (case r of Cached k' \<Rightarrow> k' = k \<and> map_of (sh_pushed sh) k = Some p
        | Fresh b \<Rightarrow> b = sh_heap sh ! p \<and> p \<notin> set (map snd (sh_pushed sh)))"

lemma server_of_simps [simp]:
  "ss_st (server_of sh) = sh_st sh" "ss_locations (server_of sh) = sh_locations sh"
  "ss_bkstg (server_of sh) = sh_bkstg sh" "ss_world (server_of sh) = sh_world sh"
  "ss_pushedLocations (server_of sh) = AList.map_ran (\<lambda>_ p. sh_heap sh ! p) (sh_pushed sh)"
  "server_of (sh\<lparr>sh_st := st\<rparr>) = (server_of sh)\<lparr>ss_st := st\<rparr>"
  "server_of (sh\<lparr>sh_locations := l\<rparr>) = (server_of sh)\<lparr>ss_locations := l\<rparr>"
  "server_of (sh\<lparr>sh_bkstg := w\<rparr>) = (server_of sh)\<lparr>ss_bkstg := w\<rparr>"
  "server_of (sh\<lparr>sh_world := b\<rparr>) = (server_of sh)\<lparr>ss_world := b\<rparr>"
  "server_of (sh\<lparr>sh_mutex := m\<rparr>) = server_of sh"
  by (simp_all add: server_of_def)

lemma heap_ok_simps [simp]:
  "heap_ok (sh\<lparr>sh_st := st\<rparr>) = heap_ok sh" "heap_ok (sh\<lparr>sh_locations := l\<rparr>) = heap_ok sh"
  "heap_ok (sh\<lparr>sh_bkstg := w\<rparr>) = heap_ok sh" "heap_ok (sh\<lparr>sh_world := b\<rparr>) = heap_ok sh"
  "heap_ok (sh\<lparr>sh_mutex := m\<rparr>) = heap_ok sh"
  by (simp_all add: heap_ok_def)

lemma ref_at_simps [simp]:
  "ref_at (sh\<lparr>sh_st := st\<rparr>) = ref_at sh" "ref_at (sh\<lparr>sh_locations := l\<rparr>) = ref_at sh"
  "ref_at (sh\<lparr>sh_bkstg := w\<rparr>) = ref_at sh" "ref_at (sh\<lparr>sh_world := b\<rparr>) = ref_at sh"
  "ref_at (sh\<lparr>sh_mutex := m\<rparr>) = ref_at sh"
  by (simp_all add: ref_at_def fun_eq_iff split: sb_ref.split)

lemma map_ran_update: "AList.map_ran (\<lambda>_. f) (AList.update k v al) = AList.update k (f v) (AList.map_ran (\<lambda>_. f) al)"
  by (induction al) auto

lemma map_ran_delete: "AList.map_ran f (AList.delete k al) = AList.delete k (AList.map_ran f al)"
  by (induction al) (auto simp: AList.delete_eq)

lemma map_ran_cong: "(\<And>v. v \<in> set (map snd al) \<Longrightarrow> f v = g v) \<Longrightarrow> AList.map_ran (\<lambda>_. f) al = AList.map_ran (\<lambda>_. g) al"
  by (induction al) auto

text \<open>A write through the one pointer of a key updates the cache at this key.\<close>

lemma map_ran_write:
  "distinct (map fst al) \<Longrightarrow> distinct (map snd al) \<Longrightarrow> map_of al k = Some p \<Longrightarrow> p < length h \<Longrightarrow>
   AList.map_ran (\<lambda>_ q. h[p := b] ! q) al = AList.update k b (AList.map_ran (\<lambda>_ q. h ! q) al)"
proof (induction al)
  case (Cons a al)
  obtain k' p' where a: "a = (k', p')" by fastforce
  have "AList.map_ran (\<lambda>_ q. h[p := b] ! q) al = AList.map_ran (\<lambda>_ q. h ! q) al" if "p \<notin> set (map snd al)"
    using that by (intro map_ran_cong nth_list_update_neq) auto
  moreover have "k' \<noteq> k \<Longrightarrow> p' \<noteq> p" using Cons.prems a by (force dest: map_of_SomeD)
  ultimately show ?case using Cons a by (auto dest: map_of_SomeD)
qed simp

lemma set_snd_update: "set (map snd (AList.update k v al)) \<subseteq> insert v (set (map snd al))"
  by (induction al) auto

lemma set_snd_delete: "set (map snd (AList.delete k al)) \<subseteq> set (map snd al)"
  by (auto simp: AList.delete_eq)

lemma distinct_snd_update:
  "distinct (map snd al) \<Longrightarrow> v \<notin> set (map snd al) \<Longrightarrow> distinct (map snd (AList.update k v al))"
proof (induction al)
  case (Cons a al)
  with set_snd_update [of k v al] show ?case by (cases a) auto
qed simp

lemma distinct_snd_delete: "distinct (map snd al) \<Longrightarrow> distinct (map snd (AList.delete k al))"
  by (simp add: AList.delete_eq distinct_map_filter)

lemma heap_ok_delete: "heap_ok sh \<Longrightarrow> heap_ok (sh\<lparr>sh_pushed := AList.delete k (sh_pushed sh)\<rparr>)"
  using set_snd_delete [of k "sh_pushed sh"]
  by (simp add: heap_ok_def distinct_delete distinct_snd_delete del: set_map) blast

lemma server_of_delete:
  "server_of (sh\<lparr>sh_pushed := AList.delete k (sh_pushed sh)\<rparr>)
   = (server_of sh)\<lparr>ss_pushedLocations := AList.delete k (ss_pushedLocations (server_of sh))\<rparr>"
  by (simp add: server_of_def map_ran_delete)

lemma sb_deref_ref_at: "ref_at sh k p r \<Longrightarrow> sb_deref (server_of sh) r = sh_heap sh ! p"
  by (auto simp: ref_at_def sb_deref_def map_ran_conv split: sb_ref.splits)

lemma heap_ok_write [simp]: "heap_ok (sh_write p f sh) = heap_ok sh"
  by (simp add: heap_ok_def sh_write_def)

lemma sh_write_simps [simp]:
  "sh_st (sh_write p f sh) = sh_st sh" "sh_pushed (sh_write p f sh) = sh_pushed sh"
  "sh_mutex (sh_write p f sh) = sh_mutex sh" "sh_locations (sh_write p f sh) = sh_locations sh"
  "sh_bkstg (sh_write p f sh) = sh_bkstg sh" "sh_world (sh_write p f sh) = sh_world sh"
  by (simp_all add: sh_write_def)

lemma write_assign:
  assumes "heap_ok sh" and "ref_at sh k p r"
  shows "\<exists>r'. sb_assign f (server_of sh) r = (r', server_of (sh_write p f sh)) \<and> ref_at (sh_write p f sh) k p r'"
proof (cases r)
  case (Cached k')
  with assms(2) have p: "k' = k" "map_of (sh_pushed sh) k = Some p" "p < length (sh_heap sh)"
    by (auto simp: ref_at_def)
  have "server_of (sh_write p f sh)
      = (server_of sh)\<lparr>ss_pushedLocations := AList.update k (f (sh_heap sh ! p)) (ss_pushedLocations (server_of sh))\<rparr>"
    using map_ran_write [OF _ _ p(2,3)] assms(1) by (simp add: server_of_def sh_write_def heap_ok_def)
  moreover have "ref_at (sh_write p f sh) k p (Cached k)" using p by (simp add: ref_at_def sh_write_def)
  moreover have "sb_deref (server_of sh) (Cached k) = sh_heap sh ! p"
    using sb_deref_ref_at [OF assms(2)] Cached p by simp
  ultimately show ?thesis using Cached p by (simp add: sb_assign_def)
next
  case (Fresh b)
  with assms(2) have p: "b = sh_heap sh ! p" "p \<notin> set (map snd (sh_pushed sh))" "p < length (sh_heap sh)"
    by (auto simp: ref_at_def)
  then have "AList.map_ran (\<lambda>_ q. (sh_heap sh)[p := f (sh_heap sh ! p)] ! q) (sh_pushed sh)
      = AList.map_ran (\<lambda>_ q. sh_heap sh ! q) (sh_pushed sh)" by (intro map_ran_cong nth_list_update_neq) auto
  with p have "server_of (sh_write p f sh) = server_of sh" "ref_at (sh_write p f sh) k p (Fresh (f b))"
    by (simp_all add: server_of_def sh_write_def ref_at_def)
  then show ?thesis using Fresh by (simp add: sb_assign_def)
qed

lemma server_of_new:
  assumes "heap_ok sh"
  shows "server_of (sh\<lparr>sh_heap := sh_heap sh @ [b]\<rparr>) = server_of sh"
proof -
  have "AList.map_ran (\<lambda>_ q. (sh_heap sh @ [b]) ! q) (sh_pushed sh)
      = AList.map_ran (\<lambda>_ q. sh_heap sh ! q) (sh_pushed sh)"
    using assms by (intro map_ran_cong) (auto simp: heap_ok_def nth_append)
  then show ?thesis by (simp add: server_of_def)
qed

lemma heap_ok_new: "heap_ok sh \<Longrightarrow> heap_ok (sh\<lparr>sh_heap := sh_heap sh @ [b]\<rparr>)"
  by (auto simp: heap_ok_def)

lemma setup_shared:
  assumes "shared_setupBkstg D sh = (a, sh')"
  shows "setupBkstg D (server_of sh) = (a, server_of sh')" "heap_ok sh' = heap_ok sh" "ref_at sh' = ref_at sh"
    "sh_mutex sh' = sh_mutex sh" "sh_heap sh' = sh_heap sh" "sh_pushed sh' = sh_pushed sh" "sh_st sh' = sh_st sh"
    "sh_locations sh' = sh_locations sh" "a \<longleftrightarrow> sh_bkstg sh' \<noteq> None"
proof -
  obtain s where s: "setupBkstg D (server_of sh) = (a, s)" "sh' = sh\<lparr>sh_bkstg := ss_bkstg s, sh_world := ss_world s\<rparr>"
    using assms by (auto simp: shared_setupBkstg_def split: prod.splits)
  note same = setupBkstg_same [OF s(1)]
  then have "server_of sh' = s" by (simp add: s(2) same_data_def)
  with s show "setupBkstg D (server_of sh) = (a, server_of sh')" by simp
  show "a \<longleftrightarrow> sh_bkstg sh' \<noteq> None" using same s(2) by simp
qed (use assms in \<open>auto simp: shared_setupBkstg_def split: prod.splits\<close>)

text \<open>The steps of one handler, up to its answer.\<close>

inductive alone :: "('s, 'l, 'b) StorageDeps \<Rightarrow> handler_pc \<Rightarrow> ('s, 'l, 'b) shared \<Rightarrow> gin_result
    \<Rightarrow> ('s, 'l, 'b) shared \<Rightarrow> bool" for D where
  alone_answered: "alone D (Answered g) sh g sh"
| alone_step: "handler_step D pc sh = Some (pc', sh') \<Longrightarrow> alone D pc' sh' g sh'' \<Longrightarrow> alone D pc sh g sh''"

definition reaches :: "('s, 'l, 'b) StorageDeps \<Rightarrow> handler_pc \<Rightarrow> ('s, 'l, 'b) shared
    \<Rightarrow> gin_result \<times> ('s, 'l, 'b) StorageRESTServer \<Rightarrow> bool" where
  "reaches D pc sh gs \<longleftrightarrow> (\<exists>sh'. alone D pc sh (fst gs) sh' \<and> server_of sh' = snd gs \<and> heap_ok sh' \<and> \<not> sh_mutex sh')"

lemma reaches_answered: "heap_ok sh \<Longrightarrow> \<not> sh_mutex sh \<Longrightarrow> server_of sh = s \<Longrightarrow> reaches D (Answered g) sh (g, s)"
  by (auto simp: reaches_def intro: alone_answered)

lemma reaches_step: "handler_step D pc sh = Some (pc', sh') \<Longrightarrow> reaches D pc' sh' gs \<Longrightarrow> reaches D pc sh gs"
  by (auto simp: reaches_def intro: alone_step)


text \<open>The upsert handler, from its end to its start.\<close>

lemma reaches_finish:
  assumes "heap_ok sh" "\<not> sh_mutex sh" "ref_at sh (uj_key j) p r"
  shows "reaches D (Store_last j p errs) sh (upsert_finish D (uj_key j) r errs (server_of sh))"
proof -
  obtain e st where u: "bs_Upsert (sd_st D) (uj_key j) (sh_heap sh ! p) (sh_st sh) = (e, st)" by fastforce
  show ?thesis
    using assms u
    by (cases e) (auto simp: upsert_finish_def sb_deref_ref_at
        intro!: reaches_step [where pc = "Store_last j p errs"] reaches_step [OF _ reaches_answered])
qed

lemma sh_write_twice: "p < length (sh_heap sh) \<Longrightarrow> sh_write p g (sh_write p f sh) = sh_write p (\<lambda>b. g (f b)) sh"
  by (simp add: sh_write_def)

lemma reaches_import:
  assumes ok: "heap_ok sh" "\<not> sh_mutex sh" "ref_at sh (uj_key j) p r"
  shows "reaches D (Setup_import j p errs) sh (upsert_import D (uj_key j) (uj_uri j) r errs (server_of sh))"
proof -
  obtain a sh1 where set: "shared_setupBkstg D sh = (a, sh1)" by fastforce
  note s1 = setup_shared [OF set]
  have ok1: "heap_ok sh1" "\<not> sh_mutex sh1" "ref_at sh1 (uj_key j) p r" using ok s1 by simp_all
  show ?thesis
  proof (cases "a \<and> sd_pushToRHDH D")
    case False
    with s1(1,9) have "upsert_import D (uj_key j) (uj_uri j) r errs (server_of sh)
        = upsert_finish D (uj_key j) r errs (server_of sh1)"
      by (auto simp: upsert_import_def split: option.split)
    with reaches_finish [OF ok1, of D errs] set False show ?thesis
      by - (rule reaches_step [where pc' = "Store_last j p errs"], auto)
  next
    case True
    with s1(9) obtain w where w: "sh_bkstg sh1 = Some w" by blast
    obtain m e b where imp: "bi_ImportLocation (sd_bkstg D w) (sd_HostURL D @ uj_uri j) (sh_world sh1) = ((m, e), b)"
      by (metis prod.collapse)
    obtain i t rok where m: "ParseImportLocationMap m = (i, t, rok)" by (metis prod.collapse)
    let ?f = "\<lambda>b. b\<lparr>sb_LocationId := i, sb_LocationTarget := t\<rparr>" and ?sh2 = "sh1\<lparr>sh_world := b\<rparr>"
    have ok2: "heap_ok ?sh2" "ref_at ?sh2 (uj_key j) p r" using ok1 by simp_all
    from write_assign [OF ok2, of ?f] obtain r' where as:
      "sb_assign ?f (server_of ?sh2) r = (r', server_of (sh_write p ?f ?sh2))" "ref_at (sh_write p ?f ?sh2) (uj_key j) p r'"
      by blast
    have stored: "reaches D (Set_location j p errs i t) ?sh2
        (upsert_finish D (uj_key j) r' errs (server_of (sh_write p ?f ?sh2)))"
    proof -
      have p: "p < length (sh_heap ?sh2)" using ok2(2) by (simp add: ref_at_def)
      have "reaches D (Set_target j p errs t) (sh_write p (\<lambda>b. b\<lparr>sb_LocationId := i\<rparr>) ?sh2)
          (upsert_finish D (uj_key j) r' errs (server_of (sh_write p ?f ?sh2)))"
        by (rule reaches_step [OF _ reaches_finish]) (use ok1 as p in \<open>simp_all add: sh_write_twice\<close>)
      then show ?thesis by (rule reaches_step [rotated]) simp
    qed
    have "reaches D (Import j p errs) sh1 (upsert_import D (uj_key j) (uj_uri j) r errs (server_of sh))"
    proof (cases "e = None \<and> rok")
      case True
      with \<open>a \<and> sd_pushToRHDH D\<close> w imp m s1(1) as(1) have "upsert_import D (uj_key j) (uj_uri j) r errs (server_of sh)
          = upsert_finish D (uj_key j) r' errs (server_of (sh_write p ?f ?sh2))"
        by (simp add: upsert_import_def)
      moreover from True w imp m have "handler_step D (Import j p errs) sh1 = Some (Set_location j p errs i t, ?sh2)"
        by simp
      ultimately show ?thesis using reaches_step [OF _ stored] by simp
    next
      case False
      with \<open>a \<and> sd_pushToRHDH D\<close> w imp m s1(1) ok1 show ?thesis
        by (cases e; cases rok) (auto simp: upsert_import_def intro!: reaches_step [OF _ reaches_answered])
    qed
    then show ?thesis by (rule reaches_step [rotated]) (use set True in simp)
  qed
qed

lemma reaches_backstage:
  assumes ok: "heap_ok sh" "\<not> sh_mutex sh" "ref_at sh (uj_key j) p r"
  shows "reaches D (if already then Check_location j p errs else Setup_import j p errs) sh
    (upsert_backstage D (uj_key j) (uj_uri j) already r errs (server_of sh))"
proof (cases already)
  case False
  with reaches_import [OF ok] show ?thesis by (simp add: upsert_backstage_def)
next
  case True
  show ?thesis
  proof (cases "sh_bkstg sh")
    case None
    with ok True show ?thesis
      by (auto simp: upsert_backstage_def still_pushed_def
          intro!: reaches_step [where pc = "Check_location j p errs"] reaches_step [OF _ reaches_answered])
  next
    case (Some w)
    obtain m e b where get: "bi_GetLocation (sd_bkstg D w) (sb_LocationId (sh_heap sh ! p)) (sh_world sh) = ((m, e), b)"
      by (metis prod.collapse)
    let ?gone = "e \<noteq> None \<or> length m = 0 \<or> \<not> snd (snd (ParseImportLocationMap m))"
    have sp: "still_pushed D r (server_of sh) = (Some (\<not> ?gone), server_of (sh\<lparr>sh_world := b\<rparr>))"
      using Some get sb_deref_ref_at [OF ok(3)] by (simp add: still_pushed_def)
    have start: "handler_step D (Check_location j p errs) sh = Some (Check_call j p errs (sb_LocationId (sh_heap sh ! p)), sh)"
      by simp
    have step: "handler_step D (Check_call j p errs (sb_LocationId (sh_heap sh ! p))) sh
        = Some (if ?gone then Setup_import j p errs else Answered (gin_error StatusOK errs), sh\<lparr>sh_world := b\<rparr>)"
      using Some get by simp
    have "reaches D (if ?gone then Setup_import j p errs else Answered (gin_error StatusOK errs)) (sh\<lparr>sh_world := b\<rparr>)
        (upsert_backstage D (uj_key j) (uj_uri j) True r errs (server_of sh))"
      unfolding upsert_backstage_def sp
      using ok reaches_import [of "sh\<lparr>sh_world := b\<rparr>" j p r D errs] by (auto intro!: reaches_answered)
    from reaches_step [OF start reaches_step [OF step this]] True show ?thesis by simp
  qed
qed

lemma reaches_push:
  assumes ok: "heap_ok sh" "\<not> sh_mutex sh" "ref_at sh (uj_key j) p r"
  shows "reaches D (Push j p already) sh
    (upsert_push D (uj_key j) (uj_uri j) (uj_post j) already r (server_of sh))"
proof -
  obtain rc e l where up: "sd_UpsertModel D (uj_key j) (uj_post j) (sh_locations sh) = ((rc, e), l)"
    by (metis prod.collapse)
  show ?thesis
  proof (cases e)
    case None
    obtain errs where errs: "errs = (if rc \<noteq> StatusCreated \<and> rc \<noteq> StatusOK
      then [ErrorfDump (''error upserting to bridge uri '' @ uj_uri j @ '' POST body: msg '')] else [])" by simp
    have step: "handler_step D (Push j p already) sh
        = Some (if already then Check_location j p errs else Setup_import j p errs, sh\<lparr>sh_locations := l\<rparr>)"
      using up None by (simp only: handler_step.simps errs Let_def prod.case option.case)
    have rest: "upsert_push D (uj_key j) (uj_uri j) (uj_post j) already r (server_of sh)
        = upsert_backstage D (uj_key j) (uj_uri j) already r errs (server_of (sh\<lparr>sh_locations := l\<rparr>))"
      using up None by (simp only: upsert_push_def server_of_simps errs Let_def prod.case option.case)
    show ?thesis
      unfolding rest by (rule reaches_step [OF step reaches_backstage]) (use ok in simp_all)
  next
    case (Some err)
    with ok up show ?thesis by (auto simp: upsert_push_def intro!: reaches_step [OF _ reaches_answered])
  qed
qed

text \<open>From the answer of \<^verbatim>\<open>sync\<close> on.\<close>

definition upsert_body :: "('s, 'l, 'b) StorageDeps \<Rightarrow> upsert_job \<Rightarrow> sb_ref \<Rightarrow> ('s, 'l, 'b) StorageRESTServer
    \<Rightarrow> gin_result \<times> ('s, 'l, 'b) StorageRESTServer" where
  "upsert_body D j sb s =
     (let alreadyPushed = length (sb_LocationId (sb_deref s sb)) > 0
      in case sb_assign (\<lambda>b. b\<lparr>sb_Body := pb_Body (uj_post j), sb_ReconcilerType := uj_type j\<rparr>) s sb of
           (sb, s) \<Rightarrow>
             (case bs_Upsert (sd_st D) (uj_key j) (sb_deref s sb) (ss_st s) of
                (Some err, st) \<Rightarrow>
                  (gin_error StatusInternalServerError
                     [Errorf (''error upserting to storage key '' @ uj_key j @ '' POST body: '' @ err)], s\<lparr>ss_st := st\<rparr>)
              | (None, st) \<Rightarrow> upsert_push D (uj_key j) (uj_uri j) (uj_post j) alreadyPushed sb (s\<lparr>ss_st := st\<rparr>)))"

lemma upsert_store_body:
  "upsert_store D (uj_key j) (uj_uri j) (uj_type j) (uj_post j) s =
     (case sync D (uj_key j) s of
        (Some (sb, None), s) \<Rightarrow> upsert_body D j sb s
      | (_, s) \<Rightarrow> (gin_status StatusInternalServerError, s))"
  by (simp add: upsert_store_def upsert_body_def split: prod.split option.split)

lemma reaches_body:
  assumes ok: "heap_ok sh" "\<not> sh_mutex sh" "ref_at sh (uj_key j) p r"
  shows "reaches D (Read_pushed j p) sh (upsert_body D j r (server_of sh))"
proof -
  let ?f = "\<lambda>b. b\<lparr>sb_Body := pb_Body (uj_post j), sb_ReconcilerType := uj_type j\<rparr>"
  let ?already = "length (sb_LocationId (sh_heap sh ! p)) > 0" and ?sh1 = "sh_write p ?f sh"
  have p: "p < length (sh_heap sh)" using ok(3) by (simp add: ref_at_def)
  from write_assign [OF ok(1,3), of ?f] obtain r' where as:
    "sb_assign ?f (server_of sh) r = (r', server_of ?sh1)" "ref_at ?sh1 (uj_key j) p r'" by blast
  obtain e st where u: "bs_Upsert (sd_st D) (uj_key j) (sh_heap ?sh1 ! p) (sh_st sh) = (e, st)" by fastforce
  note d = sb_deref_ref_at [OF as(2)] sb_deref_ref_at [OF ok(3)]
  have called: "reaches D (First_call j p ?already (sh_heap ?sh1 ! p)) ?sh1 (upsert_body D j r (server_of sh))"
  proof (cases e)
    case None
    with u as d have body: "upsert_body D j r (server_of sh)
        = upsert_push D (uj_key j) (uj_uri j) (uj_post j) ?already r' (server_of (?sh1\<lparr>sh_st := st\<rparr>))"
      by (simp add: upsert_body_def)
    show ?thesis
      unfolding body by (rule reaches_step [OF _ reaches_push]) (use ok as u None in simp_all)
  next
    case (Some err)
    with ok u as d show ?thesis by (auto simp: upsert_body_def intro!: reaches_step [OF _ reaches_answered])
  qed
  have "reaches D (Store_first j p ?already) ?sh1 (upsert_body D j r (server_of sh))"
    by (rule reaches_step [OF _ called]) simp
  then have "reaches D (Set_type j p ?already) (sh_write p (\<lambda>b. b\<lparr>sb_Body := pb_Body (uj_post j)\<rparr>) sh)
      (upsert_body D j r (server_of sh))"
    by - (rule reaches_step [where pc' = "Store_first j p ?already"], simp_all add: sh_write_twice [OF p])
  then have "reaches D (Set_body j p ?already) sh (upsert_body D j r (server_of sh))"
    by (rule reaches_step [rotated]) simp
  then show ?thesis by (rule reaches_step [rotated]) simp
qed


lemma server_of_pushed [simp]:
  "server_of (sh\<lparr>sh_pushed := ps\<rparr>) = (server_of sh)\<lparr>ss_pushedLocations := AList.map_ran (\<lambda>_ p. sh_heap sh ! p) ps\<rparr>"
  by (simp add: server_of_def)

text \<open>\<^verbatim>\<open>sync\<close>: a body only the handler has, or one that is put into the cache.\<close>

lemma new_fresh:
  assumes "heap_ok sh" and "sh_new b sh = (p, sh')"
  shows "heap_ok sh'" "server_of sh' = server_of sh" "ref_at sh' k p (Fresh b)" "sh_mutex sh' = sh_mutex sh"
proof -
  have sh': "sh' = sh\<lparr>sh_heap := sh_heap sh @ [b]\<rparr>" "p = length (sh_heap sh)" using assms(2) by (auto simp: sh_new_def)
  have "p \<notin> set (map snd (sh_pushed sh))" using assms(1) sh'(2) by (auto simp: heap_ok_def)
  then show "ref_at sh' k p (Fresh b)" using sh' by (simp add: ref_at_def)
  show "heap_ok sh'" "server_of sh' = server_of sh" "sh_mutex sh' = sh_mutex sh"
    using heap_ok_new [OF assms(1), of b] server_of_new [OF assms(1), of b] sh' by simp_all
qed

lemma new_cached:
  assumes "heap_ok sh" and "sh_new b sh = (p, sh1)" and "sh2 = sh1\<lparr>sh_pushed := AList.update k p (sh_pushed sh1)\<rparr>"
  shows "heap_ok sh2" "ref_at sh2 k p (Cached k)" "sh_mutex sh2 = sh_mutex sh"
    "server_of sh2 = (server_of sh)\<lparr>ss_pushedLocations := AList.update k b (ss_pushedLocations (server_of sh))\<rparr>"
proof -
  have sh1: "sh1 = sh\<lparr>sh_heap := sh_heap sh @ [b]\<rparr>" "p = length (sh_heap sh)" using assms(2) by (auto simp: sh_new_def)
  have p: "p \<notin> set (map snd (sh_pushed sh))" using assms(1) sh1(2) by (auto simp: heap_ok_def)
  have "\<forall>q \<in> set (map snd (AList.update k p (sh_pushed sh))). q < Suc (length (sh_heap sh))"
    using assms(1) set_snd_update [of k p "sh_pushed sh"] unfolding sh1(2) heap_ok_def less_Suc_eq by blast
  with assms(1) sh1 p show "heap_ok sh2"
    by (simp add: assms(3) heap_ok_def distinct_update distinct_snd_update del: set_map)
  show "ref_at sh2 k p (Cached k)" "sh_mutex sh2 = sh_mutex sh"
    using sh1 by (simp_all add: assms(3) ref_at_def)
  have "server_of sh1 = server_of sh" using server_of_new [OF assms(1)] sh1 by simp
  moreover have "server_of sh2
      = (server_of sh1)\<lparr>ss_pushedLocations := AList.update k b (ss_pushedLocations (server_of sh1))\<rparr>"
    using sh1 by (simp add: assms(3) server_of_def map_ran_update)
  ultimately show "server_of sh2
      = (server_of sh)\<lparr>ss_pushedLocations := AList.update k b (ss_pushedLocations (server_of sh))\<rparr>" by simp
qed

lemma reaches_answered_500:
  "handler_step D pc sh = Some (Answered g, sh') \<Longrightarrow> heap_ok sh' \<Longrightarrow> \<not> sh_mutex sh' \<Longrightarrow> gs = (g, server_of sh') \<Longrightarrow>
   reaches D pc sh gs"
  by (auto intro: reaches_step [OF _ reaches_answered])

lemma reaches_sync_location:
  assumes ok: "heap_ok sh"
  shows "reaches D (Sync_location j ssb) sh
    (case ss_bkstg (server_of sh) of
       None \<Rightarrow> (gin_status StatusInternalServerError, server_of sh)
     | Some w \<Rightarrow>
         (case bi_GetLocation (sd_bkstg D w) (sb_LocationId ssb) (ss_world (server_of sh)) of
            ((_, None), b) \<Rightarrow>
              upsert_body D j (Cached (uj_key j)) ((server_of sh)\<lparr>ss_world := b,
                ss_pushedLocations := AList.update (uj_key j) (ssb\<lparr>sb_LocationIDValid := True\<rparr>)
                  (ss_pushedLocations (server_of sh))\<rparr>)
          | ((_, Some _), b) \<Rightarrow>
              (case bs_Remove (sd_st D) (uj_key j) (ss_st (server_of sh)) of
                 (err, st') \<Rightarrow>
                   (let s = (server_of sh)\<lparr>ss_world := b, ss_st := st',
                          ss_pushedLocations := AList.delete (uj_key j) (ss_pushedLocations (server_of sh))\<rparr>
                    in if err = None then upsert_body D j (Fresh StorageBody_zero) s
                       else (gin_status StatusInternalServerError, s)))))"
proof (cases "sh_bkstg sh")
  case None
  with ok show ?thesis by (auto intro!: reaches_answered_500)
next
  case (Some w)
  obtain m e b where get: "bi_GetLocation (sd_bkstg D w) (sb_LocationId ssb) (sh_world sh) = ((m, e), b)"
    by (metis prod.collapse)
  show ?thesis
  proof (cases e)
    case None
    let ?sh = "sh\<lparr>sh_world := b, sh_mutex := False\<rparr>"
    obtain p sh1 where new: "sh_new (ssb\<lparr>sb_LocationIDValid := True\<rparr>) ?sh = (p, sh1)" by fastforce
    have "heap_ok ?sh" using ok by simp
    note cached = new_cached [OF this new refl, of "uj_key j"]
    have "\<not> sh_mutex (sh1\<lparr>sh_pushed := AList.update (uj_key j) p (sh_pushed sh1)\<rparr>)" using cached(3) by simp
    from reaches_body [OF cached(1) this cached(2), of D] Some get None new cached(4) show ?thesis
      by - (rule reaches_step, auto)
  next
    case (Some err)
    let ?sh = "sh\<lparr>sh_world := b, sh_pushed := AList.delete (uj_key j) (sh_pushed sh)\<rparr>"
    have ok1: "heap_ok ?sh" using heap_ok_delete [OF ok, of "uj_key j"] by (simp add: heap_ok_def)
    have sv: "server_of ?sh = (server_of sh)\<lparr>ss_world := b,
        ss_pushedLocations := AList.delete (uj_key j) (ss_pushedLocations (server_of sh))\<rparr>"
      by (simp add: server_of_def map_ran_delete)
    obtain er st where rm: "bs_Remove (sd_st D) (uj_key j) (sh_st sh) = (er, st)" by fastforce
    let ?sh2 = "?sh\<lparr>sh_st := st, sh_mutex := False\<rparr>"
    have sv2: "server_of ?sh2 = (server_of sh)\<lparr>ss_world := b, ss_st := st,
        ss_pushedLocations := AList.delete (uj_key j) (ss_pushedLocations (server_of sh))\<rparr>"
      by (simp add: server_of_def map_ran_delete)
    have ok2: "heap_ok ?sh2" using ok1 by (simp add: heap_ok_def)
    let ?gs = "if er = None then upsert_body D j (Fresh StorageBody_zero) (server_of ?sh2)
      else (gin_status StatusInternalServerError, server_of ?sh2)"
    have "reaches D (Sync_remove j) ?sh ?gs"
    proof (cases er)
      case None
      obtain p sh3 where new: "sh_new StorageBody_zero ?sh2 = (p, sh3)" by fastforce
      note fresh = new_fresh [OF ok2 new]
      have "\<not> sh_mutex sh3" using fresh(4) by simp
      from reaches_body [OF fresh(1) this fresh(3), of D] rm None new fresh(2) show ?thesis
        by - (rule reaches_step, auto)
    next
      case (Some x)
      with rm ok2 show ?thesis by (auto intro!: reaches_answered_500)
    qed
    moreover have "handler_step D (Sync_location j ssb) sh = Some (Sync_remove j, ?sh)"
      using \<open>sh_bkstg sh = Some w\<close> get Some by simp
    ultimately have "reaches D (Sync_location j ssb) sh ?gs" by (rule reaches_step [rotated])
    from this [unfolded sv2] \<open>sh_bkstg sh = Some w\<close> get Some rm show ?thesis
      by (cases er) (simp_all add: Let_def)
  qed
qed

lemma reaches_upsert:
  assumes ok: "heap_ok sh" "\<not> sh_mutex sh"
  shows "reaches D (Sync_lock j) sh
    (upsert_store D (uj_key j) (uj_uri j) (uj_type j) (uj_post j) (server_of sh))"
proof -
  let ?k = "uj_key j" and ?s = "server_of sh"
  let ?goal = "upsert_store D ?k (uj_uri j) (uj_type j) (uj_post j) ?s"
  show ?thesis
  proof (cases "\<exists>p. map_of (sh_pushed sh) ?k = Some p \<and> sb_LocationIDValid (sh_heap sh ! p)")
    case True
    then obtain p where p: "map_of (sh_pushed sh) ?k = Some p" "sb_LocationIDValid (sh_heap sh ! p)" by blast
    then have "sync D ?k ?s = (Some (Cached ?k, None), ?s)" by (simp add: sync_def map_ran_conv)
    moreover have "ref_at sh ?k p (Cached ?k)"
      using p ok(1) by (force simp: ref_at_def heap_ok_def dest: map_of_SomeD)
    moreover have "handler_step D (Sync_lock j) sh = Some (Read_pushed j p, sh)" using p ok by simp
    ultimately show ?thesis
      using reaches_step [OF _ reaches_body [OF ok, of j p "Cached ?k"]]
      by (simp add: upsert_store_body del: handler_step.simps)
  next
    case False
    then have miss: "\<not> (case map_of (ss_pushedLocations ?s) ?k of None \<Rightarrow> False | Some sb \<Rightarrow> sb_LocationIDValid sb)"
      by (auto simp: map_ran_conv split: option.splits)
    have step: "handler_step D (Sync_lock j) sh = Some (Sync_fetch j, sh\<lparr>sh_mutex := True\<rparr>)"
      using False ok by (auto split: option.split)
    obtain ssb e st where f: "bs_Fetch (sd_st D) ?k (sh_st sh) = ((ssb, e), st)" by (metis prod.collapse)
    let ?sh = "sh\<lparr>sh_st := st, sh_mutex := True\<rparr>"
    have "reaches D (Sync_fetch j) (sh\<lparr>sh_mutex := True\<rparr>) ?goal"
    proof (cases "e = None")
      case False
      with f miss have "?goal = (gin_status StatusInternalServerError, server_of (sh\<lparr>sh_st := st, sh_mutex := False\<rparr>))"
        unfolding upsert_store_body sync_def by auto
      with False f ok show ?thesis by (auto intro!: reaches_answered_500)
    next
      case True
      show ?thesis
      proof (cases "length (sb_LocationId ssb) > 0")
        case True
        with \<open>e = None\<close> f have fetch: "handler_step D (Sync_fetch j) (sh\<lparr>sh_mutex := True\<rparr>) = Some (Sync_location j ssb, ?sh)"
          by (simp add: Let_def)
        have "heap_ok ?sh" using ok by simp
        from reaches_step [OF fetch reaches_sync_location [OF this]] True \<open>e = None\<close> f miss show ?thesis
          unfolding upsert_store_body sync_def
          by (auto simp: Let_def split: option.splits prod.splits if_splits)
      next
        case False
        let ?sh1 = "sh\<lparr>sh_st := st, sh_mutex := False\<rparr>"
        obtain p sh2 where new: "sh_new ssb ?sh1 = (p, sh2)" by fastforce
        have "heap_ok ?sh1" using ok by simp
        note fresh = new_fresh [OF this new]
        have "?goal = upsert_body D j (Fresh ssb) (server_of sh2)"
          using False \<open>e = None\<close> f miss fresh(2) unfolding upsert_store_body sync_def by auto
        moreover have "handler_step D (Sync_fetch j) (sh\<lparr>sh_mutex := True\<rparr>) = Some (Read_pushed j p, sh2)"
          using False \<open>e = None\<close> f new by (simp add: Let_def)
        moreover have "\<not> sh_mutex sh2" using fresh(4) by simp
        ultimately show ?thesis
          using reaches_step [OF _ reaches_body [OF fresh(1) _ fresh(3)]] by (simp del: handler_step.simps)
      qed
    qed
    from reaches_step [OF step this] show ?thesis .
  qed
qed

text \<open>The key set handler.\<close>

definition delete_location ::
    "('s, 'l, 'b) StorageDeps \<Rightarrow> StorageBody \<Rightarrow> ('s, 'l, 'b) StorageRESTServer \<Rightarrow> ('s, 'l, 'b) StorageRESTServer" where
  "delete_location D sb s =
     (let (bkstAvailable, s) = setupBkstg D s
      in case ss_bkstg s of
           Some w \<Rightarrow>
             if length (sb_LocationId sb) > 0 \<and> bkstAvailable
             then s\<lparr>ss_world := snd (bi_DeleteLocation (sd_bkstg D w) (sb_LocationId sb) (ss_world s))\<rparr>
             else s
         | None \<Rightarrow> s)"

lemma purge_key_delete:
  "purge_key D k s =
     (case bs_Fetch (sd_st D) k (ss_st s) of
        ((sb, _), st) \<Rightarrow>
          (case bs_Remove (sd_st D) k st of
             (Some err, st') \<Rightarrow> (Some (Errorf err), s\<lparr>ss_st := st'\<rparr>)
           | (None, st') \<Rightarrow>
               (let s = delete_location D sb (del k (s\<lparr>ss_st := st'\<rparr>))
                in case sd_RemoveModel D k (ss_locations s) of
                     ((rc, Some err), l) \<Rightarrow> (Some (Errorf err), s\<lparr>ss_locations := l\<rparr>)
                   | ((rc, None), l) \<Rightarrow>
                       if rc \<noteq> StatusOK \<and> rc \<noteq> StatusCreated
                       then (Some (ErrorfDump (''bad rc removing from storage key '' @ show_nat rc @ '': '')),
                             s\<lparr>ss_locations := l\<rparr>)
                       else (None, s\<lparr>ss_locations := l\<rparr>))))"
  by (simp add: purge_key_def delete_location_def Let_def split: prod.split option.split)

lemma reaches_delete_location:
  assumes "heap_ok sh" "\<not> sh_mutex sh"
  shows "\<exists>sh4. (\<forall>gs. reaches D (Purge_model k K ks errs) sh4 gs \<longrightarrow> reaches D (Purge_setup k sb K ks errs) sh gs)
    \<and> heap_ok sh4 \<and> \<not> sh_mutex sh4 \<and> server_of sh4 = delete_location D sb (server_of sh)"
proof -
  obtain a sh3 where set: "shared_setupBkstg D sh = (a, sh3)" by fastforce
  note s3 = setup_shared [OF set]
  have ok3: "heap_ok sh3" "\<not> sh_mutex sh3" using assms s3(2,4) by simp_all
  let ?drop = "length (sb_LocationId sb) > 0 \<and> a"
  have start: "handler_step D (Purge_setup k sb K ks errs) sh
      = Some (if ?drop then Purge_location k sb K ks errs else Purge_model k K ks errs, sh3)"
    using set by simp
  show ?thesis
  proof (cases ?drop)
    case True
    with s3(9) obtain w where w: "sh_bkstg sh3 = Some w" by blast
    let ?sh4 = "sh3\<lparr>sh_world := snd (bi_DeleteLocation (sd_bkstg D w) (sb_LocationId sb) (sh_world sh3))\<rparr>"
    have step: "handler_step D (Purge_location k sb K ks errs) sh3 = Some (Purge_model k K ks errs, ?sh4)"
      using w by simp
    have "server_of ?sh4 = delete_location D sb (server_of sh)"
      using True w by (simp add: delete_location_def s3(1))
    with True ok3 reaches_step [OF start] reaches_step [OF step] show ?thesis by (intro exI [of _ ?sh4]) auto
  next
    case False
    then have "server_of sh3 = delete_location D sb (server_of sh)"
      by (auto simp: delete_location_def s3(1) split: option.split)
    with False ok3 reaches_step [OF start] show ?thesis by (intro exI [of _ sh3]) auto
  qed
qed

lemma reaches_purge:
  assumes ok: "heap_ok sh" "\<not> sh_mutex sh"
    and rest: "\<And>sh errs. heap_ok sh \<Longrightarrow> \<not> sh_mutex sh \<Longrightarrow> reaches D (Purge_next K ks errs) sh (F errs (server_of sh))"
    and k: "k \<notin> set K"
  shows "reaches D (Purge_next K (k # ks) errs) sh
    (case purge_key D k (server_of sh) of (None, s) \<Rightarrow> F errs s | (Some e, s) \<Rightarrow> F (errs @ [e]) s)"
proof -
  obtain sb e st where f: "bs_Fetch (sd_st D) k (sh_st sh) = ((sb, e), st)" by (metis prod.collapse)
  obtain er st' where r: "bs_Remove (sd_st D) k st = (er, st')" by fastforce
  let ?sh1 = "sh\<lparr>sh_st := st'\<rparr>" and ?goal = "case purge_key D k (server_of sh) of
      (None, s) \<Rightarrow> F errs s | (Some e, s) \<Rightarrow> F (errs @ [e]) s"
  have removed: "reaches D (Purge_remove k sb K ks errs) (sh\<lparr>sh_st := st\<rparr>) ?goal"
  proof (cases er)
    case (Some err)
    have "heap_ok ?sh1" "\<not> sh_mutex ?sh1" using ok by simp_all
    from rest [OF this, of "errs @ [Errorf err]"] f r Some show ?thesis
      by - (rule reaches_step, auto simp: purge_key_def)
  next
    case None
    let ?sh2 = "?sh1\<lparr>sh_pushed := AList.delete k (sh_pushed ?sh1)\<rparr>"
    have ok2: "heap_ok ?sh2" "\<not> sh_mutex ?sh2" using ok heap_ok_delete [of ?sh1 k] by simp_all
    have sv2: "server_of ?sh2 = del k ((server_of sh)\<lparr>ss_st := st'\<rparr>)" by (simp add: del_def map_ran_delete)
    from reaches_delete_location [OF ok2] obtain sh4 where
      sh4: "\<And>gs. reaches D (Purge_model k K ks errs) sh4 gs \<Longrightarrow> reaches D (Purge_setup k sb K ks errs) ?sh2 gs"
        "heap_ok sh4" "\<not> sh_mutex sh4"
        "server_of sh4 = delete_location D sb (server_of ?sh2)" by blast
    note sv4 = sh4(4) [unfolded sv2]
    obtain rc e2 l where rm: "sd_RemoveModel D k (sh_locations sh4) = ((rc, e2), l)" by (metis prod.collapse)
    let ?res = "case e2 of Some err \<Rightarrow> Some (Errorf err)
      | None \<Rightarrow> if rc \<noteq> StatusOK \<and> rc \<noteq> StatusCreated
                then Some (ErrorfDump (''bad rc removing from storage key '' @ show_nat rc @ '': '')) else None"
    have purge: "purge_key D k (server_of sh) = (?res, server_of (sh4\<lparr>sh_locations := l\<rparr>))"
      using f r None rm by (simp add: purge_key_delete Let_def sv4 [symmetric] split: option.split)
    have "handler_step D (Purge_model k K ks errs) sh4
        = Some (Purge_next K ks (case ?res of None \<Rightarrow> errs | Some e \<Rightarrow> errs @ [e]), sh4\<lparr>sh_locations := l\<rparr>)"
      using rm by (simp split: option.split)
    moreover have "reaches D (Purge_next K ks (case ?res of None \<Rightarrow> errs | Some e \<Rightarrow> errs @ [e])) (sh4\<lparr>sh_locations := l\<rparr>) ?goal"
      using rest [of "sh4\<lparr>sh_locations := l\<rparr>"] sh4(2,3) unfolding purge by (simp split: option.split)
    ultimately have model: "reaches D (Purge_model k K ks errs) sh4 ?goal" by (rule reaches_step)
    note sh4(1) [OF model]
    moreover have "handler_step D (Purge_del k sb K ks errs) ?sh1 = Some (Purge_setup k sb K ks errs, ?sh2)"
      using ok by simp
    moreover have "handler_step D (Purge_remove k sb K ks errs) (sh\<lparr>sh_st := st\<rparr>) = Some (Purge_del k sb K ks errs, ?sh1)"
      using r None by simp
    ultimately show ?thesis by (blast intro: reaches_step)
  qed
  show ?thesis by (rule reaches_step [OF _ removed]) (use k f in simp)
qed


lemma reaches_purges:
  assumes "heap_ok sh" "\<not> sh_mutex sh"
  shows "reaches D (Purge_next K ks errs) sh
    (case purge_keys D K ks errs (server_of sh) of
       (errors, s') \<Rightarrow>
         if length errors > 0
         then (gin_error StatusInternalServerError [ErrorfDump (show_nat (length errors) @ '' errors: '')], s')
         else (gin_status StatusOK, s'))"
  using assms
proof (induction ks arbitrary: errs sh)
  case Nil
  then show ?case by (auto intro!: reaches_step [OF _ reaches_answered])
next
  case (Cons k ks)
  show ?case
  proof (cases "k \<in> set K")
    case True
    have "handler_step D (Purge_next K (k # ks) errs) sh = Some (Purge_next K ks errs, sh)" using True by simp
    from reaches_step [OF this Cons.IH [OF Cons.prems]] True show ?thesis by simp
  next
    case False
    obtain e s where purge: "purge_key D k (server_of sh) = (e, s)" by fastforce
    from reaches_purge [OF Cons.prems Cons.IH False, of errs] False show ?thesis
      by (cases e) (simp_all add: purge)
  qed
qed

lemma reaches_keyset:
  assumes "heap_ok sh" "\<not> sh_mutex sh"
  shows "reaches D (List_keys (posted_keys c)) sh (handleCatalogCurrentKeySetPost D c (server_of sh))"
proof -
  obtain ks e st where ls: "bs_List (sd_st D) (sh_st sh) = ((ks, e), st)" by (metis prod.collapse)
  show ?thesis
  proof (cases e)
    case None
    have "handler_step D (List_keys (posted_keys c)) sh = Some (Purge_next (posted_keys c) ks [], sh\<lparr>sh_st := st\<rparr>)"
      using ls None by simp
    from reaches_step [OF this reaches_purges] assms ls None show ?thesis
      by (simp add: handleCatalogCurrentKeySetPost_def)
  next
    case (Some err)
    with assms ls show ?thesis
      by (auto simp: handleCatalogCurrentKeySetPost_def intro!: reaches_step [OF _ reaches_answered])
  qed
qed

text \<open>The reads change the storage tier only.\<close>

lemma ss_serve_read:
  assumes "rq_method c = GET" and "ss_serve D c s = (g, s')"
  shows "s' = s\<lparr>ss_st := ss_st s'\<rparr>"
  using assms
  by (auto simp: ss_serve_def handleCatalogList_def handleCatalogFetch_def Let_def
      split: if_splits prod.splits option.splits)

lemma reaches_serve:
  assumes ok: "heap_ok sh" "\<not> sh_mutex sh"
  shows "reaches D (handler_start D c) sh (ss_serve D c (server_of sh))"
proof (cases "rq_method c")
  case POST
  have "reaches D (upsert_start D c) sh (handleCatalogUpsertPost D c (server_of sh))"
  proof (cases "gin_Query c KeyQueryParam = [] \<or> snd (gin_BindJSON c) \<noteq> None
      \<or> rekey (sd_format D) (gin_Query c KeyQueryParam) = None")
    case True
    with ok show ?thesis
      by (auto simp: upsert_start_def handleCatalogUpsertPost_def Let_def
          intro!: reaches_answered split: prod.split option.split)
  next
    case False
    then obtain pb k uri where c: "gin_BindJSON c = (pb, None)" "gin_Query c KeyQueryParam \<noteq> []"
        "rekey (sd_format D) (gin_Query c KeyQueryParam) = Some (k, uri)" by (cases "gin_BindJSON c") auto
    with reaches_upsert [OF ok, of D "\<lparr>uj_key = k, uj_uri = uri, uj_type = gin_Query c TypeQueryParam, uj_post = pb\<rparr>"]
    show ?thesis by (simp add: upsert_start_def handleCatalogUpsertPost_def Let_def)
  qed
  with POST reaches_keyset [OF ok, of D c] ok show ?thesis
    by (auto simp: handler_start_def ss_serve_def intro: reaches_answered)
next
  case GET
  obtain g s where serve: "ss_serve D c (server_of sh) = (g, s)" by fastforce
  show ?thesis
  proof (cases "rq_url c = ListURI \<or> rq_url c = FetchURI")
    case True
    have step: "handler_step D (Read_store c) sh = Some (Answered g, sh\<lparr>sh_st := ss_st s\<rparr>)" using serve by simp
    have "server_of (sh\<lparr>sh_st := ss_st s\<rparr>) = s" using ss_serve_read [OF GET serve] by simp
    with reaches_step [OF step reaches_answered] ok serve GET True show ?thesis by (simp add: handler_start_def)
  next
    case False
    with ok GET show ?thesis by (auto simp: handler_start_def ss_serve_def intro: reaches_answered)
  qed
next
  case DELETE
  with ok show ?thesis by (auto simp: handler_start_def ss_serve_def intro: reaches_answered)
qed


section \<open>Progress\<close>

text \<open>The handler is in \<^verbatim>\<open>sync\<close>, after the lock.\<close>

fun holds_mutex :: "handler_pc \<Rightarrow> bool" where
  "holds_mutex (Sync_fetch j) = True"
| "holds_mutex (Sync_location j ssb) = True"
| "holds_mutex (Sync_remove j) = True"
| "holds_mutex _ = False"

definition mutex_owned :: "handler_pc list \<Rightarrow> ('s, 'l, 'b) shared \<Rightarrow> bool" where
  "mutex_owned pcs sh \<longleftrightarrow> length (filter holds_mutex pcs) = (if sh_mutex sh then 1 else 0)"

lemma length_filter_update:
  "i < length xs \<Longrightarrow>
   length (filter P (xs[i := x])) + (if P (xs ! i) then 1 else 0) = length (filter P xs) + (if P x then 1 else 0)"
proof (induction xs arbitrary: i)
  case (Cons y ys)
  then show ?case by (cases i) auto
qed simp

lemma sum_list_map_update:
  fixes f :: "'a \<Rightarrow> nat"
  shows "i < length xs \<Longrightarrow> sum_list (map f (xs[i := x])) + f (xs ! i) = sum_list (map f xs) + f x"
proof (induction xs arbitrary: i)
  case (Cons y ys)
  then show ?case by (cases i) auto
qed simp

lemma handler_step_mutex:
  assumes "handler_step D pc sh = Some (pc', sh')" and "holds_mutex pc \<Longrightarrow> sh_mutex sh"
  shows "(if sh_mutex sh' then 1 else 0) + (if holds_mutex pc then 1 else 0)
    = (if sh_mutex sh then 1 else 0) + (if holds_mutex pc' then 1 else (0::nat))"
  using assms setup_shared(4) [of D sh]
  by (cases "(D, pc, sh)" rule: handler_step.cases)
    (force simp: sh_new_def Let_def split: prod.splits option.splits if_splits)+

lemma handler_start_free: "\<not> holds_mutex (handler_start D c)"
  by (auto simp: handler_start_def upsert_start_def Let_def split: http_method.split prod.split option.split)

lemma handlers_run_mutex:
  assumes "handlers_run D sh0 cs x" and "\<not> sh_mutex sh0"
  shows "mutex_owned (fst x) (snd x)"
  using assms
proof (induction rule: handlers_run.induct)
  case handlers_start
  then show ?case by (simp add: mutex_owned_def)
next
  case (handlers_arrive cs pcs sh c)
  then show ?case using handler_start_free [of D c] by (simp add: mutex_owned_def)
next
  case (handlers_next cs x y)
  from handlers_next.hyps(2) show ?case
  proof cases
    case (handler_steps i pcs sh pc sh')
    have "mutex_owned pcs sh" using handlers_next handler_steps by simp
    moreover have "holds_mutex (pcs ! i) \<Longrightarrow> filter holds_mutex pcs \<noteq> []"
      using handler_steps(3) by (auto simp: filter_empty_conv)
    ultimately have "holds_mutex (pcs ! i) \<Longrightarrow> sh_mutex sh" by (auto simp: mutex_owned_def split: if_splits)
    from handler_step_mutex [OF handler_steps(4) this] \<open>mutex_owned pcs sh\<close>
      length_filter_update [OF handler_steps(3), of holds_mutex pc] handler_steps(2)
    show ?thesis by (auto simp: mutex_owned_def split: if_splits)
  qed
qed

text \<open>A handler that has not answered can take a step unless another one has the mutex, and that one can.\<close>

lemma handler_step_enabled:
  "handler_step D pc sh = None \<Longrightarrow> (\<exists>g. pc = Answered g) \<or> sh_mutex sh \<and> \<not> holds_mutex pc"
  by (cases "(D, pc, sh)" rule: handler_step.cases) (auto simp: Let_def split: prod.splits option.splits if_splits)

lemma handlers_step_exists:
  assumes "mutex_owned pcs sh" and "pc \<in> set pcs" and "\<nexists>g. pc = Answered g"
  shows "\<exists>y. handlers_step D (pcs, sh) y"
proof -
  have step: "\<exists>y. handlers_step D (pcs, sh) y" if "pc \<in> set pcs" "handler_step D pc sh \<noteq> None" for pc
    using that by (force simp: in_set_conv_nth intro: handler_steps)
  show ?thesis
  proof (cases "sh_mutex sh")
    case True
    with assms(1) have "filter holds_mutex pcs \<noteq> []" by (auto simp: mutex_owned_def)
    then obtain pc1 where "pc1 \<in> set pcs" "holds_mutex pc1" by (auto simp: filter_empty_conv)
    moreover from this have "\<nexists>g. pc1 = Answered g" by auto
    ultimately show ?thesis using step [of pc1] handler_step_enabled [of D pc1 sh] by blast
  next
    case False
    with assms step [of pc] handler_step_enabled [of D pc sh] show ?thesis by blast
  qed
qed

text \<open>
  How far a handler is from its answer: first whether it has still to list the keys, whose number is not
  known before, then the number of steps.
\<close>

fun steps_left :: "handler_pc \<Rightarrow> nat" where
  "steps_left (Read_store c) = 1"
| "steps_left (Sync_lock j) = 18"
| "steps_left (Sync_fetch j) = 17"
| "steps_left (Sync_location j ssb) = 16"
| "steps_left (Sync_remove j) = 15"
| "steps_left (Read_pushed j p) = 14"
| "steps_left (Set_body j p a) = 13"
| "steps_left (Set_type j p a) = 12"
| "steps_left (Store_first j p a) = 11"
| "steps_left (First_call j p a sb) = 10"
| "steps_left (Push j p a) = 9"
| "steps_left (Check_location j p errs) = 8"
| "steps_left (Check_call j p errs i) = 7"
| "steps_left (Setup_import j p errs) = 6"
| "steps_left (Import j p errs) = 5"
| "steps_left (Set_location j p errs i t) = 4"
| "steps_left (Set_target j p errs t) = 3"
| "steps_left (Store_last j p errs) = 2"
| "steps_left (Last_call j p errs sb) = 1"
| "steps_left (List_keys K) = 0"
| "steps_left (Purge_next K ks errs) = 6 * length ks + 1"
| "steps_left (Purge_remove k sb K ks errs) = 6 * length ks + 6"
| "steps_left (Purge_del k sb K ks errs) = 6 * length ks + 5"
| "steps_left (Purge_setup k sb K ks errs) = 6 * length ks + 4"
| "steps_left (Purge_location k sb K ks errs) = 6 * length ks + 3"
| "steps_left (Purge_model k K ks errs) = 6 * length ks + 2"
| "steps_left (Answered g) = 0"

fun lists_keys :: "handler_pc \<Rightarrow> bool" where
  "lists_keys (List_keys K) = True"
| "lists_keys _ = False"

lemma handler_step_decreases:
  "handler_step D pc sh = Some (pc', sh') \<Longrightarrow>
   \<not> lists_keys pc' \<and> (lists_keys pc \<or> steps_left pc' < steps_left pc)"
  by (cases "(D, pc, sh)" rule: handler_step.cases)
    (auto simp: sh_new_def Let_def split: prod.splits option.splits if_splits)

lemma handlers_step_wf: "wf {(y, x). handlers_step D x y}"
proof (rule wf_subset)
  let ?m = "measures [\<lambda>(pcs, sh). length (filter lists_keys pcs), \<lambda>(pcs, sh). sum_list (map steps_left pcs)]"
  show "wf ?m" by simp
  show "{(y, x). handlers_step D x y} \<subseteq> ?m"
  proof clarify
    fix pcs pcs' and sh sh' :: "('a, 'b, 'c) shared"
    assume "handlers_step D (pcs, sh) (pcs', sh')"
    then obtain i pc where i: "i < length pcs" "handler_step D (pcs ! i) sh = Some (pc, sh')" "pcs' = pcs[i := pc]"
      by (auto elim: handlers_stepE)
    from handler_step_decreases [OF i(2)] length_filter_update [OF i(1), of lists_keys pc]
      sum_list_map_update [OF i(1), of steps_left pc] i(3)
    show "((pcs', sh'), pcs, sh) \<in> ?m" by (auto split: if_splits)
  qed
qed


section \<open>What interleaved handlers keep\<close>

text \<open>
  \<open>J\<close> are the jobs of the requests, \<open>docs k\<close> the documents that belong under the key \<open>k\<close>, and \<open>owner p\<close> is
  the key the body at \<open>p\<close> was made for.  A handler holds pointers to bodies of its own key only, and
  once it has written its document the body has one that belongs there.
\<close>

fun handler_ok ::
    "(upsert_job \<Rightarrow> bool) \<Rightarrow> (string \<Rightarrow> bytes set) \<Rightarrow> (nat \<Rightarrow> string) \<Rightarrow> StorageBody list \<Rightarrow> handler_pc \<Rightarrow> bool" where
  "handler_ok J docs owner h (Read_store c) \<longleftrightarrow> rq_method c = GET"
| "handler_ok J docs owner h (Sync_lock j) \<longleftrightarrow> J j"
| "handler_ok J docs owner h (Sync_fetch j) \<longleftrightarrow> J j"
| "handler_ok J docs owner h (Sync_location j ssb) \<longleftrightarrow> J j \<and> sb_Body ssb \<in> docs (uj_key j)"
| "handler_ok J docs owner h (Sync_remove j) \<longleftrightarrow> J j"
| "handler_ok J docs owner h (Read_pushed j p) \<longleftrightarrow> J j \<and> p < length h \<and> owner p = uj_key j"
| "handler_ok J docs owner h (Set_body j p a) \<longleftrightarrow> J j \<and> p < length h \<and> owner p = uj_key j"
| "handler_ok J docs owner h (Set_type j p a) \<longleftrightarrow> J j \<and> p < length h \<and> owner p = uj_key j \<and> sb_Body (h ! p) \<in> docs (uj_key j)"
| "handler_ok J docs owner h (Store_first j p a) \<longleftrightarrow> J j \<and> p < length h \<and> owner p = uj_key j \<and> sb_Body (h ! p) \<in> docs (uj_key j)"
| "handler_ok J docs owner h (First_call j p a sb) \<longleftrightarrow> J j \<and> p < length h \<and> owner p = uj_key j
     \<and> sb_Body (h ! p) \<in> docs (uj_key j) \<and> sb_Body sb \<in> docs (uj_key j)"
| "handler_ok J docs owner h (Push j p a) \<longleftrightarrow> J j \<and> p < length h \<and> owner p = uj_key j \<and> sb_Body (h ! p) \<in> docs (uj_key j)"
| "handler_ok J docs owner h (Check_location j p e) \<longleftrightarrow> J j \<and> p < length h \<and> owner p = uj_key j \<and> sb_Body (h ! p) \<in> docs (uj_key j)"
| "handler_ok J docs owner h (Check_call j p e i) \<longleftrightarrow> J j \<and> p < length h \<and> owner p = uj_key j \<and> sb_Body (h ! p) \<in> docs (uj_key j)"
| "handler_ok J docs owner h (Setup_import j p e) \<longleftrightarrow> J j \<and> p < length h \<and> owner p = uj_key j \<and> sb_Body (h ! p) \<in> docs (uj_key j)"
| "handler_ok J docs owner h (Import j p e) \<longleftrightarrow> J j \<and> p < length h \<and> owner p = uj_key j \<and> sb_Body (h ! p) \<in> docs (uj_key j)"
| "handler_ok J docs owner h (Set_location j p e i t) \<longleftrightarrow> J j \<and> p < length h \<and> owner p = uj_key j \<and> sb_Body (h ! p) \<in> docs (uj_key j)"
| "handler_ok J docs owner h (Set_target j p e t) \<longleftrightarrow> J j \<and> p < length h \<and> owner p = uj_key j \<and> sb_Body (h ! p) \<in> docs (uj_key j)"
| "handler_ok J docs owner h (Store_last j p e) \<longleftrightarrow> J j \<and> p < length h \<and> owner p = uj_key j \<and> sb_Body (h ! p) \<in> docs (uj_key j)"
| "handler_ok J docs owner h (Last_call j p e sb) \<longleftrightarrow> J j \<and> p < length h \<and> owner p = uj_key j
     \<and> sb_Body (h ! p) \<in> docs (uj_key j) \<and> sb_Body sb \<in> docs (uj_key j)"
| "handler_ok J docs owner h _ \<longleftrightarrow> True"

text \<open>The bodies of the cache are validated, belong to their key, and have a document that belongs there.\<close>

definition cache_owned :: "(string \<Rightarrow> bytes set) \<Rightarrow> (nat \<Rightarrow> string) \<Rightarrow> ('s, 'l, 'b) shared \<Rightarrow> bool" where
  "cache_owned docs owner sh \<longleftrightarrow> heap_ok sh
     \<and> (\<forall>k p. (k, p) \<in> set (sh_pushed sh) \<longrightarrow> owner p = k \<and> sb_LocationIDValid (sh_heap sh ! p)
          \<and> sb_Body (sh_heap sh ! p) \<in> docs k)"

text \<open>What a step may do to a body another handler has: give it another document that belongs there.\<close>

definition heap_evolves ::
    "(string \<Rightarrow> bytes set) \<Rightarrow> (nat \<Rightarrow> string) \<Rightarrow> StorageBody list \<Rightarrow> (nat \<Rightarrow> string) \<Rightarrow> StorageBody list \<Rightarrow> bool" where
  "heap_evolves docs owner h owner' h' \<longleftrightarrow> length h \<le> length h'
     \<and> (\<forall>p < length h. owner' p = owner p \<and> sb_LocationIDValid (h' ! p) = sb_LocationIDValid (h ! p)
          \<and> (sb_Body (h' ! p) = sb_Body (h ! p) \<or> sb_Body (h' ! p) \<in> docs (owner p)))"

lemma heap_evolves_refl: "heap_evolves docs owner h owner h"
  by (simp add: heap_evolves_def)

lemma handler_ok_evolves:
  "handler_ok J docs owner h pc \<Longrightarrow> heap_evolves docs owner h owner' h' \<Longrightarrow> handler_ok J docs owner' h' pc"
  by (cases pc) (auto simp: heap_evolves_def)

lemma cache_owned_simps [simp]:
  "cache_owned docs owner (sh\<lparr>sh_st := st\<rparr>) = cache_owned docs owner sh"
  "cache_owned docs owner (sh\<lparr>sh_locations := l\<rparr>) = cache_owned docs owner sh"
  "cache_owned docs owner (sh\<lparr>sh_bkstg := w\<rparr>) = cache_owned docs owner sh"
  "cache_owned docs owner (sh\<lparr>sh_world := b\<rparr>) = cache_owned docs owner sh"
  "cache_owned docs owner (sh\<lparr>sh_mutex := m\<rparr>) = cache_owned docs owner sh"
  by (simp_all add: cache_owned_def)

lemma cache_owned_delete:
  "cache_owned docs owner sh \<Longrightarrow> cache_owned docs owner (sh\<lparr>sh_pushed := AList.delete k (sh_pushed sh)\<rparr>)"
  using heap_ok_delete [of sh k] by (auto simp: cache_owned_def AList.delete_eq)

text \<open>A write through a pointer of the key \<open>k\<close>, of a document that belongs there or of other fields.\<close>

lemma write_owned:
  assumes "cache_owned docs owner sh" and "p < length (sh_heap sh)" and "owner p = k"
    and "\<And>b. sb_LocationIDValid (f b) = sb_LocationIDValid b"
    and "\<And>b. sb_Body (f b) = sb_Body b \<or> sb_Body (f b) \<in> docs k"
  shows "cache_owned docs owner (sh_write p f sh)"
    and "heap_evolves docs owner (sh_heap sh) owner (sh_heap (sh_write p f sh))"
    and "length (sh_heap (sh_write p f sh)) = length (sh_heap sh)"
    and "sb_Body (sh_heap (sh_write p f sh) ! p) = sb_Body (f (sh_heap sh ! p))"
proof -
  have body: "sb_Body (f b) \<in> docs k" if "sb_Body b \<in> docs k" for b using assms(5) [of b] that by auto
  have nth: "sh_heap (sh_write p f sh) ! q = (if q = p then f (sh_heap sh ! p) else sh_heap sh ! q)" for q
    using assms(2) by (simp add: sh_write_def nth_list_update)
  show "cache_owned docs owner (sh_write p f sh)"
    using assms(1,3,4) body by (auto simp: cache_owned_def nth)
  show "heap_evolves docs owner (sh_heap sh) owner (sh_heap (sh_write p f sh))"
    using assms(3,4,5) by (auto simp: heap_evolves_def nth) (simp_all add: sh_write_def)
  show "length (sh_heap (sh_write p f sh)) = length (sh_heap sh)" by (simp add: sh_write_def)
  show "sb_Body (sh_heap (sh_write p f sh) ! p) = sb_Body (f (sh_heap sh ! p))" by (simp add: nth)
qed

lemma in_set_update: "x \<in> set (AList.update k v al) \<Longrightarrow> x = (k, v) \<or> x \<in> set al"
  by (induction al) (auto split: if_splits)

text \<open>A new body, for the handler alone or for the cache too.\<close>

lemma new_owned:
  assumes "cache_owned docs owner sh" and "sh_new b sh = (p, sh1)"
  shows "cache_owned docs (owner(p := k)) sh1" "heap_evolves docs owner (sh_heap sh) (owner(p := k)) (sh_heap sh1)"
    "p < length (sh_heap sh1)" "sh_st sh1 = sh_st sh" "sh_locations sh1 = sh_locations sh" "sh_mutex sh1 = sh_mutex sh"
    "sb_LocationIDValid b \<Longrightarrow> sb_Body b \<in> docs k \<Longrightarrow>
       cache_owned docs (owner(p := k)) (sh1\<lparr>sh_pushed := AList.update k p (sh_pushed sh1)\<rparr>)"
proof -
  have sh1: "sh1 = sh\<lparr>sh_heap := sh_heap sh @ [b]\<rparr>" "p = length (sh_heap sh)" using assms(2) by (auto simp: sh_new_def)
  have bound: "\<And>k q. (k, q) \<in> set (sh_pushed sh) \<Longrightarrow> q < p"
    using assms(1) sh1(2) by (force simp: cache_owned_def heap_ok_def)
  then show owned: "cache_owned docs (owner(p := k)) sh1"
    using assms(1) heap_ok_new [of sh b] sh1 by (fastforce simp: cache_owned_def nth_append)
  show "heap_evolves docs owner (sh_heap sh) (owner(p := k)) (sh_heap sh1)" "p < length (sh_heap sh1)"
    "sh_st sh1 = sh_st sh" "sh_locations sh1 = sh_locations sh" "sh_mutex sh1 = sh_mutex sh"
    using sh1 by (auto simp: heap_evolves_def nth_append)
  assume b: "sb_LocationIDValid b" "sb_Body b \<in> docs k"
  let ?sh2 = "sh1\<lparr>sh_pushed := AList.update k p (sh_pushed sh1)\<rparr>"
  have "heap_ok sh" using assms(1) by (simp add: cache_owned_def)
  from new_cached(1) [OF this assms(2) refl, of k] have "heap_ok ?sh2" .
  moreover note in_set_update
  moreover have "sh_heap sh1 ! p = b" using sh1 by simp
  ultimately show "cache_owned docs (owner(p := k)) ?sh2"
    using owned b unfolding cache_owned_def by fastforce
qed


text \<open>The documents of the jobs belong under their keys and at their URIs.\<close>

definition jobs_ok ::
    "('s, 'l, 'b) StorageDeps \<Rightarrow> (upsert_job \<Rightarrow> bool) \<Rightarrow> (string \<Rightarrow> bytes set) \<Rightarrow> (string \<Rightarrow> bytes set) \<Rightarrow> bool" where
  "jobs_ok D J docs served \<longleftrightarrow> (\<forall>u. None \<in> served u) \<and> (\<forall>j. J j \<longrightarrow> pb_Body (uj_post j) \<in> docs (uj_key j)
     \<and> (\<forall>k u. rekey (sd_format D) (uj_key j) = Some (k, u) \<longrightarrow> pb_Body (uj_post j) \<in> served u))"

context storage_deps
begin

text \<open>The storage tier has documents only where they belong, and so has the location service.\<close>

definition tiers_ok :: "(string \<Rightarrow> bytes set) \<Rightarrow> (string \<Rightarrow> bytes set) \<Rightarrow> ('s, 'l, 'b) shared \<Rightarrow> bool" where
  "tiers_ok docs served sh \<longleftrightarrow> sinv (sh_st sh) \<and> linv (sh_locations sh)
     \<and> (\<forall>k b. sview (sh_st sh) k = Some b \<longrightarrow> sb_Body b \<in> docs k) \<and> (\<forall>u. lview (sh_locations sh) u \<in> served u)"

lemma tiers_fetch:
  assumes "tiers_ok docs served sh" and "bs_Fetch (sd_st D) k (sh_st sh) = ((sb, e), st)"
  shows "tiers_ok docs served (sh\<lparr>sh_st := st\<rparr>)"
    and "e = None \<Longrightarrow> sb_LocationId sb \<noteq> [] \<Longrightarrow> sb_Body sb \<in> docs k"
proof -
  have inv: "sinv (sh_st sh)" using assms(1) by (simp add: tiers_ok_def)
  from st.fetch_keeps [OF inv assms(2)] assms(1) show "tiers_ok docs served (sh\<lparr>sh_st := st\<rparr>)"
    by (simp add: tiers_ok_def)
  assume "e = None" "sb_LocationId sb \<noteq> []"
  with st.fetch_value [OF inv, of k sb st] assms show "sb_Body sb \<in> docs k"
    by (cases "sview (sh_st sh) k") (auto simp: tiers_ok_def StorageBody_zero_def)
qed

lemma tiers_upsert:
  assumes "tiers_ok docs served sh" and "bs_Upsert (sd_st D) k b (sh_st sh) = (e, st)" and "sb_Body b \<in> docs k"
  shows "tiers_ok docs served (sh\<lparr>sh_st := st\<rparr>)"
  using st.upsert_keeps [OF _ assms(2)] assms(1,3) by (auto simp: tiers_ok_def split: if_splits)

lemma tiers_remove:
  assumes "tiers_ok docs served sh" and "bs_Remove (sd_st D) k (sh_st sh) = (e, st)"
  shows "tiers_ok docs served (sh\<lparr>sh_st := st\<rparr>)"
  using st.remove_keeps [OF _ assms(2)] assms(1) by (auto simp: tiers_ok_def split: if_splits)

lemma tiers_list:
  assumes "tiers_ok docs served sh" and "bs_List (sd_st D) (sh_st sh) = (r, st)"
  shows "tiers_ok docs served (sh\<lparr>sh_st := st\<rparr>)"
  using st.list_keeps [OF _ assms(2)] assms(1) by (auto simp: tiers_ok_def)

lemma tiers_read:
  assumes "tiers_ok docs served sh" and "rq_method c = GET" and "ss_serve D c (server_of sh) = (g, s)"
  shows "tiers_ok docs served (sh\<lparr>sh_st := ss_st s\<rparr>)"
  using assms(2,3) tiers_list [OF assms(1)] tiers_fetch(1) [OF assms(1)] assms(1)
  by (auto simp: ss_serve_def handleCatalogList_def handleCatalogFetch_def Let_def
      split: if_splits prod.splits option.splits)

lemma tiers_push:
  assumes "tiers_ok docs served sh" and "jobs_ok D J docs served" and "J j"
    and "sd_UpsertModel D (uj_key j) (uj_post j) (sh_locations sh) = (r, l)"
  shows "tiers_ok docs served (sh\<lparr>sh_locations := l\<rparr>)"
  using loc.up_keeps [OF _ assms(4)] assms(1-3) by (fastforce simp: tiers_ok_def jobs_ok_def)

lemma tiers_purge:
  assumes "tiers_ok docs served sh" and "jobs_ok D J docs served" and "sd_RemoveModel D k (sh_locations sh) = (r, l)"
  shows "tiers_ok docs served (sh\<lparr>sh_locations := l\<rparr>)"
  using loc.rm_keeps [OF _ assms(3)] assms(1,2) by (fastforce simp: tiers_ok_def jobs_ok_def)

lemma tiers_same: "sh_st sh' = sh_st sh \<Longrightarrow> sh_locations sh' = sh_locations sh \<Longrightarrow>
    tiers_ok docs served sh' = tiers_ok docs served sh"
  by (simp add: tiers_ok_def)

text \<open>What a step leads to: the heap of the others has evolved, and everything is in order again.\<close>

definition leads ::
    "(upsert_job \<Rightarrow> bool) \<Rightarrow> (string \<Rightarrow> bytes set) \<Rightarrow> (string \<Rightarrow> bytes set) \<Rightarrow> (nat \<Rightarrow> string)
      \<Rightarrow> ('s, 'l, 'b) shared \<Rightarrow> handler_pc \<Rightarrow> ('s, 'l, 'b) shared \<Rightarrow> bool" where
  "leads J docs served owner sh pc' sh' \<longleftrightarrow> (\<exists>owner'. heap_evolves docs owner (sh_heap sh) owner' (sh_heap sh')
     \<and> cache_owned docs owner' sh' \<and> tiers_ok docs served sh' \<and> handler_ok J docs owner' (sh_heap sh') pc')"

lemma leads_same:
  "sh_heap sh' = sh_heap sh \<Longrightarrow> cache_owned docs owner sh' \<Longrightarrow> tiers_ok docs served sh' \<Longrightarrow>
   handler_ok J docs owner (sh_heap sh) pc' \<Longrightarrow> leads J docs served owner sh pc' sh'"
  unfolding leads_def by (metis heap_evolves_refl)

lemma leads_new:
  assumes "cache_owned docs owner sh0" and "sh_new b sh0 = (p, sh')" and "sh_heap sh0 = sh_heap sh"
    and "tiers_ok docs served sh0" and "J j"
  shows "leads J docs served owner sh (Read_pushed j p) sh'"
proof -
  note new = new_owned(1,2,7) [OF assms(1,2), where k = "uj_key j"] and new' = new_owned(3-6) [OF assms(1,2)]
  have "tiers_ok docs served sh'" using new'(2,3) assms(4) tiers_same by metis
  with new new' assms(3,5) show ?thesis unfolding leads_def by (intro exI [of _ "owner(p := uj_key j)"]) simp
qed

lemma leads_cached:
  assumes "cache_owned docs owner sh0" and "sh_new b sh0 = (p, sh1)" and "sh_heap sh0 = sh_heap sh"
    and "tiers_ok docs served sh0" and "J j" and "sb_LocationIDValid b" and "sb_Body b \<in> docs (uj_key j)"
  shows "leads J docs served owner sh (Read_pushed j p) (sh1\<lparr>sh_pushed := AList.update (uj_key j) p (sh_pushed sh1)\<rparr>)"
proof -
  note new = new_owned(1,2,7) [OF assms(1,2), where k = "uj_key j"] and new' = new_owned(3-6) [OF assms(1,2)]
  have "tiers_ok docs served (sh1\<lparr>sh_pushed := AList.update (uj_key j) p (sh_pushed sh1)\<rparr>)"
    using new'(2,3) assms(4) by (simp add: tiers_ok_def)
  with new new' assms(3,5-7) show ?thesis unfolding leads_def by (intro exI [of _ "owner(p := uj_key j)"]) simp
qed

lemma leads_write:
  assumes "cache_owned docs owner sh" and "tiers_ok docs served sh" and "p < length (sh_heap sh)"
    and "owner p = k" and "\<And>b. sb_LocationIDValid (f b) = sb_LocationIDValid b"
    and "\<And>b. sb_Body (f b) = sb_Body b \<or> sb_Body (f b) \<in> docs k"
    and "\<And>h. length h = length (sh_heap sh) \<Longrightarrow> sb_Body (h ! p) = sb_Body (f (sh_heap sh ! p)) \<Longrightarrow>
      handler_ok J docs owner h pc'"
  shows "leads J docs served owner sh pc' (sh_write p f sh)"
proof -
  note w = write_owned [OF assms(1,3,4,5,6)]
  have "tiers_ok docs served (sh_write p f sh)" using assms(2) by (simp add: tiers_ok_def)
  with w(1,2) assms(7) [OF w(3,4)] show ?thesis unfolding leads_def by blast
qed

end


context storage_deps
begin

text \<open>The steps in \<^verbatim>\<open>sync\<close>.\<close>

lemma sync_fetch_leads:
  assumes step: "handler_step D (Sync_fetch j) sh = Some (pc', sh')"
    and ok: "cache_owned docs owner sh" "tiers_ok docs served sh" "J j"
  shows "leads J docs served owner sh pc' sh'"
proof -
  obtain ssb e st where f: "bs_Fetch (sd_st D) (uj_key j) (sh_st sh) = ((ssb, e), st)" by (metis prod.collapse)
  note t = tiers_fetch [OF ok(2) f]
  let ?sh0 = "sh\<lparr>sh_st := st, sh_mutex := False\<rparr>"
  have t0: "tiers_ok docs served ?sh0" "cache_owned docs owner ?sh0" using t(1) ok(1) by (simp_all add: tiers_ok_def)
  obtain p sh1 where new: "sh_new ssb ?sh0 = (p, sh1)" by fastforce
  show ?thesis
  proof (cases "e = None \<and> sb_LocationId ssb = []")
    case True
    with step f new have "pc' = Read_pushed j p" "sh' = sh1" by simp_all
    with leads_new [OF t0(2) new _ t0(1), of sh J j] ok(3) show ?thesis by simp
  next
    case False
    with step f t t0 ok show ?thesis by (auto simp: Let_def split: if_splits intro!: leads_same)
  qed
qed

lemma sync_location_leads:
  assumes step: "handler_step D (Sync_location j ssb) sh = Some (pc', sh')"
    and ok: "cache_owned docs owner sh" "tiers_ok docs served sh" "J j" "sb_Body ssb \<in> docs (uj_key j)"
  shows "leads J docs served owner sh pc' sh'"
proof (cases "sh_bkstg sh")
  case None
  with step ok show ?thesis by (auto intro!: leads_same simp: tiers_ok_def)
next
  case (Some w)
  obtain m e b where get: "bi_GetLocation (sd_bkstg D w) (sb_LocationId ssb) (sh_world sh) = ((m, e), b)"
    by (metis prod.collapse)
  show ?thesis
  proof (cases e)
    case None
    let ?sh0 = "sh\<lparr>sh_world := b, sh_mutex := False\<rparr>"
    have t0: "tiers_ok docs served ?sh0" "cache_owned docs owner ?sh0" using ok by (simp_all add: tiers_ok_def)
    obtain p sh1 where new: "sh_new (ssb\<lparr>sb_LocationIDValid := True\<rparr>) ?sh0 = (p, sh1)" by fastforce
    with step Some get None have "pc' = Read_pushed j p" "sh' = sh1\<lparr>sh_pushed := AList.update (uj_key j) p (sh_pushed sh1)\<rparr>"
      by simp_all
    with leads_cached [OF t0(2) new _ t0(1), of sh J j] ok(3,4) show ?thesis by simp
  next
    case (Some x)
    let ?sh' = "sh\<lparr>sh_world := b, sh_pushed := AList.delete (uj_key j) (sh_pushed sh)\<rparr>"
    from \<open>sh_bkstg sh = Some w\<close> Some get step have "pc' = Sync_remove j" "sh' = ?sh'" by auto
    moreover have "cache_owned docs owner ?sh'" using cache_owned_delete [of docs owner "sh\<lparr>sh_world := b\<rparr>"] ok(1) by simp
    ultimately show ?thesis using ok by (auto intro!: leads_same simp: tiers_ok_def)
  qed
qed

lemma sync_remove_leads:
  assumes step: "handler_step D (Sync_remove j) sh = Some (pc', sh')"
    and ok: "cache_owned docs owner sh" "tiers_ok docs served sh" "J j"
  shows "leads J docs served owner sh pc' sh'"
proof -
  obtain e st where r: "bs_Remove (sd_st D) (uj_key j) (sh_st sh) = (e, st)" by fastforce
  let ?sh0 = "sh\<lparr>sh_st := st, sh_mutex := False\<rparr>"
  have t0: "tiers_ok docs served ?sh0" "cache_owned docs owner ?sh0"
    using tiers_remove [OF ok(2) r] ok(1) by (simp_all add: tiers_ok_def)
  obtain p sh1 where new: "sh_new StorageBody_zero ?sh0 = (p, sh1)" by fastforce
  show ?thesis
  proof (cases e)
    case None
    with step r new have "pc' = Read_pushed j p" "sh' = sh1" by simp_all
    with leads_new [OF t0(2) new _ t0(1), of sh J j] ok(3) show ?thesis by simp
  next
    case (Some x)
    with step r t0 show ?thesis by (auto intro!: leads_same)
  qed
qed

lemma sync_lock_leads:
  assumes step: "handler_step D (Sync_lock j) sh = Some (pc', sh')"
    and ok: "cache_owned docs owner sh" "tiers_ok docs served sh" "J j"
  shows "leads J docs served owner sh pc' sh'"
proof -
  have "p < length (sh_heap sh) \<and> owner p = uj_key j" if "map_of (sh_pushed sh) (uj_key j) = Some p" for p
    using ok(1) map_of_SomeD [OF that] by (force simp: cache_owned_def heap_ok_def)
  with step ok show ?thesis by (auto split: if_splits option.splits intro!: leads_same simp: tiers_ok_def)
qed

text \<open>The steps after it.\<close>

lemma upsert_step_leads:
  assumes step: "handler_step D pc sh = Some (pc', sh')"
    and ok: "cache_owned docs owner sh" "tiers_ok docs served sh" "handler_ok J docs owner (sh_heap sh) pc"
    and J: "jobs_ok D J docs served"
    and pc: "pc \<in> {Read_pushed j p, Set_body j p a, Set_type j p a, Store_first j p a, First_call j p a sb, Push j p a,
      Check_location j p errs, Check_call j p errs i, Setup_import j p errs, Import j p errs, Set_location j p errs i t,
      Set_target j p errs t, Store_last j p errs, Last_call j p errs sb}"
  shows "leads J docs served owner sh pc' sh'"
proof -
  have docs: "J j \<Longrightarrow> pb_Body (uj_post j) \<in> docs (uj_key j)" using J by (simp add: jobs_ok_def)
  from pc consider
      (read) "pc \<in> {Read_pushed j p, Store_first j p a, Check_location j p errs, Store_last j p errs}"
    | (body) "pc = Set_body j p a" | (type) "pc = Set_type j p a" | (store) "pc \<in> {First_call j p a sb, Last_call j p errs sb}"
    | (push) "pc = Push j p a" | (check) "pc = Check_call j p errs i" | (setup1) "pc = Setup_import j p errs"
    | (imp) "pc = Import j p errs" | (set) "pc = Set_location j p errs i t" | (target) "pc = Set_target j p errs t" by blast
  then show ?thesis
  proof cases
    case read
    with step ok show ?thesis by (auto intro!: leads_same)
  next
    case target
    with step ok show ?thesis by (auto intro!: leads_write)
  next
    case body
    with step ok docs show ?thesis by (auto intro!: leads_write)
  next
    case type
    with step ok show ?thesis by (auto intro!: leads_write)
  next
    case set
    with step ok show ?thesis by (auto intro!: leads_write)
  next
    case store
    obtain e st where u: "bs_Upsert (sd_st D) (uj_key j) sb (sh_st sh) = (e, st)" by fastforce
    from store ok(3) have "sb_Body sb \<in> docs (uj_key j)" by auto
    note t = tiers_upsert [OF ok(2) u this]
    from store step u t ok show ?thesis by (auto split: option.splits intro!: leads_same)
  next
    case push
    obtain rc e l where u: "sd_UpsertModel D (uj_key j) (uj_post j) (sh_locations sh) = ((rc, e), l)"
      by (metis prod.collapse)
    note t = tiers_push [OF ok(2) J _ u]
    from push step u t ok show ?thesis by (auto simp: Let_def split: option.splits intro!: leads_same)
  next
    case check
    with step ok show ?thesis
      by (auto split: option.splits prod.splits if_splits intro!: leads_same simp: tiers_ok_def)
  next
    case setup1
    obtain av sh1 where s: "shared_setupBkstg D sh = (av, sh1)" by fastforce
    note s1 = setup_shared [OF s]
    have "cache_owned docs owner sh1" using s1(2,5,6) ok(1) by (simp add: cache_owned_def)
    with setup1 step s s1 ok show ?thesis by (auto split: if_splits intro!: leads_same simp: tiers_ok_def)
  next
    case imp
    with step ok show ?thesis
      by (auto split: option.splits prod.splits if_splits intro!: leads_same simp: tiers_ok_def)
  qed
qed

lemma purge_step_leads:
  assumes step: "handler_step D pc sh = Some (pc', sh')"
    and ok: "cache_owned docs owner sh" "tiers_ok docs served sh"
    and J: "jobs_ok D J docs served"
    and pc: "pc \<in> {List_keys K, Purge_next K ks errs, Purge_remove k sb K ks errs, Purge_del k sb K ks errs,
      Purge_setup k sb K ks errs, Purge_location k sb K ks errs, Purge_model k K ks errs}"
  shows "leads J docs served owner sh pc' sh'"
proof -
  from pc consider (ls) "pc = List_keys K" | (nxt) "pc = Purge_next K ks errs" | (rem) "pc = Purge_remove k sb K ks errs"
    | (del) "pc = Purge_del k sb K ks errs" | (setup1) "pc = Purge_setup k sb K ks errs"
    | (loc) "pc = Purge_location k sb K ks errs" | (model) "pc = Purge_model k K ks errs" by blast
  then show ?thesis
  proof cases
    case ls
    with step ok tiers_list [OF ok(2)] show ?thesis by (auto split: option.splits prod.splits intro!: leads_same)
  next
    case nxt
    with step ok tiers_fetch(1) [OF ok(2)] show ?thesis
      by (cases ks) (auto split: prod.splits if_splits intro!: leads_same)
  next
    case rem
    with step ok tiers_remove [OF ok(2)] show ?thesis by (auto split: option.splits prod.splits intro!: leads_same)
  next
    case del
    with step ok cache_owned_delete [OF ok(1)] show ?thesis
      by (auto split: if_splits intro!: leads_same simp: tiers_ok_def)
  next
    case setup1
    obtain av sh1 where s: "shared_setupBkstg D sh = (av, sh1)" by fastforce
    note s1 = setup_shared [OF s]
    have "cache_owned docs owner sh1" using s1(2,5,6) ok(1) by (simp add: cache_owned_def)
    with setup1 step s s1 ok show ?thesis by (auto split: if_splits intro!: leads_same simp: tiers_ok_def)
  next
    case loc
    with step ok show ?thesis by (auto split: option.splits intro!: leads_same simp: tiers_ok_def)
  next
    case model
    with step ok tiers_purge [OF ok(2) J] show ?thesis
      by (auto split: option.splits prod.splits intro!: leads_same)
  qed
qed

lemma handler_step_leads:
  assumes step: "handler_step D pc sh = Some (pc', sh')"
    and ok: "cache_owned docs owner sh" "tiers_ok docs served sh" "handler_ok J docs owner (sh_heap sh) pc"
    and J: "jobs_ok D J docs served"
  shows "leads J docs served owner sh pc' sh'"
proof (cases pc)
  case (Read_store c)
  with step ok tiers_read [OF ok(2)] show ?thesis by (auto split: prod.splits intro!: leads_same)
next
  case (Sync_lock j)
  with sync_lock_leads step ok show ?thesis by auto
next
  case (Sync_fetch j)
  with sync_fetch_leads step ok show ?thesis by auto
next
  case (Sync_location j ssb)
  with sync_location_leads step ok show ?thesis by auto
next
  case (Sync_remove j)
  with sync_remove_leads step ok show ?thesis by auto
qed (use upsert_step_leads [OF step ok J] purge_step_leads [OF step ok(1,2) J] step in auto)

end


text \<open>Everything is in order in all states that interleaved handlers reach.\<close>

context storage_deps
begin

lemma handlers_run_ok:
  assumes "handlers_run D sh0 cs x"
    and start: "cache_owned docs owner0 sh0" "tiers_ok docs served sh0" and J: "jobs_ok D J docs served"
    and "\<And>c j. c \<in> set cs \<Longrightarrow> handler_start D c = Sync_lock j \<Longrightarrow> J j"
  shows "\<exists>owner. cache_owned docs owner (snd x) \<and> tiers_ok docs served (snd x)
    \<and> (\<forall>pc \<in> set (fst x). handler_ok J docs owner (sh_heap (snd x)) pc)"
  using assms(1,5)
proof (induction rule: handlers_run.induct)
  case handlers_start
  with start show ?case by auto
next
  case (handlers_arrive cs pcs sh c)
  then obtain owner where IH: "cache_owned docs owner sh" "tiers_ok docs served sh"
      "\<forall>pc \<in> set pcs. handler_ok J docs owner (sh_heap sh) pc" by auto
  have "J j" if "handler_start D c = Sync_lock j" for j using handlers_arrive.prems [OF _ that] by simp
  then have "handler_ok J docs owner (sh_heap sh) (handler_start D c)"
    by (auto simp: handler_start_def upsert_start_def Let_def
        split: http_method.splits prod.splits option.splits if_splits)
  with IH show ?case by auto
next
  case (handlers_next cs x y)
  from handlers_next.hyps(2) show ?case
  proof cases
    case (handler_steps i pcs sh pc sh')
    have "\<exists>owner. cache_owned docs owner (snd x) \<and> tiers_ok docs served (snd x)
        \<and> (\<forall>pc \<in> set (fst x). handler_ok J docs owner (sh_heap (snd x)) pc)"
      by (rule handlers_next.IH) (rule handlers_next.prems)
    with handler_steps(1) obtain owner where IH: "cache_owned docs owner sh"
        "tiers_ok docs served sh" "\<forall>pc \<in> set pcs. handler_ok J docs owner (sh_heap sh) pc" by auto
    with handler_steps(3) have "handler_ok J docs owner (sh_heap sh) (pcs ! i)" by simp
    from handler_step_leads [OF handler_steps(4) IH(1,2) this J] obtain owner' where
      new: "heap_evolves docs owner (sh_heap sh) owner' (sh_heap sh')" "cache_owned docs owner' sh'"
        "tiers_ok docs served sh'" "handler_ok J docs owner' (sh_heap sh') pc"
      by (auto simp: leads_def)
    have "handler_ok J docs owner' (sh_heap sh') q" if "q \<in> set (pcs[i := pc])" for q
      using set_update_subset_insert [of pcs i pc] that new(4) IH(3) handler_ok_evolves [OF _ new(1)] by auto
    with new handler_steps(2) show ?thesis by auto
  qed
qed

end

text \<open>The posted documents of a list of requests.\<close>

definition posted_doc ::
    "('s, 'l, 'b) StorageDeps \<Rightarrow> http_request list \<Rightarrow> (upsert_job \<Rightarrow> string) \<Rightarrow> string \<Rightarrow> bytes \<Rightarrow> bool" where
  "posted_doc D cs place x d \<longleftrightarrow>
     (\<exists>c \<in> set cs. \<exists>j. handler_start D c = Sync_lock j \<and> place j = x \<and> pb_Body (uj_post j) = d)"

lemma handler_start_job:
  "handler_start D c = Sync_lock j \<Longrightarrow> rekey (sd_format D) (uj_key j) = Some (uj_key j, uj_uri j)"
  by (auto simp: handler_start_def upsert_start_def Let_def
      split: http_method.splits prod.splits option.splits if_splits dest: rekey_rekey)

lemma services_ok_server_of:
  assumes "cache_owned docs owner sh" and "cms_ok (sh_st sh)" and "net_inv h nf (sh_locations sh)"
  shows "services_ok h nf (server_of sh)"
  using assms
  by (auto simp: services_ok_def cache_ok_def cache_owned_def heap_ok_def map_ran_conv dest: map_of_SomeD)

text \<open>The invariant of interleaved handlers, from the laws of the tiers.\<close>

lemma interleaved_handlers_keep:
  assumes "services_ok h nf s0" and "D = StorageService h t env bt nf push"
    and "handlers_run D (new_shared s0) cs (pcs, sh)"
  shows "services_ok h nf (server_of sh) \<and> length (filter holds_mutex pcs) \<le> 1
    \<and> (\<forall>k b. cms_view (sh_st sh) k = Some b \<longrightarrow> (\<exists>b0. cms_view (ss_st s0) k = Some b0 \<and> sb_Body b0 = sb_Body b)
         \<or> posted_doc D cs uj_key k (sb_Body b))
    \<and> (\<forall>u d. net_view (sh_locations sh) u = Some d \<longrightarrow> net_view (ss_locations s0) u = Some d
         \<or> posted_doc D cs uj_uri u (Some d))"
proof -
  let ?J = "\<lambda>j. \<exists>c \<in> set cs. handler_start D c = Sync_lock j"
  let ?docs = "\<lambda>k. {d. (\<exists>b0. cms_view (ss_st s0) k = Some b0 \<and> sb_Body b0 = d) \<or> posted_doc D cs uj_key k d}"
  let ?served = "\<lambda>u. {d. d = None \<or> net_view (ss_locations s0) u = d \<or> posted_doc D cs uj_uri u d}"
  have "cache_owned ?docs (\<lambda>_. []) (new_shared s0)" by (simp add: cache_owned_def heap_ok_def new_shared_def)
  moreover have "svc.tiers_ok h nf ?docs ?served (new_shared s0)"
    using assms(1) by (auto simp: svc.tiers_ok_def services_ok_def new_shared_def)
  moreover have "jobs_ok D ?J ?docs ?served"
    using handler_start_job [of D] unfolding assms(2) by (fastforce simp: jobs_ok_def posted_doc_def)
  ultimately obtain owner where ok: "cache_owned ?docs owner sh" "svc.tiers_ok h nf ?docs ?served sh"
    using assms(2) svc.handlers_run_ok [OF assms(3) [unfolded assms(2)], of ?docs "\<lambda>_. []" ?served ?J] by auto
  have "services_ok h nf (server_of sh)"
    using services_ok_server_of [OF ok(1)] ok(2) by (simp add: svc.tiers_ok_def)
  moreover have "length (filter holds_mutex pcs) \<le> 1"
    using handlers_run_mutex [OF assms(3)] by (simp add: new_shared_def mutex_owned_def)
  moreover have "sb_Body b \<in> ?docs k" if "cms_view (sh_st sh) k = Some b" for k b
    using ok(2) that unfolding svc.tiers_ok_def by blast
  moreover have "net_view (ss_locations s0) u = Some d \<or> posted_doc D cs uj_uri u (Some d)"
    if "net_view (sh_locations sh) u = Some d" for u d
  proof -
    have "net_view (sh_locations sh) u \<in> ?served u" using ok(2) unfolding svc.tiers_ok_def by blast
    with that show ?thesis by simp
  qed
  ultimately show ?thesis by (intro conjI allI impI) (auto simp del: map_of_eq_Some_iff)
qed

section \<open>Properties\<close>

text \<open>
  C16. A handler that is not disturbed, call by call and with pointers into a heap, does what the
  handler does in one go: it comes to the same answer and leaves the same service, with the mutex free.
\<close>

theorem undisturbed_handler_is_atomic:
  assumes "heap_ok sh" and "\<not> sh_mutex sh" and "ss_serve D c (server_of sh) = (g, s')"
  shows "\<exists>sh'. alone D (handler_start D c) sh g sh' \<and> server_of sh' = s' \<and> heap_ok sh' \<and> \<not> sh_mutex sh'"
  using reaches_serve [OF assms(1,2), of D c] assms(3) by (simp add: reaches_def)

text \<open>
  C7. However the handlers of any requests interleave, call by call: the services stay up, at most one
  handler holds the mutex, every stored body has a document that was under its key at the start or was
  posted for this key, and every document served was served there at the start or was posted for this URI.
\<close>

theorem interleaved_handlers_keep_services:
  assumes "services_ok h nf s0" and "D = StorageService h t env bt nf push"
    and "handlers_run D (new_shared s0) cs (pcs, sh)"
  shows "services_ok h nf (server_of sh) \<and> length (filter holds_mutex pcs) \<le> 1
    \<and> (\<forall>k b. cms_view (sh_st sh) k = Some b \<longrightarrow> (\<exists>b0. cms_view (ss_st s0) k = Some b0 \<and> sb_Body b0 = sb_Body b)
         \<or> posted_doc D cs uj_key k (sb_Body b))
    \<and> (\<forall>u d. net_view (sh_locations sh) u = Some d \<longrightarrow> net_view (ss_locations s0) u = Some d
         \<or> posted_doc D cs uj_uri u (Some d))"
  using assms by (rule interleaved_handlers_keep)

text \<open>
  C26. Every request is answered: a handler can take a step as long as not all have answered, no run
  without new requests goes on for ever, and so from every state the handlers reach a state in which all
  have answered.
\<close>

theorem every_request_is_answered:
  assumes "handlers_run D (new_shared s0) cs (pcs, sh)"
  shows "wf {(y, x). handlers_step D x y}
    \<and> ((\<forall>y. \<not> handlers_step D (pcs, sh) y) = (\<forall>pc \<in> set pcs. \<exists>g. pc = Answered g))
    \<and> (\<exists>gs sh'. (handlers_step D)\<^sup>*\<^sup>* (pcs, sh) (map Answered gs, sh'))"
proof (intro conjI)
  have halt: "(\<forall>y. \<not> handlers_step D (pcs, sh) y) = (\<forall>pc \<in> set pcs. \<exists>g. pc = Answered g)"
    if "handlers_run D (new_shared s0) cs (pcs, sh)" for pcs sh
  proof -
    have "mutex_owned pcs sh" using handlers_run_mutex [OF that] by (simp add: new_shared_def)
    from handlers_step_exists [OF this] have "(\<forall>y. \<not> handlers_step D (pcs, sh) y) \<Longrightarrow> \<forall>pc \<in> set pcs. \<exists>g. pc = Answered g"
      by metis
    moreover have "\<not> handlers_step D (pcs, sh) y" if "\<forall>pc \<in> set pcs. \<exists>g. pc = Answered g" for y
    proof
      assume "handlers_step D (pcs, sh) y"
      then obtain i x where "i < length pcs" "handler_step D (pcs ! i) sh = Some x" by (auto elim: handlers_stepE)
      moreover from this that obtain g where "pcs ! i = Answered g" by (metis nth_mem)
      ultimately show False by simp
    qed
    ultimately show ?thesis by blast
  qed
  then show "(\<forall>y. \<not> handlers_step D (pcs, sh) y) = (\<forall>pc \<in> set pcs. \<exists>g. pc = Answered g)" using assms by blast
  show "\<exists>gs sh'. (handlers_step D)\<^sup>*\<^sup>* (pcs, sh) (map Answered gs, sh')"
    using assms
  proof (induction "(pcs, sh)" arbitrary: pcs sh rule: wf_induct_rule [OF handlers_step_wf [of D]])
    case 1
    show ?case
    proof (cases "\<exists>y. handlers_step D (pcs, sh) y")
      case True
      then obtain pcs1 sh1 where step: "handlers_step D (pcs, sh) (pcs1, sh1)" by auto
      from 1(1) [of pcs1 sh1] step handlers_next [OF 1(2) step] show ?thesis
        by (auto intro: converse_rtranclp_into_rtranclp)
    next
      case False
      with halt [OF 1(2)] have "\<forall>pc \<in> set pcs. \<exists>g. pc = Answered g" by blast
      then have "pcs = map Answered (map (\<lambda>pc. case pc of Answered g \<Rightarrow> g) pcs)"
        by (intro nth_equalityI) (auto dest!: nth_mem)
      then show ?thesis by (metis rtranclp.rtrancl_refl)
    qed
  qed
qed (rule handlers_step_wf)


section \<open>Two requests that interleave\<close>

text \<open>A given schedule: the numbers of the handlers in the order they step.\<close>

fun handlers_scheduled ::
    "('s, 'l, 'b) StorageDeps \<Rightarrow> nat list \<Rightarrow> handler_pc list \<times> ('s, 'l, 'b) shared
      \<Rightarrow> (handler_pc list \<times> ('s, 'l, 'b) shared) option" where
  "handlers_scheduled D [] x = Some x"
| "handlers_scheduled D (i # ns) (pcs, sh) =
     (if i < length pcs
      then (case handler_step D (pcs ! i) sh of
              None \<Rightarrow> None
            | Some (pc, sh') \<Rightarrow> handlers_scheduled D ns (pcs[i := pc], sh'))
      else None)"

lemma handlers_scheduled_run:
  "handlers_scheduled D ns x = Some y \<Longrightarrow> handlers_run D sh0 cs x \<Longrightarrow> handlers_run D sh0 cs y"
proof (induction ns arbitrary: x)
  case (Cons i ns)
  obtain pcs sh where x: "x = (pcs, sh)" by fastforce
  with Cons.prems(1) obtain pc sh' where step: "i < length pcs" "handler_step D (pcs ! i) sh = Some (pc, sh')"
      "handlers_scheduled D ns (pcs[i := pc], sh') = Some y"
    by (auto split: if_splits option.splits)
  from Cons.IH [OF step(3) handlers_next [OF Cons.prems(2) [unfolded x] handler_steps [OF step(1,2)]]] show ?case .
qed simp

lemma handlers_run_two: "handlers_run D sh0 [c1, c2] ([handler_start D c1, handler_start D c2], sh0)"
  using handlers_arrive [OF handlers_arrive [OF handlers_start, of D sh0 c1], of c2] by simp

text \<open>The service of the examples without the import into Backstage.\<close>

definition quiet_service :: "(mem_world ConfigMapBridgeStorage, location_net, nat) StorageDeps" where
  "quiet_service = StorageService example_host '''' example_env '''' JsonArrayForamt False"

definition quiet_post :: http_request where
  "quiet_post = example_storage_post ''mnist_v1'' ''a''"

text \<open>
  The post has stored the document; the key set, without the key, removes it from the store; the post makes
  the location service serve it; the key set has it removed there; the post stores it again.
\<close>

definition quiet_race :: "(handler_pc list \<times> (mem_world ConfigMapBridgeStorage, location_net, nat) shared) option" where
  "quiet_race = handlers_scheduled quiet_service
     ([0, 0, 0, 0, 0, 0, 0] @ [1, 1, 1, 1, 1] @ [0] @ [1, 1] @ [0, 0, 0])
     ([handler_start quiet_service quiet_post, handler_start quiet_service (example_keyset '''')],
      new_shared (example_server []))"

lemma quiet_race_result:
  "map_option (\<lambda>(pcs, sh). (map (\<lambda>pc. case pc of Answered g \<Rightarrow> gr_status g | _ \<Rightarrow> 0) pcs,
     cms_view (sh_st sh) ''mnist_v1'' \<noteq> None, net_view (sh_locations sh) ''/mnist/v1/model-catalog.json''))
     quiet_race = Some ([201, 200], True, None)"
  by code_simp


lemma quiet_race_run:
  "\<exists>g0 g1 sh. quiet_race = Some ([Answered g0, Answered g1], sh)
    \<and> handlers_run quiet_service (new_shared (example_server [])) [quiet_post, example_keyset '''']
        ([Answered g0, Answered g1], sh)
    \<and> gr_status g0 = StatusCreated \<and> gr_status g1 = StatusOK
    \<and> cms_view (sh_st sh) ''mnist_v1'' \<noteq> None \<and> net_view (sh_locations sh) ''/mnist/v1/model-catalog.json'' = None"
proof -
  from quiet_race_result obtain pcs sh where race: "quiet_race = Some (pcs, sh)"
    and st: "map (\<lambda>pc. case pc of Answered g \<Rightarrow> gr_status g | _ \<Rightarrow> 0) pcs = [201, 200]"
      "cms_view (sh_st sh) ''mnist_v1'' \<noteq> None" "net_view (sh_locations sh) ''/mnist/v1/model-catalog.json'' = None"
    by auto
  from st(1) obtain pc0 pc1 where pcs: "pcs = [pc0, pc1]" by (auto simp: map_eq_Cons_conv)
  with st(1) obtain g0 g1 where g: "pc0 = Answered g0" "pc1 = Answered g1" "gr_status g0 = 201" "gr_status g1 = 200"
    by (cases pc0; cases pc1) auto
  from handlers_scheduled_run [OF race [unfolded quiet_race_def] handlers_run_two] race pcs g st(2,3) show ?thesis
    by (auto simp: status_defs)
qed

text \<open>
  C28. The handlers are not atomic: a post and a key set that interleave are answered with 201 and 200
  and leave a model that is stored and not served.  In one go, in either order, they leave it stored and
  served or neither.
\<close>

theorem handlers_are_not_atomic:
  "(\<exists>g0 g1 sh. handlers_run quiet_service (new_shared (example_server [])) [quiet_post, example_keyset '''']
        ([Answered g0, Answered g1], sh)
     \<and> gr_status g0 = StatusCreated \<and> gr_status g1 = StatusOK
     \<and> cms_view (sh_st sh) ''mnist_v1'' \<noteq> None \<and> net_view (sh_locations sh) ''/mnist/v1/model-catalog.json'' = None)
   \<and> (let s = snd (ss_serve quiet_service (example_keyset '''') (snd (ss_serve quiet_service quiet_post (example_server []))))
      in cms_view (ss_st s) ''mnist_v1'' = None \<and> net_view (ss_locations s) ''/mnist/v1/model-catalog.json'' = None)
   \<and> (let s = snd (ss_serve quiet_service quiet_post (snd (ss_serve quiet_service (example_keyset '''') (example_server []))))
      in cms_view (ss_st s) ''mnist_v1'' \<noteq> None \<and> net_view (ss_locations s) ''/mnist/v1/model-catalog.json'' \<noteq> None)"
proof (intro conjI)
  show "\<exists>g0 g1 sh. handlers_run quiet_service (new_shared (example_server [])) [quiet_post, example_keyset '''']
        ([Answered g0, Answered g1], sh)
     \<and> gr_status g0 = StatusCreated \<and> gr_status g1 = StatusOK
     \<and> cms_view (sh_st sh) ''mnist_v1'' \<noteq> None \<and> net_view (sh_locations sh) ''/mnist/v1/model-catalog.json'' = None"
    using quiet_race_run by blast
  show "let s = snd (ss_serve quiet_service (example_keyset '''') (snd (ss_serve quiet_service quiet_post (example_server []))))
      in cms_view (ss_st s) ''mnist_v1'' = None \<and> net_view (ss_locations s) ''/mnist/v1/model-catalog.json'' = None"
    by code_simp
  show "let s = snd (ss_serve quiet_service quiet_post (snd (ss_serve quiet_service (example_keyset '''') (example_server []))))
      in cms_view (ss_st s) ''mnist_v1'' \<noteq> None \<and> net_view (ss_locations s) ''/mnist/v1/model-catalog.json'' \<noteq> None"
    by code_simp
qed

section \<open>The properties at a concrete input\<close>

lemma new_shared_ok [simp]: "heap_ok (new_shared s)" "\<not> sh_mutex (new_shared s)"
  by (simp_all add: new_shared_def heap_ok_def)

theorem undisturbed_handler_is_atomic_witness:
  "\<exists>g sh'. ss_serve quiet_service quiet_post (server_of (new_shared (example_server []))) = (g, server_of sh')
     \<and> gr_status g = StatusCreated \<and> alone quiet_service (handler_start quiet_service quiet_post) (new_shared (example_server [])) g sh'"
proof -
  let ?r = "ss_serve quiet_service quiet_post (server_of (new_shared (example_server [])))"
  have "gr_status (fst ?r) = StatusCreated" by code_simp
  then obtain g s' where r: "?r = (g, s')" "gr_status g = StatusCreated" by (metis prod.collapse)
  from undisturbed_handler_is_atomic [OF new_shared_ok r(1)] r show ?thesis by blast
qed

theorem interleaved_handlers_keep_services_witness:
  "\<exists>pcs sh b. quiet_race = Some (pcs, sh) \<and> services_ok example_host JsonArrayForamt (server_of sh)
     \<and> cms_view (sh_st sh) ''mnist_v1'' = Some b
     \<and> ((\<exists>b0. cms_view (ss_st (example_server [])) ''mnist_v1'' = Some b0 \<and> sb_Body b0 = sb_Body b)
        \<or> posted_doc quiet_service [quiet_post, example_keyset ''''] uj_key ''mnist_v1'' (sb_Body b))"
proof -
  from quiet_race_run obtain g0 g1 sh where race: "quiet_race = Some ([Answered g0, Answered g1], sh)"
    and run: "handlers_run quiet_service (new_shared (example_server [])) [quiet_post, example_keyset '''']
        ([Answered g0, Answered g1], sh)" and stored: "cms_view (sh_st sh) ''mnist_v1'' \<noteq> None" by blast
  from interleaved_handlers_keep_services [OF services_ok_example quiet_service_def run] race stored
  show ?thesis by blast
qed

theorem every_request_is_answered_witness:
  "\<exists>gs sh'. (handlers_step quiet_service)\<^sup>*\<^sup>*
     ([handler_start quiet_service quiet_post, handler_start quiet_service (example_keyset '''')], new_shared (example_server []))
     (map Answered gs, sh')"
  using every_request_is_answered [OF handlers_run_two] by blast

end
