(* ===== verification/Recovery.thy ===== *)
theory Recovery
  imports Repair Handlers
begin

text \<open>
  The handlers of the storage service, when they interleave, can leave a model stored that is not
  served.  Here the two views of the service meet: whatever handlers that ran at once
  have left behind, requests that are accepted one at a time afterwards put the keys they post right.
\<close>

section \<open>The keys that interleaved handlers store\<close>

lemma posted_key_plain:
  assumes "handler_start D c = Sync_lock j" and "slashless_post c"
  shows "plain_key (sd_format D) (uj_key j)"
proof -
  from assms(1) obtain uri where "rekey (sd_format D) (gin_Query c KeyQueryParam) = Some (uj_key j, uri)" and "is_upsert c"
    by (auto simp: handler_start_def upsert_start_def Let_def is_upsert_def
        split: http_method.splits prod.splits option.splits if_splits)
  with assms(2) show ?thesis by (auto simp: slashless_post_def intro: rekey_plain)
qed

lemma interleaved_handlers_plain:
  assumes "services_ok h nf s0" and "plain_store nf s0" and "D = StorageService h t env bt nf push"
    and "handlers_run D (new_shared s0) cs (pcs, sh)" and "list_all slashless_post cs"
  shows "services_ok h nf (server_of sh) \<and> plain_store nf (server_of sh)"
proof -
  note keep = interleaved_handlers_keep [OF assms(1,3,4)]
  have "plain_key nf k" if "cms_view (sh_st sh) k = Some b" for k b
  proof (cases "cms_view (ss_st s0) k")
    case None
    with keep that have "posted_doc D cs uj_key k (sb_Body b)" by fastforce
    then obtain c j where "c \<in> set cs" "handler_start D c = Sync_lock j" "uj_key j = k" by (auto simp: posted_doc_def)
    with posted_key_plain [of D c j] assms(3,5) show ?thesis by (auto simp: list_all_iff)
  next
    case (Some b0)
    with assms(2) show ?thesis by (auto simp: plain_store_def stored_docs_def)
  qed
  with keep show ?thesis by (auto simp: plain_store_def stored_docs_def server_of_def)
qed

section \<open>Properties\<close>

text \<open>
  C25. However the handlers of any requests have interleaved before, requests that the storage service
  then serves one after the other and answers with 200 or 201 refine an abstract map from keys to
  documents: a post under an import key without a slash sets the key that it means, a key set restricts
  the map to the posted keys, every other request changes nothing.  Each key that is posted, like each
  that was in step before, is in step at the end: served with the very document that is stored, or no
  longer stored.
\<close>

theorem accepted_requests_repair_races:
  assumes "services_ok h nf s0" and "plain_store nf s0" and "D = StorageService h t env bt nf push"
    and "handlers_run D (new_shared s0) cs0 (map Answered gs0, sh)" and "list_all slashless_post cs0"
    and "serve_all D cs (server_of sh) = (gs, s')" and "list_all success gs" and "list_all slashless_post cs"
  shows "services_ok h nf s' \<and> plain_store nf s'
    \<and> stored_docs s' = fold (request_spec nf) cs (stored_docs (server_of sh))
    \<and> (\<forall>k. in_step nf (server_of sh) k \<or> reported nf cs k \<longrightarrow> in_step nf s' k)"
  using accepted_requests_refine_map [OF _ _ assms(6) [unfolded assms(3)] assms(7,8)]
    interleaved_handlers_plain [OF assms(1-5)] by blast

section \<open>The property at a concrete input\<close>

text \<open>After the race of \<open>Handlers\<close> the model is stored and not served; the next post of it repairs that.\<close>

theorem accepted_requests_repair_races_witness:
  "\<exists>gs0 sh s'. quiet_race = Some (map Answered gs0, sh)
     \<and> \<not> in_step JsonArrayForamt (server_of sh) ''mnist_v1''
     \<and> serve_all quiet_service [quiet_post] (server_of sh) = ([gin_status StatusCreated], s')
     \<and> in_step JsonArrayForamt s' ''mnist_v1''"
proof -
  from quiet_race_run obtain g0 g1 sh where race: "quiet_race = Some (map Answered [g0, g1], sh)"
    and run: "handlers_run quiet_service (new_shared (example_server [])) [quiet_post, example_keyset '''']
        (map Answered [g0, g1], sh)" by auto
  have "map_option (\<lambda>(_, sh). (in_step JsonArrayForamt (server_of sh) ''mnist_v1'',
      fst (serve_all quiet_service [quiet_post] (server_of sh)))) quiet_race = Some (False, [gin_status StatusCreated])"
    by code_simp
  then have before: "\<not> in_step JsonArrayForamt (server_of sh) ''mnist_v1''"
    and gs: "fst (serve_all quiet_service [quiet_post] (server_of sh)) = [gin_status StatusCreated]" by (simp_all add: race)
  obtain s' where served: "serve_all quiet_service [quiet_post] (server_of sh) = ([gin_status StatusCreated], s')"
    using gs by (metis prod.collapse)
  have "cms_view (ss_st (example_server [])) k = None" for k by code_simp
  then have plain: "plain_store JsonArrayForamt (example_server [])" by (auto simp: plain_store_def stored_docs_def)
  have cs0: "list_all slashless_post [quiet_post, example_keyset '''']" by code_simp
  have cs: "list_all slashless_post [quiet_post]" by code_simp
  have ok: "list_all success [gin_status StatusCreated]" by (simp add: success_def gin_defs)
  have rep: "reported JsonArrayForamt [quiet_post] ''mnist_v1''" by code_simp
  from accepted_requests_repair_races [OF services_ok_example plain quiet_service_def run cs0 served ok cs] rep
  have "in_step JsonArrayForamt s' ''mnist_v1''" by blast
  with race before served show ?thesis by blast
qed

end
