(* ===== verification/ConfigMapRaces.thy ===== *)
theory ConfigMapRaces
  imports ConfigMapStore
begin

text \<open>
  The storage tier \<^verbatim>\<open>configmap/storage.go\<close> called from several goroutines, as the handlers of the
  storage service do.  \<open>Upsert\<close> holds a mutex while it polls, \<open>Remove\<close> takes none, and both read the
  ConfigMap and write it back in two calls.  A step of a goroutine here is one call of the
  Kubernetes client, or the part of \<open>Upsert\<close> before its poll; between two steps any other goroutine may
  run.  What keeps the writes from being lost is the resource version of the object, which an
  update must match.
\<close>

section \<open>The code, one call at a time\<close>

datatype store_op = Upsert_op string StorageBody | Remove_op string

text \<open>
  Where a goroutine is: before its operation; in the poll of \<open>Upsert\<close>, before \<open>Get\<close>, with the tries left
  after this one; between \<open>Get\<close> and \<open>Update\<close>, with the object to be written; or back.
\<close>

datatype store_pc =
    Waiting store_op
  | Polling string StorageBody nat
  | Writing store_op nat configmap
  | Returned store_op go_error

text \<open>A try of the poll that has failed.\<close>

definition poll_again ::
    "string \<Rightarrow> StorageBody \<Rightarrow> nat \<Rightarrow> 'w ConfigMapBridgeStorage \<Rightarrow> nat option
      \<Rightarrow> store_pc \<times> 'w ConfigMapBridgeStorage \<times> nat option" where
  "poll_again k v n c m =
     (case n of
        0 \<Rightarrow> (Returned (Upsert_op k v) (Some ''timed out waiting for the condition''), c, None)
      | Suc n \<Rightarrow> (Polling k v n, c, m))"

text \<open>The two calls of \<open>Remove\<close>, which takes no mutex and does not try again.\<close>

definition remove_get :: "string \<Rightarrow> 'w ConfigMapBridgeStorage \<Rightarrow> store_pc \<times> 'w ConfigMapBridgeStorage" where
  "remove_get k c =
     (case k8s_Get (cms_cl c) (cms_ns c) StorageConfigMapName (cms_world c) of
        (Inl e, w) \<Rightarrow> (Returned (Remove_op k) (Some (k8s_err e)), c\<lparr>cms_world := w\<rparr>)
      | (Inr cm, w) \<Rightarrow>
          (case cm_BinaryData cm of
             None \<Rightarrow> (Returned (Remove_op k) None, c\<lparr>cms_world := w\<rparr>)
           | Some data \<Rightarrow>
               (Writing (Remove_op k) 0 (cm\<lparr>cm_BinaryData := Some (AList.delete k data)\<rparr>), c\<lparr>cms_world := w\<rparr>)))"

definition remove_update ::
    "string \<Rightarrow> configmap \<Rightarrow> 'w ConfigMapBridgeStorage \<Rightarrow> store_pc \<times> 'w ConfigMapBridgeStorage" where
  "remove_update k cm c =
     (case k8s_Update (cms_cl c) (cms_ns c) cm (cms_world c) of
        (Inl e, w) \<Rightarrow> (Returned (Remove_op k) (Some (k8s_err e)), c\<lparr>cms_world := w\<rparr>)
      | (Inr _, w) \<Rightarrow> (Returned (Remove_op k) None, c\<lparr>cms_world := w\<rparr>))"

declare remove_get_def [simp] remove_update_def [simp]

text \<open>
  The next step of goroutine \<open>t\<close>; \<^const>\<open>None\<close> if there is none, because it waits for the mutex or is back.
  The mutex is the goroutine that holds it.
\<close>

fun thread_step ::
    "nat \<Rightarrow> store_pc \<Rightarrow> 'w ConfigMapBridgeStorage \<Rightarrow> nat option
      \<Rightarrow> (store_pc \<times> 'w ConfigMapBridgeStorage \<times> nat option) option" where
  "thread_step t (Waiting (Upsert_op k value)) c m =
     (if m \<noteq> None then None
      else (let v = (case map_of (cms_versionMap c) k of None \<Rightarrow> '''' | Some v \<Rightarrow> v);
                c = (if map_of (cms_versionMap c) k = None
                     then c\<lparr>cms_versionMap := AList.update k v (cms_versionMap c)\<rparr> else c)
            in if sb_LastUpdateTimeSinceEpoch value \<ge> v
               then (let c = c\<lparr>cms_versionMap := AList.update k v (cms_versionMap c)\<rparr>
                     in Some (Polling k value (k8s_ticks (cms_cl c) (cms_world c)), c, Some t))
               else Some (Returned (Upsert_op k value) None, c, None)))"
| "thread_step t (Polling k value n) c m =
     (case k8s_Get (cms_cl c) (cms_ns c) StorageConfigMapName (cms_world c) of
        (Inl _, w) \<Rightarrow> Some (poll_again k value n (c\<lparr>cms_world := w\<rparr>) m)
      | (Inr cm, w) \<Rightarrow>
          (let data = (case cm_BinaryData cm of None \<Rightarrow> [] | Some d \<Rightarrow> d);
               buf = Some (marshal_StorageBody value)
           in Some (Writing (Upsert_op k value) n (cm\<lparr>cm_BinaryData := Some (AList.update k buf data)\<rparr>),
                    c\<lparr>cms_world := w\<rparr>, m)))"
| "thread_step t (Writing (Upsert_op k value) n cm) c m =
     (case k8s_Update (cms_cl c) (cms_ns c) cm (cms_world c) of
        (Inl _, w) \<Rightarrow> Some (poll_again k value n (c\<lparr>cms_world := w\<rparr>) m)
      | (Inr _, w) \<Rightarrow> Some (Returned (Upsert_op k value) None, c\<lparr>cms_world := w\<rparr>, None))"
| "thread_step t (Waiting (Remove_op k)) c m = Some (case remove_get k c of (pc, c) \<Rightarrow> (pc, c, m))"
| "thread_step t (Writing (Remove_op k) n cm) c m = Some (case remove_update k cm c of (pc, c) \<Rightarrow> (pc, c, m))"
| "thread_step t (Returned p e) c m = None"

section \<open>One goroutine alone\<close>

text \<open>Up to \<open>n\<close> steps of one goroutine.\<close>

fun thread_run ::
    "nat \<Rightarrow> nat \<Rightarrow> store_pc \<times> 'w ConfigMapBridgeStorage \<times> nat option
      \<Rightarrow> store_pc \<times> 'w ConfigMapBridgeStorage \<times> nat option" where
  "thread_run 0 t x = x"
| "thread_run (Suc n) t x =
     (case x of (pc, c, m) \<Rightarrow>
        (case thread_step t pc c m of None \<Rightarrow> x | Some y \<Rightarrow> thread_run n t y))"

lemma thread_run_Returned [simp]: "thread_run n t (Returned p e, c, m) = (Returned p e, c, m)"
  by (cases n) simp_all

lemma thread_run_poll:
  "poll_immediate n (cms_upsert_attempt (cms_cl c) (cms_ns c) k v) (cms_world c) = (e, w) \<Longrightarrow> 2 * n + 2 \<le> fuel \<Longrightarrow>
   thread_run fuel t (Polling k v n, c, m) = (Returned (Upsert_op k v) e, c\<lparr>cms_world := w\<rparr>, None)"
proof (induction n arbitrary: c fuel)
  case 0
  then obtain f where fuel: "fuel = Suc (Suc f)" by (metis add_2_eq_Suc' le_Suc_ex add_Suc mult_0_right plus_nat.add_0)
  from 0 show ?case
    by (subst (asm) poll_immediate.simps)
      (auto simp: fuel cms_upsert_attempt_def Let_def poll_again_def split: prod.splits sum.splits)
next
  case (Suc n)
  then obtain f where fuel: "fuel = Suc (Suc f)" "2 * n + 2 \<le> f" by (cases fuel; cases "fuel - 1") auto
  obtain b w1 where att: "cms_upsert_attempt (cms_cl c) (cms_ns c) k v (cms_world c) = (b, w1)" by fastforce
  show ?case
  proof (cases b)
    case True
    with att Suc.prems(1) have "e = None" "w = w1" by (subst (asm) poll_immediate.simps, simp)+
    with att True show ?thesis
      by (auto simp: fuel(1) cms_upsert_attempt_def Let_def poll_again_def split: prod.splits sum.splits)
  next
    case False
    with att Suc.prems(1) have "poll_immediate n (cms_upsert_attempt (cms_cl c) (cms_ns c) k v) w1 = (e, w)"
      by (subst (asm) poll_immediate.simps) simp
    with Suc.IH [of "c\<lparr>cms_world := w1\<rparr>"] fuel(2)
    have rest: "thread_run f t (Polling k v n, c\<lparr>cms_world := w1\<rparr>, m) = (Returned (Upsert_op k v) e, c\<lparr>cms_world := w\<rparr>, None)"
      "thread_run (Suc f) t (Polling k v n, c\<lparr>cms_world := w1\<rparr>, m) = (Returned (Upsert_op k v) e, c\<lparr>cms_world := w\<rparr>, None)"
      by (simp_all del: thread_run.simps)
    obtain r w0 where get: "k8s_Get (cms_cl c) (cms_ns c) StorageConfigMapName (cms_world c) = (r, w0)" by fastforce
    show ?thesis
    proof (cases r)
      case (Inl err)
      with get att have "w1 = w0" by (simp add: cms_upsert_attempt_def)
      with get Inl rest(2) show ?thesis
        by (subst fuel(1), subst thread_run.simps) (simp add: poll_again_def del: thread_run.simps)
    next
      case (Inr cm)
      with get att False rest(1) show ?thesis
        by (auto simp: fuel(1) cms_upsert_attempt_def Let_def poll_again_def split: prod.splits sum.splits)
    qed
  qed
qed


definition operation :: "store_op \<Rightarrow> 'w ConfigMapBridgeStorage \<Rightarrow> go_error \<times> 'w ConfigMapBridgeStorage" where
  "operation p = (case p of Upsert_op k v \<Rightarrow> cms_Upsert k v | Remove_op k \<Rightarrow> cms_Remove k)"

text \<open>A goroutine that is not disturbed does what the operation does in one go.\<close>

lemma thread_run_operation:
  assumes "operation p c = (e, c')" and "2 * k8s_ticks (cms_cl c) (cms_world c) + 3 \<le> fuel"
  shows "thread_run fuel t (Waiting p, c, None) = (Returned p e, c', None)"
proof (cases p)
  case (Upsert_op k b)
  let ?v = "case map_of (cms_versionMap c) k of None \<Rightarrow> '''' | Some v \<Rightarrow> v"
  let ?c1 = "if map_of (cms_versionMap c) k = None
               then c\<lparr>cms_versionMap := AList.update k ?v (cms_versionMap c)\<rparr> else c"
  let ?c2 = "?c1\<lparr>cms_versionMap := AList.update k ?v (cms_versionMap ?c1)\<rparr>"
  from assms(2) obtain f where fuel: "fuel = Suc f" "2 * k8s_ticks (cms_cl c) (cms_world c) + 2 \<le> f"
    by (cases fuel) auto
  have same: "cms_cl ?c2 = cms_cl c" "cms_ns ?c2 = cms_ns c" "cms_world ?c2 = cms_world c" by simp_all
  show ?thesis
  proof (cases "sb_LastUpdateTimeSinceEpoch b \<ge> ?v")
    case False
    with assms(1) Upsert_op fuel(1) show ?thesis
      by (simp add: operation_def cms_Upsert_def Let_def split del: if_split)
  next
    case True
    obtain e1 w1 where poll: "poll_immediate (k8s_ticks (cms_cl ?c2) (cms_world ?c2))
        (cms_upsert_attempt (cms_cl ?c2) (cms_ns ?c2) k b) (cms_world ?c2) = (e1, w1)" by fastforce
    with assms(1) Upsert_op True have "e = e1" "c' = ?c2\<lparr>cms_world := w1\<rparr>"
      by (simp_all add: operation_def cms_Upsert_def Let_def split del: if_split)
    moreover have "thread_step t (Waiting (Upsert_op k b)) c None
        = Some (Polling k b (k8s_ticks (cms_cl ?c2) (cms_world ?c2)), ?c2, Some t)"
      using True by (simp add: Let_def split del: if_split)
    ultimately show ?thesis
      using thread_run_poll [OF poll, of f t "Some t"] fuel same Upsert_op
      by (simp del: thread_step.simps split del: if_split)
  qed
next
  case (Remove_op k)
  from assms(2) obtain f where "fuel = Suc (Suc f)" by (cases fuel; cases "fuel - 1") auto
  with assms(1) Remove_op show ?thesis
    by (auto simp: operation_def cms_Remove_def split: prod.splits sum.splits option.splits)
qed


section \<open>Goroutines interleaved\<close>

definition stored_object :: "'w ConfigMapBridgeStorage \<Rightarrow> configmap option" where
  "stored_object c = k8s_object (cms_cl c) (cms_ns c) StorageConfigMapName (cms_world c)"

text \<open>
  The operation a step makes effective: its update changed the object or was reported as a success
  (it may have changed nothing), or it found nothing to be removed.
\<close>

definition committed ::
    "store_pc \<Rightarrow> store_pc \<Rightarrow> 'w ConfigMapBridgeStorage \<Rightarrow> 'w ConfigMapBridgeStorage \<Rightarrow> store_op list" where
  "committed pc pc' c c' =
     (case pc of
        Writing p n cm \<Rightarrow> if stored_object c' \<noteq> stored_object c \<or> pc' = Returned p None then [p] else []
      | Waiting (Remove_op k) \<Rightarrow> if pc' = Returned (Remove_op k) None then [Remove_op k] else []
      | _ \<Rightarrow> [])"

text \<open>The runs of goroutines that each do one operation, with the log of what became effective when.\<close>

inductive tier_run ::
    "'w ConfigMapBridgeStorage \<Rightarrow> store_op list \<Rightarrow> (nat \<times> store_op) list
      \<Rightarrow> 'w ConfigMapBridgeStorage \<times> nat option \<times> store_pc list \<Rightarrow> bool"
  for c0 ps where
  tier_start: "tier_run c0 ps [] (c0, None, map Waiting ps)"
| tier_step: "tier_run c0 ps log (c, m, pcs) \<Longrightarrow> t < length pcs \<Longrightarrow>
    thread_step t (pcs ! t) c m = Some (pc, c', m') \<Longrightarrow>
    tier_run c0 ps (log @ map (Pair t) (committed (pcs ! t) pc c c')) (c', m', pcs[t := pc])"

text \<open>The abstract store, on which an operation is one step.\<close>

fun apply_op ::
    "(string \<Rightarrow> StorageBody option) \<Rightarrow> store_op \<Rightarrow> string \<Rightarrow> StorageBody option" where
  "apply_op view (Upsert_op k b) = view(k \<mapsto> b)"
| "apply_op view (Remove_op k) = view(k := None)"

text \<open>
  Documented behaviour of the API beyond \<^const>\<open>coreV1_ok\<close>: stored objects have a resource version,
  and an update that carries one takes effect only if it is the version of the stored object.  That
  then gets a later version, except when the update leaves it as it is: an update without a change is
  a success and keeps the version.
\<close>

definition k8s_optimistic :: "'w CoreV1 \<Rightarrow> (string \<Rightarrow> nat) \<Rightarrow> bool" where
  "k8s_optimistic cl vno \<longleftrightarrow> coreV1_ok cl
     \<and> (\<forall>ns n w cm. k8s_object cl ns n w = Some cm \<longrightarrow> cm_ResourceVersion cm \<noteq> '''')
     \<and> (\<forall>ns cm w r w'. go_map_ok (cm_BinaryData cm) \<longrightarrow> cm_ResourceVersion cm \<noteq> '''' \<longrightarrow>
          k8s_Update cl ns cm w = (r, w') \<longrightarrow>
          k8s_same cl w w' \<and> (\<forall>c. r \<noteq> Inr c)
        \<or> (\<exists>old new. k8s_object cl ns (cm_Name cm) w = Some old \<and> cm_ResourceVersion old = cm_ResourceVersion cm
             \<and> k8s_object cl ns (cm_Name cm) w' = Some new \<and> cm_content new = cm_content cm
             \<and> (new = old \<or> vno (cm_ResourceVersion old) < vno (cm_ResourceVersion new))))"

text \<open>The object stays or gets a later version.\<close>

definition evolves ::
    "(string \<Rightarrow> nat) \<Rightarrow> 'w ConfigMapBridgeStorage \<Rightarrow> 'w ConfigMapBridgeStorage \<Rightarrow> bool" where
  "evolves vno c c' \<longleftrightarrow> cms_cl c' = cms_cl c \<and> cms_ns c' = cms_ns c
     \<and> (stored_object c' = stored_object c
        \<or> (\<exists>old new. stored_object c = Some old \<and> stored_object c' = Some new
             \<and> vno (cm_ResourceVersion old) < vno (cm_ResourceVersion new)))"

text \<open>
  A goroutine about to write holds an object not later than the stored one, and if they have the same version,
  its update amounts to its operation.
\<close>

fun pc_ok :: "(string \<Rightarrow> nat) \<Rightarrow> 'w ConfigMapBridgeStorage \<Rightarrow> store_op \<Rightarrow> store_pc \<Rightarrow> bool" where
  "pc_ok vno c p (Waiting q) \<longleftrightarrow> q = p"
| "pc_ok vno c p (Polling k b n) \<longleftrightarrow> p = Upsert_op k b"
| "pc_ok vno c p (Returned q e) \<longleftrightarrow> q = p"
| "pc_ok vno c p (Writing q n cm) \<longleftrightarrow> q = p \<and> cm_Name cm = StorageConfigMapName \<and> cm_ResourceVersion cm \<noteq> ''''
     \<and> (\<exists>d cur. cm_BinaryData cm = Some d \<and> distinct (map fst d) \<and> stored_object c = Some cur
          \<and> vno (cm_ResourceVersion cm) \<le> vno (cm_ResourceVersion cur)
          \<and> (cm_ResourceVersion cm = cm_ResourceVersion cur \<longrightarrow> data_view d = apply_op (cms_view c) p))"

lemma cms_view_object:
  "cms_view c = (case stored_object c of None \<Rightarrow> (\<lambda>_. None)
     | Some cm \<Rightarrow> data_view (case cm_BinaryData cm of None \<Rightarrow> [] | Some d \<Rightarrow> d))"
  by (auto simp: cms_view_def cms_data_def stored_object_def data_view_def split: option.split)

lemma cms_view_content: "stored_object c = Some cm \<Longrightarrow> cm_content cm = map_of d \<Longrightarrow> cms_view c = data_view d"
  by (auto simp: cms_view_object cm_content_def intro: data_view_content)

lemma cms_view_same: "stored_object c' = stored_object c \<Longrightarrow> cms_view c' = cms_view c"
  by (simp add: cms_view_object)

lemma pc_ok_evolves: "pc_ok vno c p pc \<Longrightarrow> evolves vno c c' \<Longrightarrow> pc_ok vno c' p pc"
proof (cases pc)
  case (Writing q n cm)
  assume ok: "pc_ok vno c p pc" and ev: "evolves vno c c'"
  from ok Writing obtain d cur where cm: "q = p" "cm_Name cm = StorageConfigMapName" "cm_BinaryData cm = Some d"
      "cm_ResourceVersion cm \<noteq> ''''"
      "distinct (map fst d)" "stored_object c = Some cur" "vno (cm_ResourceVersion cm) \<le> vno (cm_ResourceVersion cur)"
    and own: "cm_ResourceVersion cm = cm_ResourceVersion cur \<longrightarrow> data_view d = apply_op (cms_view c) p"
    by auto
  from ev cm(6) consider "stored_object c' = stored_object c"
    | new where "stored_object c' = Some new" "vno (cm_ResourceVersion cur) < vno (cm_ResourceVersion new)"
    by (auto simp: evolves_def)
  then show ?thesis
  proof cases
    case 1
    with Writing cm own cms_view_same [OF 1] show ?thesis by simp
  next
    case 2
    with Writing cm show ?thesis by auto
  qed
qed simp_all

text \<open>The calls of the client.\<close>

lemma stored_object_get:
  assumes "cms_ok c" and "k8s_Get (cms_cl c) (cms_ns c) n (cms_world c) = (r, w)"
  shows "stored_object (c\<lparr>cms_world := w\<rparr>) = stored_object c"
  using coreV1_get [OF _ assms(2)] assms(1) by (simp add: cms_ok_def k8s_same_def stored_object_def)

lemma stored_object_got:
  assumes "cms_ok c" and "k8s_Get (cms_cl c) (cms_ns c) StorageConfigMapName (cms_world c) = (Inr cm, w)"
  shows "stored_object c = Some cm \<and> cm_Name cm = StorageConfigMapName \<and> go_map_ok (cm_BinaryData cm)"
  using coreV1_get_obj [OF _ assms(2)] coreV1_object [of "cms_cl c"] assms(1)
  by (auto simp: cms_ok_def stored_object_def)

text \<open>
  An update of a goroutine that changes something or succeeds makes the goroutine's operation effective.
\<close>

lemma update_commits:
  assumes "k8s_optimistic (cms_cl c) vno" and "pc_ok vno c p (Writing p n cm)"
    and "k8s_Update (cms_cl c) (cms_ns c) cm (cms_world c) = (r, w)"
  defines "c' \<equiv> c\<lparr>cms_world := w\<rparr>"
  shows "evolves vno c c'
    \<and> (stored_object c' \<noteq> stored_object c \<or> (\<exists>x. r = Inr x) \<longrightarrow> cms_view c' = apply_op (cms_view c) p)"
proof -
  from assms(2) obtain d cur where cm: "cm_Name cm = StorageConfigMapName" "cm_BinaryData cm = Some d"
      "distinct (map fst d)" "stored_object c = Some cur" "cm_ResourceVersion cm \<noteq> ''''"
    and own: "cm_ResourceVersion cm = cm_ResourceVersion cur \<Longrightarrow> data_view d = apply_op (cms_view c) p"
    by auto
  then have "go_map_ok (cm_BinaryData cm)" by (simp add: go_map_ok_def)
  with assms(1,3) cm(5) consider (same) "k8s_same (cms_cl c) (cms_world c) w" "\<forall>x. r \<noteq> Inr x"
    | (new) old new where "k8s_object (cms_cl c) (cms_ns c) (cm_Name cm) (cms_world c) = Some old"
        "cm_ResourceVersion old = cm_ResourceVersion cm"
        "k8s_object (cms_cl c) (cms_ns c) (cm_Name cm) w = Some new" "cm_content new = cm_content cm"
        "new = old \<or> vno (cm_ResourceVersion old) < vno (cm_ResourceVersion new)"
    unfolding k8s_optimistic_def by blast
  then show ?thesis
  proof cases
    case same
    then have "stored_object c' = stored_object c" by (simp add: c'_def stored_object_def k8s_same_def)
    with same(2) show ?thesis by (simp add: evolves_def c'_def)
  next
    case new
    then have "cur = old" using cm(1,4) by (simp add: stored_object_def)
    have now: "stored_object c' = Some new"
      using new(3) cm(1) by (simp add: c'_def stored_object_def)
    then have "cms_view c' = data_view d"
      using new(4) cm(2) by (auto intro: cms_view_content simp: cm_content_def)
    then have "cms_view c' = apply_op (cms_view c) p"
      using own \<open>cur = old\<close> new(2) by simp
    moreover have "evolves vno c c'"
      using now new(5) cm(4) \<open>cur = old\<close> by (auto simp: evolves_def c'_def)
    ultimately show ?thesis by simp
  qed
qed

lemma cms_ok_world [simp]: "cms_ok (c\<lparr>cms_world := w\<rparr>) = cms_ok c"
  by (simp add: cms_ok_def)

lemma stored_object_versionMap [simp]: "stored_object (c\<lparr>cms_versionMap := m\<rparr>) = stored_object c"
  by (simp add: stored_object_def)

text \<open>What a step of a goroutine with the operation \<open>p\<close> does.\<close>

definition step_sound ::
    "(string \<Rightarrow> nat) \<Rightarrow> store_op \<Rightarrow> store_pc \<Rightarrow> 'w ConfigMapBridgeStorage \<Rightarrow> store_pc
      \<Rightarrow> 'w ConfigMapBridgeStorage \<Rightarrow> bool" where
  "step_sound vno p pc c pc' c' \<longleftrightarrow> cms_ok c' \<and> evolves vno c c' \<and> pc_ok vno c' p pc'
     \<and> cms_view c' = foldl apply_op (cms_view c) (committed pc pc' c c')
     \<and> set (committed pc pc' c c') \<subseteq> {p}
     \<and> (pc' = Returned p None \<longrightarrow> committed pc pc' c c' \<noteq> [])"

text \<open>A step that leaves the object alone and does not succeed.\<close>

lemma step_sound_silent:
  assumes "cms_ok c'" and "cms_cl c' = cms_cl c" and "cms_ns c' = cms_ns c" and "stored_object c' = stored_object c"
    and "pc_ok vno c' p pc'" and "pc' \<noteq> Returned p None" and "pc' \<noteq> Returned (Remove_op k) None \<or> pc \<noteq> Waiting (Remove_op k)"
    and "\<And>q. pc = Waiting q \<Longrightarrow> q = p"
  shows "step_sound vno p pc c pc' c'"
proof -
  have "committed pc pc' c c' = []"
    using assms(4,5,6,8) by (auto simp: committed_def split: store_pc.splits store_op.splits)
  then show ?thesis
    using assms(1-6) cms_view_same [OF assms(4)] by (simp add: step_sound_def evolves_def)
qed

lemma poll_again_sound:
  assumes "poll_again k b n c' m = (pc', c'', m')" and "cms_ok c'" and "evolves vno c c'"
    and "cms_view c' = foldl apply_op (cms_view c) (committed pc pc' c c')"
    and "set (committed pc pc' c c') \<subseteq> {Upsert_op k b}"
  shows "step_sound vno (Upsert_op k b) pc c pc' c''"
  using assms by (auto simp: poll_again_def step_sound_def split: nat.splits)

lemma get_sound:
  assumes ok: "cms_ok c" and opt: "k8s_optimistic (cms_cl c) vno"
    and get: "k8s_Get (cms_cl c) (cms_ns c) StorageConfigMapName (cms_world c) = (Inr cm, w)"
    and d: "d = (case cm_BinaryData cm of None \<Rightarrow> [] | Some d \<Rightarrow> d)"
    and d': "data_view d' = apply_op (data_view d) p" "distinct (map fst d) \<Longrightarrow> distinct (map fst d')"
  shows "pc_ok vno (c\<lparr>cms_world := w\<rparr>) p (Writing p n (cm\<lparr>cm_BinaryData := Some d'\<rparr>))"
proof -
  note obj = stored_object_got [OF ok get] and same = stored_object_get [OF ok get]
  have "cms_view (c\<lparr>cms_world := w\<rparr>) = data_view d"
    using obj same d by (simp add: cms_view_object)
  moreover have "distinct (map fst d)" using obj d by (auto simp: go_map_ok_def split: option.splits)
  moreover have "cm_ResourceVersion cm \<noteq> ''''"
    using obj opt unfolding k8s_optimistic_def stored_object_def by blast
  ultimately show ?thesis using obj same d' by simp
qed

lemma update_sound:
  assumes opt: "k8s_optimistic (cms_cl c) vno" and ok: "cms_ok c" "pc_ok vno c p (Writing p n cm)"
    and upd: "k8s_Update (cms_cl c) (cms_ns c) cm (cms_world c) = (r, w)"
    and pc': "pc_ok vno (c\<lparr>cms_world := w\<rparr>) p pc'" "pc' = Returned p None \<Longrightarrow> \<exists>x. r = Inr x"
  shows "step_sound vno p (Writing p n cm) c pc' (c\<lparr>cms_world := w\<rparr>)"
proof (cases "stored_object (c\<lparr>cms_world := w\<rparr>) \<noteq> stored_object c \<or> pc' = Returned p None")
  case True
  with update_commits [OF opt ok(2) upd] pc' ok(1) show ?thesis
    by (auto simp: step_sound_def committed_def)
next
  case False
  with update_commits [OF opt ok(2) upd] pc' ok(1) show ?thesis
    using cms_view_same [of "c\<lparr>cms_world := w\<rparr>" c] by (simp add: step_sound_def committed_def)
qed

lemma thread_step_sound:
  assumes ok: "cms_ok c" and opt: "k8s_optimistic (cms_cl c) vno" and pc: "pc_ok vno c p pc"
    and step: "thread_step t pc c m = Some (pc', c', m')"
  shows "step_sound vno p pc c pc' c'"
proof (cases pc)
  case (Waiting q)
  with pc have q: "q = p" by simp
  show ?thesis
  proof (cases q)
    case (Upsert_op k b)
    have "map_of (cms_versionMap c) k = None \<or> map_of (cms_versionMap c) k = Some ''''"
      using ok by (cases "map_of (cms_versionMap c) k") (auto simp: cms_ok_def)
    then have "pc' = Polling k b (k8s_ticks (cms_cl c) (cms_world c))"
      and "c' = c\<lparr>cms_versionMap := AList.update k '''' (AList.update k '''' (cms_versionMap c))\<rparr>
        \<or> c' = c\<lparr>cms_versionMap := AList.update k '''' (cms_versionMap c)\<rparr>"
      using step Waiting Upsert_op by (auto simp: Let_def split: if_splits)
    with ok Waiting Upsert_op q show ?thesis
      by (intro step_sound_silent [where k = k]) (auto simp: cms_ok_def update_conv')
  next
    case (Remove_op k)
    obtain r w where get: "k8s_Get (cms_cl c) (cms_ns c) StorageConfigMapName (cms_world c) = (r, w)" by fastforce
    note same = stored_object_get [OF ok get]
    show ?thesis
    proof (cases r)
      case (Inl e)
      with get step Waiting Remove_op ok q same show ?thesis
        by (intro step_sound_silent [where k = k]) (auto)
    next
      case (Inr cm)
      show ?thesis
      proof (cases "cm_BinaryData cm")
        case None
        from stored_object_got [OF ok get [unfolded Inr]] None have "cms_view c = (\<lambda>_. None)"
          by (auto simp: cms_view_object data_view_def)
        with get Inr None step Waiting Remove_op ok q same cms_view_same [OF same] show ?thesis
          by (auto simp: step_sound_def committed_def evolves_def)
      next
        case (Some d)
        from get_sound [OF ok opt get [unfolded Inr] refl, of "AList.delete k d" "Remove_op k"] Some
        have "pc_ok vno (c\<lparr>cms_world := w\<rparr>) p (Writing p 0 (cm\<lparr>cm_BinaryData := Some (AList.delete k d)\<rparr>))"
          using Remove_op q by (simp add: distinct_delete)
        with get Inr Some step Waiting Remove_op ok q same show ?thesis
          by (intro step_sound_silent [where k = k]) auto
      qed
    qed
  qed
next
  case (Polling k b n)
  with pc have p: "p = Upsert_op k b" by simp
  obtain r w where get: "k8s_Get (cms_cl c) (cms_ns c) StorageConfigMapName (cms_world c) = (r, w)" by fastforce
  note same = stored_object_get [OF ok get]
  show ?thesis
  proof (cases r)
    case (Inl e)
    with get step Polling have again: "poll_again k b n (c\<lparr>cms_world := w\<rparr>) m = (pc', c', m')" by simp
    show ?thesis
      unfolding p
      by (rule poll_again_sound [OF again]) (use ok same cms_view_same [OF same] Polling in
        \<open>simp_all add: evolves_def committed_def\<close>)
  next
    case (Inr cm)
    let ?d = "case cm_BinaryData cm of None \<Rightarrow> [] | Some d \<Rightarrow> d"
    from get_sound [OF ok opt get [unfolded Inr] refl, of "AList.update k (Some (marshal_StorageBody b)) ?d" "Upsert_op k b"]
    have "pc_ok vno (c\<lparr>cms_world := w\<rparr>) p
        (Writing p n (cm\<lparr>cm_BinaryData := Some (AList.update k (Some (marshal_StorageBody b)) ?d)\<rparr>))"
      using p by (simp add: distinct_update)
    with get Inr step Polling ok p same show ?thesis
      by (intro step_sound_silent [where k = k]) (auto simp: Let_def)
  qed
next
  case (Writing q n cm)
  with pc have q: "q = p" by simp
  obtain r w where upd: "k8s_Update (cms_cl c) (cms_ns c) cm (cms_world c) = (r, w)" by fastforce
  have pcw: "pc_ok vno c p (Writing p n cm)" using pc Writing q by simp
  note sound = update_sound [OF opt ok pcw upd]
  show ?thesis
  proof (cases q)
    case (Upsert_op k b)
    have "c' = c\<lparr>cms_world := w\<rparr> \<and> pc_ok vno c' p pc' \<and> (pc' = Returned p None \<longrightarrow> (\<exists>x. r = Inr x))"
      using step Writing Upsert_op upd q by (auto simp: poll_again_def split: sum.splits nat.splits)
    with sound Writing q show ?thesis by auto
  next
    case (Remove_op k)
    have "c' = c\<lparr>cms_world := w\<rparr> \<and> pc_ok vno c' p pc' \<and> (pc' = Returned p None \<longrightarrow> (\<exists>x. r = Inr x))"
      using step Writing Remove_op upd q by (auto split: sum.splits)
    with sound Writing q show ?thesis by auto
  qed
qed (use step in simp)


lemma foldl_apply_committed:
  "view' = foldl apply_op view ps \<Longrightarrow> view = foldl apply_op view0 (map snd log) \<Longrightarrow>
   view' = foldl apply_op view0 (map snd (log @ map (Pair t) ps))"
  by (simp add: comp_def)

text \<open>The mutex is held by the goroutine that is in the poll.\<close>

definition polls :: "store_pc \<Rightarrow> bool" where
  "polls pc \<longleftrightarrow> (\<exists>k b n cm. pc = Polling k b n \<or> pc = Writing (Upsert_op k b) n cm)"

definition mutex_ok :: "nat option \<Rightarrow> store_pc list \<Rightarrow> bool" where
  "mutex_ok m pcs \<longleftrightarrow> (\<forall>t < length pcs. polls (pcs ! t) \<longleftrightarrow> m = Some t)"

lemma thread_step_mutex:
  assumes "thread_step t pc c m = Some (pc', c', m')" and "polls pc \<longleftrightarrow> m = Some t"
  shows "(polls pc' \<longleftrightarrow> m' = Some t) \<and> (m' = m \<or> (m = None \<or> m = Some t) \<and> (m' = None \<or> m' = Some t))"
  using assms
  by (cases "(t, pc, c, m)" rule: thread_step.cases)
    (auto simp: polls_def poll_again_def Let_def split: if_splits prod.splits sum.splits option.splits nat.splits)

lemma mutex_ok_step:
  assumes "mutex_ok m pcs" and "t < length pcs" and "thread_step t (pcs ! t) c m = Some (pc', c', m')"
  shows "mutex_ok m' (pcs[t := pc'])"
proof -
  from assms(1,2) have "polls (pcs ! t) \<longleftrightarrow> m = Some t" by (simp add: mutex_ok_def)
  note step = thread_step_mutex [OF assms(3) this]
  show ?thesis
    unfolding mutex_ok_def
  proof (intro allI impI)
    fix u
    assume "u < length (pcs[t := pc'])"
    with assms(1) step show "polls (pcs[t := pc'] ! u) \<longleftrightarrow> m' = Some u"
      by (cases "u = t") (auto simp: mutex_ok_def)
  qed
qed

text \<open>The invariant of the runs.\<close>

lemma tier_run_invariant:
  assumes ok: "cms_ok c0" and opt: "k8s_optimistic (cms_cl c0) vno"
  shows "tier_run c0 ps log (c, m, pcs) \<Longrightarrow>
    cms_ok c \<and> cms_cl c = cms_cl c0 \<and> length pcs = length ps \<and> mutex_ok m pcs
    \<and> (\<forall>t < length ps. pc_ok vno c (ps ! t) (pcs ! t))
    \<and> cms_view c = foldl apply_op (cms_view c0) (map snd log)
    \<and> (\<forall>(t, p) \<in> set log. t < length ps \<and> p = ps ! t)
    \<and> (\<forall>t < length ps. pcs ! t = Returned (ps ! t) None \<longrightarrow> (t, ps ! t) \<in> set log)"
proof (induction log "(c, m, pcs)" arbitrary: c m pcs rule: tier_run.induct)
  case tier_start
  with ok show ?case by (auto simp: mutex_ok_def polls_def)
next
  case (tier_step log c m pcs t pc c' m')
  let ?p = "ps ! t" and ?new = "map (Pair t) (committed (pcs ! t) pc c c')"
  from tier_step(2) have IH: "cms_ok c" "cms_cl c = cms_cl c0" "length pcs = length ps" "mutex_ok m pcs"
      "\<forall>t < length ps. pc_ok vno c (ps ! t) (pcs ! t)" "cms_view c = foldl apply_op (cms_view c0) (map snd log)"
      "\<forall>(t, p) \<in> set log. t < length ps \<and> p = ps ! t"
      "\<forall>t < length ps. pcs ! t = Returned (ps ! t) None \<longrightarrow> (t, ps ! t) \<in> set log"
    by blast+
  have t: "t < length ps" using tier_step.hyps(3) IH(3) by simp
  with IH(5) have "pc_ok vno c ?p (pcs ! t)" by blast
  from thread_step_sound [OF IH(1) _ this tier_step.hyps(4)] opt IH(2)
  have ok': "cms_ok c'" and ev: "evolves vno c c'" and pc': "pc_ok vno c' ?p pc"
    and view: "cms_view c' = foldl apply_op (cms_view c) (committed (pcs ! t) pc c c')"
    and mine: "set (committed (pcs ! t) pc c c') \<subseteq> {?p}"
    and done': "pc = Returned ?p None \<longrightarrow> committed (pcs ! t) pc c c' \<noteq> []"
    by (simp_all add: step_sound_def)
  have pcs': "pc_ok vno c' (ps ! u) (pcs[t := pc] ! u)" if "u < length ps" for u
    using that IH(3,5) pc' pc_ok_evolves [OF _ ev] by (cases "u = t") auto
  have log': "(u, q) \<in> set (log @ ?new) \<Longrightarrow> u < length ps \<and> q = ps ! u" for u q
    using IH(7) mine t by auto
  have returned: "(u, ps ! u) \<in> set (log @ ?new)" if "u < length ps" "pcs[t := pc] ! u = Returned (ps ! u) None" for u
  proof (cases "u = t")
    case True
    with that IH(3) done' have "committed (pcs ! t) pc c c' \<noteq> []" by simp
    with mine have "?p \<in> set (committed (pcs ! t) pc c c')" by (cases "committed (pcs ! t) pc c c'") auto
    with True show ?thesis by simp
  next
    case False
    with that IH(8) show ?thesis by simp
  qed
  have cl: "cms_cl c' = cms_cl c0" using ev IH(2) by (simp add: evolves_def)
  have len: "length (pcs[t := pc]) = length ps" using IH(3) by simp
  note mutex = mutex_ok_step [OF IH(4) tier_step.hyps(3,4)]
  note v = foldl_apply_committed [OF view IH(6), of t]
  from ok' cl len mutex pcs' v log' returned show ?case by blast
qed


section \<open>Property\<close>

text \<open>
  C24. However upserts and removals of several goroutines interleave, call by call, with failing calls
  and lost replies, the store is at every moment what the operations that became effective, in their
  order, make of the initial one: no write is lost.  An operation that has returned without an
  error is among them, also when its update changed nothing and so kept the resource version, an
  operation becomes effective in its own goroutine only, and at most one goroutine is in the poll
  of \<open>Upsert\<close>.
\<close>

theorem interleaved_store_is_atomic:
  assumes "cms_ok c0" and "k8s_optimistic (cms_cl c0) vno" and "tier_run c0 ps log (c, m, pcs)"
  shows "cms_view c = foldl apply_op (cms_view c0) (map snd log)
    \<and> (\<forall>t < length ps. pcs ! t = Returned (ps ! t) None \<longrightarrow> (t, ps ! t) \<in> set log)
    \<and> (\<forall>(t, p) \<in> set log. t < length ps \<and> p = ps ! t)
    \<and> (\<forall>t < length ps. \<forall>u < length ps. polls (pcs ! t) \<and> polls (pcs ! u) \<longrightarrow> t = u)"
proof -
  note inv = tier_run_invariant [OF assms]
  then have "\<forall>t < length ps. \<forall>u < length ps. polls (pcs ! t) \<and> polls (pcs ! u) \<longrightarrow> t = u"
    by (auto simp: mutex_ok_def)
  with inv show ?thesis by blast
qed

section \<open>The property at a concrete input\<close>

text \<open>Runs of a given schedule: the numbers of the goroutines in the order they step.\<close>

fun scheduled ::
    "nat list \<Rightarrow> (nat \<times> store_op) list \<times> 'w ConfigMapBridgeStorage \<times> nat option \<times> store_pc list
      \<Rightarrow> ((nat \<times> store_op) list \<times> 'w ConfigMapBridgeStorage \<times> nat option \<times> store_pc list) option" where
  "scheduled [] x = Some x"
| "scheduled (t # ts) (log, c, m, pcs) =
     (if t < length pcs
      then (case thread_step t (pcs ! t) c m of
              None \<Rightarrow> None
            | Some (pc, c', m') \<Rightarrow>
                scheduled ts (log @ map (Pair t) (committed (pcs ! t) pc c c'), c', m', pcs[t := pc]))
      else None)"

lemma scheduled_run:
  "scheduled ts (log, s) = Some (log', s') \<Longrightarrow> tier_run c0 ps log s \<Longrightarrow> tier_run c0 ps log' s'"
proof (induction ts arbitrary: log s)
  case (Cons t ts)
  obtain c m pcs where s: "s = (c, m, pcs)" by (cases s)
  with Cons.prems(1) obtain pc c' m' where step: "t < length pcs" "thread_step t (pcs ! t) c m = Some (pc, c', m')"
      "scheduled ts (log @ map (Pair t) (committed (pcs ! t) pc c c'), c', m', pcs[t := pc]) = Some (log', s')"
    by (auto split: if_splits option.splits)
  from Cons.IH [OF step(3)] tier_step [OF Cons.prems(2) [unfolded s] step(1,2)] show ?case by simp
qed simp

lemma k8s_optimistic_mem: "k8s_optimistic mem_CoreV1 length"
  unfolding k8s_optimistic_def
proof (intro conjI allI impI)
  fix ns n cm and w :: mem_world
  assume "k8s_object mem_CoreV1 ns n w = Some cm"
  then show "cm_ResourceVersion cm \<noteq> ''''"
    by (auto simp: mem_CoreV1_def mem_object_def split: option.splits if_splits)
next
  fix ns cm and w :: mem_world and r w'
  assume ok: "go_map_ok (cm_BinaryData cm)" and upd: "k8s_Update mem_CoreV1 ns cm w = (r, w')"
  show "k8s_same mem_CoreV1 w w' \<and> (\<forall>c. r \<noteq> Inr c)
      \<or> (\<exists>old new. k8s_object mem_CoreV1 ns (cm_Name cm) w = Some old \<and> cm_ResourceVersion old = cm_ResourceVersion cm
          \<and> k8s_object mem_CoreV1 ns (cm_Name cm) w' = Some new \<and> cm_content new = cm_content cm
          \<and> (new = old \<or> length (cm_ResourceVersion old) < length (cm_ResourceVersion new)))"
  proof (cases "\<exists>v old. mem_put ns cm v = (r, w') \<and> mem_object ns (cm_Name cm) w = Some old
      \<and> cm_ResourceVersion old = cm_ResourceVersion cm")
    case True
    with mem_put_stored [OF ok] show ?thesis
      by (intro disjI2) (force simp: mem_CoreV1_def cm_content_def)
  next
    case False
    with upd show ?thesis
      by (auto simp: mem_CoreV1_def mem_call_def k8s_same_def
          split: list.splits bool.splits option.splits if_splits)
  qed
qed (rule coreV1_ok_mem)

definition race_store :: "mem_world ConfigMapBridgeStorage" where
  "race_store = snd (cms_Upsert ''b_v1'' (example_body ''7'') (mem_store [] 5))"

lemma race_store_ok: "cms_ok race_store" "cms_cl race_store = mem_CoreV1"
proof -
  show "cms_ok race_store"
    unfolding race_store_def using cms_Upsert_effect [OF cms_ok_mem_store] by (metis prod.collapse)
  have "cms_cl (mem_store [] 5) = mem_CoreV1"
    by (simp add: mem_store_def cms_Initialize_def Let_def split: prod.split sum.split k8s_error.split)
  then show "cms_cl race_store = mem_CoreV1"
    by (simp add: race_store_def cms_Upsert_def Let_def split: prod.split)
qed

text \<open>
  A removal that reads before and writes after an upsert fails; the upsert is not lost.  The removal of
  a key that is not there succeeds with an update that changes nothing.
\<close>

theorem interleaved_store_is_atomic_witness:
  "\<exists>c m. tier_run race_store
        [Upsert_op ''a_v1'' (example_body ''7''), Remove_op ''b_v1'', Remove_op ''c_v1'']
        [(0, Upsert_op ''a_v1'' (example_body ''7'')), (2, Remove_op ''c_v1'')]
        (c, m, [Returned (Upsert_op ''a_v1'' (example_body ''7'')) None,
                Returned (Remove_op ''b_v1'') (Some ''conflict''), Returned (Remove_op ''c_v1'') None])
     \<and> cms_view c = (cms_view race_store)(''a_v1'' \<mapsto> example_body ''7'', ''c_v1'' := None)"
proof -
  let ?ps = "[Upsert_op ''a_v1'' (example_body ''7''), Remove_op ''b_v1'', Remove_op ''c_v1'']"
  let ?log = "[(0, Upsert_op ''a_v1'' (example_body ''7'')), (2, Remove_op ''c_v1'')]"
  let ?pcs = "[Returned (Upsert_op ''a_v1'' (example_body ''7'')) None,
               Returned (Remove_op ''b_v1'') (Some ''conflict''), Returned (Remove_op ''c_v1'') None]"
  let ?x = "scheduled [1, 0, 0, 0, 1, 2, 2] ([], race_store, None, map Waiting ?ps)"
  have "map_option (\<lambda>(log, c, m, pcs). (log, pcs)) ?x = Some (?log, ?pcs)"
    by code_simp
  then obtain c m where "?x = Some (?log, c, m, ?pcs)" by auto
  from scheduled_run [OF this tier_start] have run: "tier_run race_store ?ps ?log (c, m, ?pcs)" .
  have "k8s_optimistic (cms_cl race_store) length" by (simp add: race_store_ok(2) k8s_optimistic_mem)
  from interleaved_store_is_atomic [OF race_store_ok(1) this run] run show ?thesis by auto
qed

end
