(* ===== verification/Reload.thy ===== *)
theory Reload
  imports StorageClient
begin

text \<open>
  Filling the location service from the storage service, \<^verbatim>\<open>loadFromStorage\<close> of
  \<^verbatim>\<open>pkg/cmd/server/location/server/server.go\<close>: it lists the stored keys, fetches the body of each
  and registers a route for its URI.  The body is taken for the document as it comes.

  The mutex is locked in each round and unlocked by the deferred calls when the function
  returns; \<^verbatim>\<open>sync.Mutex\<close> is not reentrant, so the second lock of one call never returns.  Gin panics
  when a route is registered twice.
\<close>

section \<open>The code\<close>

datatype load_failure = Deadlock | RoutePanic

text \<open>
  \<open>locked\<close> says if an earlier round has locked the mutex.  The state is the server, the URIs of the
  routes registered by such calls, and the world; \<open>body\<close> reads an answer as bytes.  The error of the
  function is always nil.
\<close>

fun load_keys ::
    "'w transport \<Rightarrow> BridgeStorageRESTClient \<Rightarrow> (payload \<Rightarrow> string) \<Rightarrow> bool \<Rightarrow> string list
      \<Rightarrow> ImportLocationServer \<times> string list \<times> 'w
      \<Rightarrow> load_failure + bool \<times> ImportLocationServer \<times> string list \<times> 'w" where
  "load_keys send storage body locked [] (i, routes, w) = Inr (True, i, routes, w)"
| "load_keys send storage body locked (key # keys) (i, routes, w) =
     (case rekey (ils_format i) key of
        None \<Rightarrow> load_keys send storage body locked keys (i, routes, w)
      | Some (_, uri) \<Rightarrow>
          (case FetchModel send storage key w of
             ((rc, err, p), w) \<Rightarrow>
               if err \<noteq> None then Inr (False, i, routes, w)
               else if rc \<noteq> StatusOK then Inr (False, i, routes, w)
               else if locked then Inl Deadlock
               else if uri \<in> set routes then Inl RoutePanic
               else load_keys send storage body True keys
                      (i\<lparr>ils_content := AList.update uri \<lparr>loc_content = Some (body p)\<rparr> (ils_content i)\<rparr>,
                       routes @ [uri], w)))"

definition loadFromStorage ::
    "'w transport \<Rightarrow> BridgeStorageRESTClient \<Rightarrow> (payload \<Rightarrow> string)
      \<Rightarrow> ImportLocationServer \<times> string list \<times> 'w
      \<Rightarrow> load_failure + bool \<times> ImportLocationServer \<times> string list \<times> 'w" where
  "loadFromStorage send storage body state =
     (case state of (i, routes, w) \<Rightarrow>
        (case ListModelsKeys send storage w of
           ((rc, err, keys), w) \<Rightarrow>
             if err \<noteq> None then Inr (False, i, routes, w)
             else if rc \<noteq> StatusOK then Inr (False, i, routes, w)
             else load_keys send storage body False keys (i, routes, w)))"

section \<open>Loading from the storage service\<close>

text \<open>The service answers every fetch of a key that has two segments with the body as JSON.\<close>

lemma FetchModel_link:
  assumes "key \<noteq> []"
  shows "FetchModel (storage_link host D) (SetupBridgeStorageRESTClient host token) key s =
    (case bs_Fetch (sd_st D) key (ss_st s) of
       ((sb, _), st) \<Rightarrow> ((StatusOK, None, JsonPayload (Some (marshal_StorageBody sb))), s\<lparr>ss_st := st\<rparr>))"
  using assms
  by (auto simp: FetchModel_def storage_link_def SetupBridgeStorageRESTClient_def ss_serve_def handleCatalogFetch_def
      gin_Query_def gin_response_def gin_data_def uri_defs split: prod.splits)

lemma rekey_not_empty: "rekey nf key = Some x \<Longrightarrow> key \<noteq> []"
  by (auto simp: rekey_def)

text \<open>The keys that have a URI.\<close>

definition has_uri :: "NormalizerFormat \<Rightarrow> string \<Rightarrow> bool" where
  "has_uri nf key \<longleftrightarrow> rekey nf key \<noteq> None"

lemma load_keys_locked:
  "load_keys (storage_link host D) (SetupBridgeStorageRESTClient host token) body True keys (i, routes, s) =
     (if \<exists>k \<in> set keys. has_uri (ils_format i) k then Inl Deadlock else Inr (True, i, routes, s))"
proof (induction keys arbitrary: s)
  case (Cons key keys)
  show ?case
  proof (cases "rekey (ils_format i) key")
    case None
    with Cons.IH show ?thesis by (simp add: has_uri_def)
  next
    case (Some x)
    then show ?thesis using rekey_not_empty [OF Some] by (auto simp: has_uri_def FetchModel_link split: prod.splits)
  qed
qed simp

lemma load_keys_unlocked:
  assumes "routes = []"
  shows "load_keys (storage_link host D) (SetupBridgeStorageRESTClient host token) body False keys (i, routes, s) =
     (case filter (has_uri (ils_format i)) keys of
        [] \<Rightarrow> Inr (True, i, [], s)
      | [key] \<Rightarrow>
          (case (rekey (ils_format i) key, bs_Fetch (sd_st D) key (ss_st s)) of
             (Some (_, uri), ((sb, _), st)) \<Rightarrow>
               Inr (True,
                    i\<lparr>ils_content := AList.update uri
                        \<lparr>loc_content = Some (body (JsonPayload (Some (marshal_StorageBody sb))))\<rparr> (ils_content i)\<rparr>,
                    [uri], s\<lparr>ss_st := st\<rparr>))
      | _ \<Rightarrow> Inl Deadlock)"
  using assms
proof (induction keys)
  case (Cons key keys)
  show ?case
  proof (cases "rekey (ils_format i) key")
    case None
    with Cons show ?thesis by (simp add: has_uri_def)
  next
    case (Some x)
    obtain k uri where x: "x = (k, uri)" by fastforce
    obtain sb e st where f: "bs_Fetch (sd_st D) key (ss_st s) = ((sb, e), st)" by (metis prod.collapse)
    have "(\<exists>k \<in> set keys. has_uri (ils_format i) k) \<longleftrightarrow> filter (has_uri (ils_format i)) keys \<noteq> []"
      by (auto simp: filter_empty_conv)
    moreover have "has_uri (ils_format i) key" using Some by (simp add: has_uri_def)
    ultimately show ?thesis
      using Some x f Cons.prems rekey_not_empty [OF Some]
      by (simp add: FetchModel_link load_keys_locked split: list.split)
  qed
qed simp


text \<open>Which keys are loaded, and that the listing leaves the store as it was.\<close>

lemma loadFromStorage_link:
  assumes ok: "cms_ok (ss_st s)" and ls: "cms_List (ss_st s) = ((keys, None), st)"
    and D: "D = StorageService h t env bt nf push" and valid: "valid = filter (has_uri (ils_format i)) keys"
  shows "loadFromStorage (storage_link host D) (SetupBridgeStorageRESTClient host token) body (i, [], s)
      = load_keys (storage_link host D) (SetupBridgeStorageRESTClient host token) body False keys (i, [], s\<lparr>ss_st := st\<rparr>)"
    and "cms_ok st" and "cms_view st = cms_view (ss_st s)"
    and "card {k \<in> dom (cms_view (ss_st s)). has_uri (ils_format i) k} = length valid"
    and "cms_view (ss_st s) k = Some b \<Longrightarrow> rekey (ils_format i) k = Some x \<Longrightarrow> k \<in> set valid"
    and "bs_Fetch (sd_st D) = cms_Fetch"
proof -
  have st_D: "bs_List (sd_st D) = cms_List" "bs_Fetch (sd_st D) = cms_Fetch"
    by (simp_all add: D StorageService_def Let_def ConfigMapStorage_def)
  then show "bs_Fetch (sd_st D) = cms_Fetch" by simp
  show "loadFromStorage (storage_link host D) (SetupBridgeStorageRESTClient host token) body (i, [], s)
      = load_keys (storage_link host D) (SetupBridgeStorageRESTClient host token) body False keys (i, [], s\<lparr>ss_st := st\<rparr>)"
    using ls by (simp add: loadFromStorage_def ListModelsKeys_link st_D)
  from cms.list_value [OF ok] cms.list_keeps [OF ok] ls
  have keys: "set keys = dom (cms_view (ss_st s))" "distinct keys" and "cms_ok st \<and> cms_view st = cms_view (ss_st s)"
    by (auto simp: ConfigMapStorage_def)
  then show "cms_ok st" "cms_view st = cms_view (ss_st s)" by simp_all
  have "{k \<in> dom (cms_view (ss_st s)). has_uri (ils_format i) k} = set valid" using keys(1) valid by auto
  then show "card {k \<in> dom (cms_view (ss_st s)). has_uri (ils_format i) k} = length valid"
    using keys(2) valid distinct_card [of valid] by simp
  show "k \<in> set valid" if "cms_view (ss_st s) k = Some b" "rekey (ils_format i) k = Some x"
    using that keys(1) valid by (auto simp: has_uri_def)
qed

section \<open>Property\<close>

text \<open>
  C37. Loading the location service from a store that has two keys with a URI, or more, never
  returns: the second round of the loop waits for the mutex the first one holds.  With one such key
  it returns, and what is served at the URI is not the stored document but the JSON of the whole
  stored body, the one the store has if it could be read.
\<close>

theorem reload_deadlocks:
  assumes "services_ok h nf s" and "cms_List (ss_st s) = ((keys, None), st)"
    and "load = loadFromStorage (storage_link host (StorageService h t env bt nf push))
      (SetupBridgeStorageRESTClient host token) body (i, [], s)"
  shows "if card {k \<in> dom (cms_view (ss_st s)). has_uri (ils_format i) k} \<ge> 2 then load = Inl Deadlock
    else \<exists>i' routes s'. load = Inr (True, i', routes, s')
      \<and> (\<forall>k b k' uri. cms_view (ss_st s) k = Some b \<and> rekey (ils_format i) k = Some (k', uri) \<longrightarrow>
           (\<exists>sb. ils_view i' uri = Some (body (JsonPayload (Some (marshal_StorageBody sb))))
             \<and> (snd (fst (cms_Fetch k st)) = None \<longrightarrow> sb = b)))"
proof -
  let ?valid = "filter (has_uri (ils_format i)) keys"
  have inv: "cms_ok (ss_st s)" using assms(1) by (simp add: services_ok_def)
  note link = loadFromStorage_link [OF inv assms(2) refl refl]
  note load = assms(3) [unfolded link(1)]
  show ?thesis
  proof (cases ?valid)
    case Nil
    then have "cms_view (ss_st s) k = Some b \<Longrightarrow> rekey (ils_format i) k = Some x \<Longrightarrow> False" for k b x
      using link(5) Nil by fastforce
    with Nil link(4) show ?thesis by (simp add: load load_keys_unlocked) blast
  next
    case (Cons key more)
    show ?thesis
    proof (cases more)
      case (Cons key2 more2)
      with \<open>?valid = key # more\<close> link(4) show ?thesis by (simp add: load load_keys_unlocked)
    next
      case Nil
      with \<open>?valid = key # more\<close> have valid: "?valid = [key]" by simp
      then have "has_uri (ils_format i) key" by (metis filter_eq_ConsD)
      then obtain k' uri where key: "rekey (ils_format i) key = Some (k', uri)" by (auto simp: has_uri_def)
      obtain sb e st2 where f: "cms_Fetch key st = ((sb, e), st2)" by (metis prod.collapse)
      have "e = None \<Longrightarrow> cms_view (ss_st s) key = Some b \<Longrightarrow> sb = b" for b
        using cms.fetch_value [OF link(2), of key sb st2] f link(3) by (simp add: ConfigMapStorage_def)
      moreover have "k = key" if "cms_view (ss_st s) k = Some b" "rekey (ils_format i) k = Some x" for k b x
        using link(5) [OF that] valid by simp
      ultimately show ?thesis
        using link(4) [where i = i] valid key f
        by (auto simp: load load_keys_unlocked link(6) ils_view_def)
    qed
  qed
qed


section \<open>The property at a concrete input\<close>

definition two_models_server :: "(mem_world ConfigMapBridgeStorage, location_net, nat) StorageRESTServer" where
  "two_models_server = (example_server [])\<lparr>ss_st := snd (cms_Upsert ''b_v1'' (example_body ''7'')
     (snd (cms_Upsert ''a_v1'' (example_body ''7'') (mem_store [] 5))))\<rparr>"

lemma two_models_server_ok: "services_ok example_host JsonArrayForamt two_models_server"
proof -
  have "cms_ok (snd (cms_Upsert ''b_v1'' (example_body ''7'')
     (snd (cms_Upsert ''a_v1'' (example_body ''7'') (mem_store [] 5)))))"
    using cms_Upsert_effect [OF cms_ok_mem_store] cms_Upsert_effect by (metis prod.collapse)
  then show ?thesis
    using services_ok_example [of "[]"] by (simp add: services_ok_def two_models_server_def cache_ok_def)
qed

theorem reload_deadlocks_witness:
  "loadFromStorage (storage_link ''http://s'' example_service) (SetupBridgeStorageRESTClient ''http://s'' '''')
     (\<lambda>_. ''body'') (NewImportLocationServer JsonArrayForamt, [], two_models_server) = Inl Deadlock"
proof -
  let ?i = "NewImportLocationServer JsonArrayForamt"
  let ?S = "{k \<in> dom (cms_view (ss_st two_models_server)). has_uri (ils_format ?i) k}"
  have inv: "cms_ok (ss_st two_models_server)" using two_models_server_ok by (simp add: services_ok_def)
  have "snd (fst (cms_List (ss_st two_models_server))) = None" by code_simp
  then obtain keys st where l: "cms_List (ss_st two_models_server) = ((keys, None), st)" by (metis prod.collapse)
  from cms.list_value [OF inv, of keys st] l have "set keys = dom (cms_view (ss_st two_models_server))"
    by (simp add: ConfigMapStorage_def)
  then have fin: "finite ?S" by (metis (no_types, lifting) List.finite_set finite_subset mem_Collect_eq subsetI)
  have "cms_view (ss_st two_models_server) ''a_v1'' \<noteq> None" "cms_view (ss_st two_models_server) ''b_v1'' \<noteq> None"
    "has_uri (ils_format ?i) ''a_v1''" "has_uri (ils_format ?i) ''b_v1''" by code_simp+
  then have "{''a_v1'', ''b_v1''} \<subseteq> ?S" by auto
  from card_mono [OF fin this] have "card ?S \<ge> 2" by simp
  with reload_deadlocks [where t = "''''" and env = example_env and bt = "''''" and push = True,
      OF two_models_server_ok l refl, folded example_service_def, of ?i "''http://s''" "''''" "\<lambda>_. ''body''"]
  show ?thesis by simp
qed

end
