(* ===== verification/Manager.thy ===== *)
theory Manager
  imports Startup
begin

text \<open>
  The process around the controller: \<^verbatim>\<open>cmd/rhoai-normalizer/main.go\<close>, \<^verbatim>\<open>NewControllerManager\<close> and the rest
  of \<^verbatim>\<open>SetupController\<close> of \<^verbatim>\<open>rhoai-normalizer/controller.go\<close>; the signals and the serving loop of the two
  services; the clients made from a command's configuration (\<^verbatim>\<open>pkg/config/types.go\<close>).

  controller-runtime and client-go are parameters: what their calls answer is read off
  \<open>manager_env\<close>.  Constructors of clients that panic on a malformed configuration are left out, and
  flags and logging.
\<close>

section \<open>The controller's manager\<close>

definition PollingIntEnvVar :: string where "PollingIntEnvVar = ''POLLING_INTERVAL''"

text \<open>
  The answers of the calls, by the number of the try where a call is polled; \<open>mg_tries\<close> is how often
  after the first time the poll of five minutes can run.  A manager that could not be made is nil.
\<close>

record manager_env =
  mg_GetCRD :: "nat \<Rightarrow> go_error"
  mg_ListInferenceServices :: "nat \<Rightarrow> go_error"
  mg_tries :: nat
  mg_AddScheme :: go_error
  mg_AddKServeScheme :: go_error
  mg_NewManager :: go_error
  mg_Complete :: go_error
  mg_Add :: go_error
  mg_AddPprof :: go_error
  mg_ParseDuration :: "string \<Rightarrow> int option"
  mg_AddHealthzCheck :: go_error
  mg_AddReadyzCheck :: go_error
  mg_Start :: go_error

text \<open>The condition polled: the definition of the services is there and they can be listed.\<close>

definition services_listed :: "manager_env \<Rightarrow> nat \<Rightarrow> bool \<times> nat" where
  "services_listed env i =
     (case mg_GetCRD env i of
        Some _ \<Rightarrow> (False, Suc i)
      | None \<Rightarrow> (case mg_ListInferenceServices env i of Some _ \<Rightarrow> (False, Suc i) | None \<Rightarrow> (True, Suc i)))"

text \<open>Durations are in nanoseconds.\<close>

definition default_polling_interval :: int where
  "default_polling_interval = 2 * 60 * 1000000000"

definition polling_interval :: "manager_env \<Rightarrow> NormalizerEnv \<Rightarrow> int" where
  "polling_interval env nenv =
     (let polling = ne_getenv nenv PollingIntEnvVar
      in case mg_ParseDuration env polling of
           None \<Rightarrow> default_polling_interval
         | Some pollingDuration \<Rightarrow> if length polling > 0 then pollingDuration else default_polling_interval)"

text \<open>
  The controller that is added to the manager, with its polling interval, and the error; \<^const>\<open>None\<close> is a
  panic: of the set-up of the registries, or because the manager is nil.
\<close>

definition SetupController_in ::
    "manager_env \<Rightarrow> bool \<Rightarrow> NormalizerEnv \<Rightarrow> string \<Rightarrow> string
      \<Rightarrow> (go_error \<times> RHOAINormalizerReconcile \<times> int) option" where
  "SetupController_in env nil_mgr nenv token pprofPort =
     (if nil_mgr then None
      else map_option
        (\<lambda>reconciler.
           (case mg_Complete env of
              Some err \<Rightarrow> Some err
            | None \<Rightarrow>
                (case mg_Add env of
                   Some err \<Rightarrow> Some err
                 | None \<Rightarrow> if length pprofPort > 0 then mg_AddPprof env else None),
            reconciler, polling_interval env nenv))
        (SetupController nenv token))"

definition NewControllerManager ::
    "manager_env \<Rightarrow> NormalizerEnv \<Rightarrow> string \<Rightarrow> string \<Rightarrow> (go_error \<times> (RHOAINormalizerReconcile \<times> int) option) option" where
  "NewControllerManager env nenv token pprofAddr =
     (case fst (poll_immediate (mg_tries env) (services_listed env) 0) of
        Some err \<Rightarrow> Some (Some err, None)
      | None \<Rightarrow>
          (case mg_AddScheme env of
             Some err \<Rightarrow> Some (Some err, None)
           | None \<Rightarrow>
               (case mg_AddKServeScheme env of
                  Some err \<Rightarrow> Some (Some err, None)
                | None \<Rightarrow>
                    map_option (\<lambda>(err, r). (err, Some r))
                      (SetupController_in env (mg_NewManager env \<noteq> None) nenv token pprofAddr))))"

text \<open>The events that are reconciled.\<close>

datatype watch_event = GenericEvent | CreateEvent | DeleteEvent | UpdateEvent

definition RHOAINormalizerFilter :: "watch_event \<Rightarrow> bool" where
  "RHOAINormalizerFilter e =
     (case e of GenericEvent \<Rightarrow> False | CreateEvent \<Rightarrow> True | DeleteEvent \<Rightarrow> True | UpdateEvent \<Rightarrow> True)"

text \<open>\<^verbatim>\<open>time.NewTicker\<close>, with which \<^const>\<open>Start\<close> begins, panics unless the interval is positive.\<close>

definition Start_every ::
    "int \<Rightarrow> openapi_json \<Rightarrow> (catalog_doc list \<Rightarrow> string) \<Rightarrow> 'w transport \<Rightarrow> (nat \<Rightarrow> start_event)
      \<Rightarrow> RHOAINormalizerReconcile \<times> 'w \<Rightarrow> (unit + go_error) option" where
  "Start_every pollingInt J render send events state =
     (if pollingInt \<le> 0 then Some (Inl ()) else Start J render send events 0 state)"

section \<open>The normaliser's main\<close>

datatype process_end = Exit nat | Panic | Return

definition normaliser_main :: "manager_env \<Rightarrow> os_env \<Rightarrow> NormalizerEnv \<Rightarrow> string \<Rightarrow> process_end" where
  "normaliser_main env os nenv pprofAddr =
     (case (case InClusterConfigHackForRHDHSidecars os of Inr c \<Rightarrow> Some c | Inl _ \<Rightarrow> os_GetConfigOrDie os) of
        None \<Rightarrow> Exit 1
      | Some restConfig \<Rightarrow>
          (case NewControllerManager env nenv (GetCurrentToken os (Some restConfig)) pprofAddr of
             None \<Rightarrow> Panic
           | Some (Some err, _) \<Rightarrow> Exit 1
           | Some (None, _) \<Rightarrow>
               if mg_AddHealthzCheck env \<noteq> None then Exit 1
               else if mg_AddReadyzCheck env \<noteq> None then Exit 1
               else if mg_Start env \<noteq> None then Exit 1
               else Return))"

section \<open>Signals and the serving loop of the services\<close>

text \<open>
  The channel of \<^verbatim>\<open>SetupSignalHandler\<close> may be closed once in the life of the process.  A first signal
  closes the stop channel, a second one exits.
\<close>

record signal_handler =
  sh_installed :: bool
  sh_stop_closed :: bool
  sh_exit :: "nat option"

definition SetupSignalHandler :: "signal_handler \<Rightarrow> signal_handler option" where
  "SetupSignalHandler s = (if sh_installed s then None else Some (s\<lparr>sh_installed := True\<rparr>))"

definition on_signal :: "signal_handler \<Rightarrow> signal_handler" where
  "on_signal s =
     (if \<not> sh_installed s then s
      else if \<not> sh_stop_closed s then s\<lparr>sh_stop_closed := True\<rparr>
      else s\<lparr>sh_exit := Some 1\<rparr>)"

text \<open>
  \<open>Run\<close> of both services: the server is started again whenever it returns, until the stop channel is
  closed.  The result is how often it was started and if \<open>Run\<close> has returned.
\<close>

datatype serve_event = Signal | ServerReturns go_error

fun serve_loop :: "serve_event list \<Rightarrow> signal_handler \<Rightarrow> nat \<Rightarrow> nat \<times> bool \<times> signal_handler" where
  "serve_loop [] s n = (n, False, s)"
| "serve_loop (Signal # es) s n =
     (let s = on_signal s in if sh_stop_closed s then (n, True, s) else serve_loop es s n)"
| "serve_loop (ServerReturns err # es) s n = serve_loop es s (Suc n)"

text \<open>The server is up until the first signal, whatever errors it returned with before.\<close>

lemma serve_loop_signal:
  assumes "SetupSignalHandler s = Some s'" and "\<not> sh_stop_closed s" and "Signal \<notin> set es"
  shows "serve_loop (es @ Signal # es') s' n = (n + length es, True, s'\<lparr>sh_stop_closed := True\<rparr>)"
    and "serve_loop es s' n = (n + length es, False, s')"
proof -
  from assms(1,2) have s': "sh_installed s'" "\<not> sh_stop_closed s'"
    by (auto simp: SetupSignalHandler_def split: if_splits)
  show "serve_loop (es @ Signal # es') s' n = (n + length es, True, s'\<lparr>sh_stop_closed := True\<rparr>)"
    using assms(3) s' by (induction es arbitrary: n) (auto simp: on_signal_def Let_def, case_tac a, auto)
  show "serve_loop es s' n = (n + length es, False, s')"
    using assms(3) by (induction es arbitrary: n) (auto, case_tac a, auto)
qed

section \<open>Clients from a configuration\<close>

text \<open>The settings of a command.\<close>

record config_Link =
  cl_Title :: string
  cl_Type :: string
  cl_Icon :: string

record config =
  co_Kubeconfig :: string
  co_Namespace :: string
  co_ServingClient :: "cluster option"
  co_StoreURL :: string
  co_StoreToken :: string
  co_StoreSkipTLS :: bool
  co_BackstageSkipTLS :: bool
  co_BackstageToken :: string
  co_BackstageURL :: string
  co_KubeflowRESTClient :: "(http_request \<Rightarrow> string + http_response) option"
  co_DeleteAll :: bool
  co_ConfigMapNS :: string
  co_ConfigMapName :: string
  co_Owner :: string
  co_Lifecycle :: string
  co_ComponentTags :: "string list"
  co_ResourceTags :: "string list go_map"
  co_APITags :: "string list"
  co_ComponentLinks :: "config_Link go_map"
  co_ResourceLinks :: "config_Link go_map go_map"
  co_APILinks :: "config_Link go_map"
  co_ComponentTechDockRef :: string
  co_ResourceTechDockRef :: "string go_map"
  co_APITechDockRef :: string
  co_MultiEntryOutputPrefix :: string
  co_ParamsAsTags :: bool
  co_AnySubsetWorks :: bool

text \<open>\<^const>\<open>None\<close> is the exit of the process; \<open>serving\<close> makes a client of a configuration.\<close>

definition SetupKServeClient :: "os_env \<Rightarrow> (rest_config \<Rightarrow> cluster) \<Rightarrow> config option \<Rightarrow> config option" where
  "SetupKServeClient env serving cfg =
     (case cfg of
        None \<Rightarrow> None
      | Some cfg \<Rightarrow>
          if co_ServingClient cfg \<noteq> None then Some cfg
          else (case GetK8sConfig env (co_Kubeconfig cfg) of
                  Inl err \<Rightarrow> None
                | Inr kubeconfig \<Rightarrow>
                    (let cfg = cfg\<lparr>co_ServingClient := Some (serving kubeconfig)\<rparr>
                     in Some (if length (co_Namespace cfg) = 0 then cfg\<lparr>co_Namespace := GetCurrentProject env\<rparr> else cfg))))"

text \<open>
  The client and the configuration it leaves.  A client that is configured already gets no \<^verbatim>\<open>Config\<close>,
  so it has no serving client; \<open>resty\<close> makes a new one, with or without the check of certificates.
\<close>

definition SetupKubeflowRESTClient ::
    "os_env \<Rightarrow> (rest_config \<Rightarrow> cluster) \<Rightarrow> (bool \<Rightarrow> http_request \<Rightarrow> string + http_response) \<Rightarrow> config option
      \<Rightarrow> (KubeFlowRESTClientWrapper \<times> config) option" where
  "SetupKubeflowRESTClient env serving resty cfg =
     (case cfg of
        None \<Rightarrow> None
      | Some cfg \<Rightarrow>
          (let wrapper = (\<lambda>client serving.
                 \<lparr>kw_RESTClient = client, kw_ServingClient = serving,
                  kw_RootRegistryURL = co_StoreURL cfg @ KFMR_BASE_URI,
                  kw_RootCatalogURL = co_StoreURL cfg @ KRMR_CATALOG_BASE_URI, kw_Token = co_StoreToken cfg\<rparr>)
           in case co_KubeflowRESTClient cfg of
                Some client \<Rightarrow> Some (wrapper client None, cfg)
              | None \<Rightarrow>
                  (let client = resty (co_StoreSkipTLS cfg)
                   in map_option (\<lambda>cfg. (wrapper client (co_ServingClient cfg), cfg))
                        (SetupKServeClient env serving (Some (cfg\<lparr>co_KubeflowRESTClient := Some client\<rparr>))))))"

text \<open>Whether the client of Backstage skips the check of certificates, and the file of its roots.\<close>

definition backstage_tls :: "os_env \<Rightarrow> config \<Rightarrow> bool \<times> string option" where
  "backstage_tls env cfg =
     (case os_ReadFile env ca_file of
        Inl err \<Rightarrow> (co_BackstageSkipTLS cfg, None)
      | Inr certs \<Rightarrow> (False, Some certs))"

definition SetupBackstage ::
    "os_env \<Rightarrow> config option \<Rightarrow> (BackstageRESTClientWrapper \<times> bool \<times> string option) option" where
  "SetupBackstage env cfg =
     (case cfg of
        None \<Rightarrow> None
      | Some cfg \<Rightarrow>
          Some (SetupBackstageRESTClient (co_BackstageURL cfg) (co_BackstageToken cfg) (co_ParamsAsTags cfg)
                  (co_AnySubsetWorks cfg), backstage_tls env cfg))"

text \<open>The second client made from a configuration is without a serving client.\<close>

lemma second_Kubeflow_client:
  assumes "SetupKubeflowRESTClient env serving resty (Some cfg) = Some (k, cfg')"
  shows "\<exists>k'. SetupKubeflowRESTClient env serving resty (Some cfg') = Some (k', cfg')
    \<and> kw_ServingClient k' = None \<and> kw_RESTClient k' = kw_RESTClient k
    \<and> (co_KubeflowRESTClient cfg = None \<longrightarrow> kw_ServingClient k \<noteq> None)"
  using assms
  by (auto simp: SetupKubeflowRESTClient_def SetupKServeClient_def Let_def split: option.splits sum.splits if_splits)


section \<open>Accessors of the model registry that no other code calls\<close>

definition GET_MODEL_ARTIFACT_URI :: "string \<Rightarrow> string" where
  "GET_MODEL_ARTIFACT_URI i = ''/model_artifacts/'' @ i"
definition LIST_CATALOG_MODELS_URI :: string where "LIST_CATALOG_MODELS_URI = ''/models''"
definition LIST_CATALOG_SOURECES_URI :: string where "LIST_CATALOG_SOURECES_URI = ''/sources''"
definition LIST_CATALOG_MODEL_ARTIFACTS_URI :: "string \<Rightarrow> string \<Rightarrow> string" where
  "LIST_CATALOG_MODEL_ARTIFACTS_URI source model = ''/sources/'' @ source @ ''/models/'' @ model @ ''/artifacts''"

text \<open>The types of the catalog are the package's; \<open>unmarshal\<close> decodes them.\<close>

definition GetModelArtifact ::
    "(payload \<Rightarrow> string + ModelArtifact) \<Rightarrow> KubeFlowRESTClientWrapper \<Rightarrow> string \<Rightarrow> string + ModelArtifact" where
  "GetModelArtifact unmarshal k i =
     get_and_decode unmarshal k (kw_RootRegistryURL k @ GET_MODEL_ARTIFACT_URI i)"

definition ListCatalogModels ::
    "(payload \<Rightarrow> string + 'm list) \<Rightarrow> KubeFlowRESTClientWrapper \<Rightarrow> string + 'm list" where
  "ListCatalogModels unmarshal k = get_and_decode unmarshal k (kw_RootCatalogURL k @ LIST_CATALOG_MODELS_URI)"

definition ListCatalogSources ::
    "(payload \<Rightarrow> string + 'm list) \<Rightarrow> KubeFlowRESTClientWrapper \<Rightarrow> string + 'm list" where
  "ListCatalogSources unmarshal k = get_and_decode unmarshal k (kw_RootCatalogURL k @ LIST_CATALOG_SOURECES_URI)"

definition ListCatalogModelArtifacts ::
    "(payload \<Rightarrow> string + 'm list) \<Rightarrow> KubeFlowRESTClientWrapper \<Rightarrow> string \<Rightarrow> string \<Rightarrow> string + 'm list" where
  "ListCatalogModelArtifacts unmarshal k sourceId modelName =
     get_and_decode unmarshal k (kw_RootCatalogURL k @ LIST_CATALOG_MODEL_ARTIFACTS_URI sourceId modelName)"

end
