(* ===== verification/Output.thy ===== *)
theory Output
  imports Catalog Manager
begin

text \<open>
  Where output goes: \<^verbatim>\<open>PrintYaml\<close>, \<^verbatim>\<open>PrintJSON\<close> and \<^verbatim>\<open>ProcessOutput\<close> of \<^verbatim>\<open>pkg/util/utils.go\<close>, and the two
  servers that serve until they are told to stop, the storage service's \<^verbatim>\<open>Run\<close> and the \<^verbatim>\<open>pprof\<close> server
  of \<^verbatim>\<open>rhoai-normalizer/controller.go\<close>.

  The printers of \<open>Catalog\<close> append documents to a list; here the list is justified: on a buffer, printing
  a document appends its text.  The marshallers of JSON and YAML, and the tab writer, which
  is the library's, are parameters; a writer takes a text and the state behind it and answers an error.
\<close>

section \<open>Printing\<close>

type_synonym 'w go_writer = "string \<Rightarrow> 'w \<Rightarrow> go_error \<times> 'w"

definition divider :: string where "divider = ''---'' @ [CHR 0x0A]"

text \<open>The divider goes to the writer itself, also when the text could not be written; its error is dropped.\<close>

definition PrintYaml ::
    "('a \<Rightarrow> string + string) \<Rightarrow> ('w go_writer \<Rightarrow> 'w go_writer) \<Rightarrow> 'a \<Rightarrow> bool \<Rightarrow> 'w go_writer \<Rightarrow> 'w \<Rightarrow> go_error \<times> 'w" where
  "PrintYaml marshal GetNewTabWriter obj addDivider write w =
     (case marshal obj of
        Inl err \<Rightarrow> (Some err, w)
      | Inr output \<Rightarrow>
          (case GetNewTabWriter write output w of
             (err, w) \<Rightarrow> (err, if addDivider then snd (write divider w) else w)))"

definition PrintJSON :: "('a \<Rightarrow> string + string) \<Rightarrow> 'a \<Rightarrow> 'w go_writer \<Rightarrow> 'w \<Rightarrow> go_error \<times> 'w" where
  "PrintJSON marshal obj write w =
     (case marshal obj of
        Inl err \<Rightarrow> (Some err, w)
      | Inr output \<Rightarrow> write output w)"

text \<open>The lines logged.\<close>

definition ProcessOutput :: "string \<Rightarrow> go_error \<Rightarrow> string list" where
  "ProcessOutput str err = [str] @ (case err of None \<Rightarrow> [] | Some e \<Rightarrow> [e])"

section \<open>Documents as text\<close>

definition buffer_write :: "string go_writer" where
  "buffer_write s w = (None, w @ s)"

text \<open>The text of a document, and of the documents in a buffer.  An API has no divider after it.\<close>

definition doc_text :: "(json \<Rightarrow> string) \<Rightarrow> (catalog_doc \<Rightarrow> string) \<Rightarrow> catalog_doc \<Rightarrow> string" where
  "doc_text json yaml d =
     (case d of
        JsonDoc j \<Rightarrow> json j
      | ApiDoc _ _ \<Rightarrow> yaml d
      | _ \<Rightarrow> yaml d @ divider)"

definition docs_text :: "(json \<Rightarrow> string) \<Rightarrow> (catalog_doc \<Rightarrow> string) \<Rightarrow> catalog_doc list \<Rightarrow> string" where
  "docs_text json yaml docs = concat (map (doc_text json yaml) docs)"

definition print_doc ::
    "(json \<Rightarrow> string) \<Rightarrow> (catalog_doc \<Rightarrow> string) \<Rightarrow> (string go_writer \<Rightarrow> string go_writer) \<Rightarrow> catalog_doc
      \<Rightarrow> string \<Rightarrow> go_error \<times> string" where
  "print_doc json yaml tabs d buf =
     (case d of
        JsonDoc j \<Rightarrow> PrintJSON (Inr \<circ> json) j buffer_write buf
      | ApiDoc _ _ \<Rightarrow> PrintYaml (Inr \<circ> yaml) tabs d False buffer_write buf
      | _ \<Rightarrow> PrintYaml (Inr \<circ> yaml) tabs d True buffer_write buf)"

text \<open>
  Printing is appending to the list of documents, when the tab writer passes on what it is given; it
  does so for text without tabs that ends its lines.
\<close>

lemma print_doc_appends:
  assumes "\<And>buf. tabs buffer_write (yaml d) buf = buffer_write (yaml d) buf"
  shows "print_doc json yaml tabs d (docs_text json yaml docs) = (None, docs_text json yaml (docs @ [d]))"
  using assms
  by (cases d)
    (simp_all add: print_doc_def PrintJSON_def PrintYaml_def docs_text_def doc_text_def buffer_write_def)

lemma printed_component:
  assumes "\<And>d buf. tabs buffer_write (yaml d) buf = buffer_write (yaml d) buf"
  shows "\<exists>d. PrintComponent pop docs = docs @ [d]
    \<and> print_doc json yaml tabs d (docs_text json yaml docs) = (None, docs_text json yaml (PrintComponent pop docs))"
  by (simp add: PrintComponent_def print_doc_appends assms)

text \<open>A failing writer leaves the divider behind, if it takes that.\<close>

lemma divider_after_failure:
  assumes "tabs write output w = (Some err, w')"
  shows "PrintYaml (\<lambda>_. Inr output) tabs obj True write w = (Some err, snd (write divider w'))"
  by (simp add: PrintYaml_def assms)

section \<open>Serving until told to stop\<close>

text \<open>
  \<^verbatim>\<open>Run\<close> of the storage service restarts its router as the location service's does: the number of the
  router's returns, whether the stop channel is closed, and the signal handler.
\<close>

definition storage_Run :: "serve_event list \<Rightarrow> signal_handler \<Rightarrow> nat \<times> bool \<times> signal_handler" where
  "storage_Run es s = serve_loop es s 0"

text \<open>
  The \<^verbatim>\<open>pprof\<close> server is started once and not again.  \<open>served\<close> is what it has returned by now, if it
  has; the lines logged, and what \<^verbatim>\<open>Start\<close> returns, if the context is done.
\<close>

definition pprof_Start :: "string \<Rightarrow> go_error option \<Rightarrow> bool \<Rightarrow> string list \<times> go_error option" where
  "pprof_Start port served ctx_done =
     ([''starting ppprof on '' @ port]
        @ (case served of Some (Some err) \<Rightarrow> [''pprof server err: '' @ err] | _ \<Rightarrow> [])
        @ (if ctx_done then [''Shutting down pprof''] else []),
      if ctx_done then Some None else None)"

end
