(* ===== verification/Spec2Isabelle.thy ===== *)
theory Spec2Isabelle
  imports BackstageQuery Deploy Recovery ConfigMapRaces Reload Output
begin

text \<open>
  A model of the model catalog bridge, the Go services under \<^verbatim>\<open>src/cmd\<close> and \<^verbatim>\<open>src/pkg\<close>.

  \<^bold>\<open>The program.\<close>  A controller, the normaliser, watches KServe inference services and polls Kubeflow
  model registries.  It renders each model version as a catalog document and posts it, under an
  import key made of two sanitised names, to the storage service.  The storage service keeps the
  document in a ConfigMap, pushes it to the location service and imports the location's address
  into Backstage; from time to time the normaliser posts the set of current keys, and the storage
  service removes all others.  The location service serves the documents and the model cards to
  Backstage.  The services run apart and talk over HTTP, so every call between them may fail.

  \<^bold>\<open>The theories\<close>, each opening with what it holds and where the code is:

  \<^item> \<open>Prelude\<close>: the parts of Go's \<^verbatim>\<open>strings\<close> and \<^verbatim>\<open>fmt\<close> that are used, maps as association lists;
    the collections \<open>go_strings\<close> and \<open>alist_simps\<close>.
  \<^item> \<open>Names\<close>: names, import keys and URIs (\<^verbatim>\<open>pkg/util/utils.go\<close>, constants).  Sanitised names are
    valid entity names, empty only for texts without a letter or digit (C1); the services recover key and URI from an import key (C3) unless a
    name has an underscore (C4).
  \<^item> \<open>Wire\<close>: JSON, base64, \<open>StorageBody\<close> and \<open>PostBody\<close>, HTTP requests and gin's answers; the
    round trip of the stored body (C5).
  \<^item> \<open>ConfigMapStore\<close>: the storage tier \<^verbatim>\<open>configmap/storage.go\<close> over a Kubernetes client that may
    fail at any call, an instance of the contract \<open>bridge_storage\<close> (C6, C8, C9).
  \<^item> \<open>ConfigMapRaces\<close>: the same operations call by call, in several goroutines: alone, a goroutine
    does what the operation does; interleaved, they refine a store with atomic operations (C24).  Of the
    Kubernetes API they assume that an update must match the version of the object and raises it, except
    when it changes nothing.
  \<^item> \<open>LocationServer\<close> and \<open>LocationClient\<close>: the location service, its reachable states, and the
    REST client over a lossy network, an instance of \<open>location_service\<close> (C10 to C13).  \<open>Reload\<close>:
    filling the location service from the storage service, which deadlocks (C37).
  \<^item> \<open>Backstage\<close>, \<open>Schema\<close>, \<open>BackstageQuery\<close>: the client of Backstage (\<^verbatim>\<open>pkg/cmd/cli/backstage\<close>):
    imports of locations, the entity structs with \<^verbatim>\<open>encoding/json\<close> over them, whose printed values are
    read back (C2), queries by kind, tag and name (C22).
  \<^item> \<open>StorageServer\<close> and \<open>StorageClient\<close>: the storage service with its cache of pushed locations,
    proved in the locale \<open>storage_deps\<close> from the contracts of its storage tier and of the location
    service and instantiated with both (C17 to C19, C21), what a lost removal and a panic of \<open>sync\<close> come
    to (C20, C23), and the client the normaliser uses.
    The locales \<open>reporting\<close> and \<open>posting\<close> say what the normaliser may conclude from its
    requests, whatever they are answered with.
  \<^item> \<open>Handlers\<close>: the storage service's handlers call by call, with its mutex and the pointers of
    its cache into a heap; a call carries the copies of its arguments that Go takes before it.  A handler alone refines the handler in one go (C16); interleaved, handlers keep
    the services up and documents where they belong (C7), and all answer (C26), but they are not atomic (C28).
  \<^item> \<open>Catalog\<close>: the catalog documents of \<^verbatim>\<open>schema/types/golang\<close>, the populators' interfaces as records
    of their answers, and the printers (\<^verbatim>\<open>interfaces.go\<close>, \<^verbatim>\<open>kind_*.go\<close>).
  \<^item> \<open>GoUrl\<close> and \<open>KServe\<close>: the populators for an inference service (\<^verbatim>\<open>kserve.go\<close>; C27).
  \<^item> \<open>Kfmr\<close>: the client of a model registry, the pass over its contents and the populators for a
    model version (\<^verbatim>\<open>kubeflowmodelregistry\<close>; C29, C32 to C34).
  \<^item> \<open>Normalizer\<close>: the controller (\<^verbatim>\<open>rhoai-normalizer/controller.go\<close>): reconciliation and the pass,
    connected to the storage and location services (C36, C38 to C40).
  \<^item> \<open>Bridge\<close>: controller and services as one transition system, in which the key set of a pass may
    come late.  The controller is an instance of \<open>posting\<close> whose relation is a run of the services,
    so the bridge refines these runs; the invariant of its reachable states (C15), the convergence
    of the store by a pass (C35), and the race between a pass and a reconciliation (C31).
  \<^item> \<open>Repair\<close>: what requests that are all accepted come to: they refine one map from keys to
    documents, and bring the two services back in step for the keys they post; so does a pass in which
    every request is accepted (C14), whose requests are read off a transport that logs them.  The locale
    \<open>same_answers\<close> says that such a transport changes nothing.  \<open>Recovery\<close>: they do so too in the states
    that interleaved handlers leave behind, the one of C28 included (C25).
  \<^item> \<open>Startup\<close>: Kubernetes configuration and what the two services' \<^verbatim>\<open>main\<close> start them with (C30).
  \<^item> \<open>Manager\<close>: the process around the controller, signals, the serving loop, and the clients made from
    a command's configuration.  \<open>Output\<close>: printing documents to a buffer, which is what their lists in
    \<open>Catalog\<close> stand for, the log and the \<^verbatim>\<open>pprof\<close> server.
  \<^item> \<open>Deploy\<close>: the deployment of the location service by hand.

  \<^bold>\<open>Conventions.\<close>  A struct is a record with its fields' names prefixed, a handler a function from
  the request and the state to the answer and the next state.  An error is a value
  (\<open>go_error\<close>, or the left summand), a panic \<^const>\<open>None\<close>.  What is not under \<^verbatim>\<open>src/pkg\<close> is a
  parameter: the Kubernetes client (\<open>CoreV1\<close>, \<open>cluster\<close>, \<open>deploy_client\<close>, \<open>os_env\<close>), the network
  (\<open>transport\<close>), the JSON decoders of the registry's generated types (\<open>openapi_json\<close>), and the
  rendering of documents as text (\<open>render\<close>, \<open>indent\<close>).  Hypotheses such as \<open>services_ok\<close> are
  invariants that every operation keeps and the initial states have.

  \<^bold>\<open>Bounds.\<close>  Every definition is total.  The poll of the ConfigMap update tries once and then as often
  as the client's \<open>k8s_ticks\<close>, a parameter, allows in its five seconds; C8 says when it succeeds.  Call by call, \<open>2 * k8s_ticks + 3\<close>
  steps of an undisturbed goroutine are enough for an operation.  A handler of the storage service takes at
  most \<open>steps_left\<close> steps, where the key set handler has first to learn how many keys there are.  The only loop
  without an end is \<open>Start\<close>, a partial function, of which C40 says that it ends by a panic only.

  \<^bold>\<open>Not modelled.\<close>  Concurrency beyond three places: the goroutines of the storage tier
  interleave at every call of the Kubernetes client (C24), the handlers of the storage service at every
  call of the tier, the location service and Backstage (C7), and passes and reconciliations of the
  controller at the requests of a pass (C15, C31).  The three are not composed: in \<open>Handlers\<close> a call of the tier
  is one step, as C24 allows, in \<open>Bridge\<close> a request is.  The handlers of the location service hold its lock while they use its maps, so one
  step each is what they are.
  What Go leaves undefined when two goroutines write one variable is not modelled; copying a struct is one step.  A range over a map of Go visits the keys in any order; here
  it follows the association list, and the theorems hold for every such list.  Further: logging, flags, the HTTP
  servers and TLS of the libraries, \<^verbatim>\<open>NewForConfigOrDie\<close>, the YAML text of the entities, and
  characters outside ASCII in case folding.
\<close>

end
